(* ===== verification/Prelude.thy ===== *)
theory Prelude
  imports Main "HOL-Library.AList" "HOL-Library.Multiset"
    "HOL-Library.List_Lexorder" "HOL-Library.Char_ord"
begin

text \<open>
  Shared vocabulary of the game-server model.  The TypeScript server keeps its data in
  JavaScript \<open>Map\<close>s, \<open>Set\<close>s and plain objects used as records; all three iterate in
  insertion order, and the server relies on that order (the roster order is the order
  in which the turn sequencer and the role assignment see the players, and the first
  imposter found in the role list is ``the'' imposter).  They are modelled here as
  association lists:
  \<^item> \<open>Map.set\<close> / \<open>obj[k] = v\<close> is \<open>AList.update\<close>, which replaces an existing key in
    place and appends a new key at the end, exactly as a JavaScript Map does;
  \<^item> \<open>Map.delete\<close> is \<open>AList.delete\<close>, \<open>Map.get\<close> and \<open>Map.has\<close> are \<open>map_of\<close>;
  \<^item> a \<open>Set\<close> is a list without duplicates, \<open>Set.add\<close> appends a new element.
  Player ids and room codes are strings (\<open>pid\<close>, \<open>room_code\<close>).
\<close>

type_synonym pid = string
type_synonym room_code = string

text \<open>
  Every \<open>throw new Error(...)\<close> of the server, one constructor each, and the
  \<open>TypeError\<close>s that a failed non-null assertion raises: \<open>find(...)!.playerId\<close> on
  \<open>undefined\<close>, and a method call \<open>x!.f()\<close> on \<open>null\<close>.
  \<open>error_message\<close> is the \<open>message\<close> field the router sends back to the client.
\<close>

datatype error =
    VoterNotValid | VotedForNotValid | SelfVote | AlreadyVoted
  | NotInLobby | RoomFull | NotEnoughPlayers | NotAllReady
  | NotRoleRevealPhase | NotDrawingPhase | NoTurnManager | NotYourTurn
  | VotingNotStarted | NoSecretWord | NoRoleAssignment pid
  | CategoryNotFound string
  | TypeErrorUndefined
  | TypeErrorNull string

definition error_message :: "error \<Rightarrow> string" where
  "error_message e = (case e of
      VoterNotValid \<Rightarrow> ''Voter is not a valid player''
    | VotedForNotValid \<Rightarrow> ''Voted-for player is not valid''
    | SelfVote \<Rightarrow> ''Cannot vote for self''
    | AlreadyVoted \<Rightarrow> ''Player has already voted''
    | NotInLobby \<Rightarrow> ''Can only join during LOBBY phase''
    | RoomFull \<Rightarrow> ''Room is full''
    | NotEnoughPlayers \<Rightarrow> ''Need at least 3 players to start''
    | NotAllReady \<Rightarrow> ''All players must be ready to start''
    | NotRoleRevealPhase \<Rightarrow> ''Can only start drawing from ROLE_REVEAL phase''
    | NotDrawingPhase \<Rightarrow> ''Can only submit strokes during DRAWING phase''
    | NoTurnManager \<Rightarrow> ''Turn manager not initialized''
    | NotYourTurn \<Rightarrow> ''Not your turn''
    | VotingNotStarted \<Rightarrow> ''Voting has not started''
    | NoSecretWord \<Rightarrow> ''No secret word set''
    | NoRoleAssignment p \<Rightarrow> ''No role assignment found for player '' @ p
    | CategoryNotFound c \<Rightarrow> ''Category '' @ [CHR 0x27] @ c @ [CHR 0x27] @ '' not found''
    | TypeErrorUndefined \<Rightarrow> ''Cannot read properties of undefined (reading '' @ [CHR 0x27] @ ''playerId'' @ [CHR 0x27] @ '')''
    | TypeErrorNull f \<Rightarrow> ''Cannot read properties of null (reading '' @ [CHR 0x27] @ f @ [CHR 0x27] @ '')'')"

text \<open>The lemmas on association lists that the component proofs share.\<close>

named_theorems alist_simps "facts on association lists used as JavaScript maps"

text \<open>\<open>Set.add\<close>, \<open>Set.delete\<close> and \<open>new Set(xs)\<close> on an insertion-ordered set.\<close>

definition js_set_add :: "'a \<Rightarrow> 'a list \<Rightarrow> 'a list" where
  "js_set_add x xs = (if x \<in> set xs then xs else xs @ [x])"

definition js_set_delete :: "'a \<Rightarrow> 'a list \<Rightarrow> 'a list" where
  "js_set_delete x xs = removeAll x xs"

definition js_set_of :: "'a list \<Rightarrow> 'a list" where
  "js_set_of xs = foldl (\<lambda>s x. js_set_add x s) [] xs"

text \<open>
  JavaScript's \<open>%\<close> on integral numbers: the remainder of truncating division, which
  takes the sign of the dividend (\<open>-1 % 8 = -1\<close>), unlike HOL's \<open>mod\<close>.
\<close>

definition js_rem :: "int \<Rightarrow> int \<Rightarrow> int" where
  "js_rem a b = sgn a * (\<bar>a\<bar> mod \<bar>b\<bar>)"

text \<open>
  The truth value of an optional string (\<open>if (s)\<close>, \<open>s || t\<close>): \<open>undefined\<close>,
  \<open>null\<close> and the empty string are falsy.
\<close>

definition str_truthy :: "string option \<Rightarrow> bool" where
  "str_truthy s = (case s of None \<Rightarrow> False | Some w \<Rightarrow> w \<noteq> [])"

text \<open>
  \<open>String.prototype.toLowerCase\<close> on the ASCII letters; characters are bytes here, so
  letters outside ASCII are left as they are (JavaScript would lower them too).
\<close>

definition js_toLowerCase :: "string \<Rightarrow> string" where
  "js_toLowerCase s =
     map (\<lambda>c. if CHR ''A'' \<le> c \<and> c \<le> CHR ''Z'' then char_of (of_char c + (32::nat)) else c) s"

text \<open>\<open>obj[k] += n\<close> on a key the object already holds.\<close>

definition js_add_to :: "'k \<Rightarrow> int \<Rightarrow> ('k \<times> int) list \<Rightarrow> ('k \<times> int) list" where
  "js_add_to k n m = AList.map_entry k (\<lambda>v. v + n) m"

lemma set_js_set_add [simp]: "set (js_set_add x xs) = insert x (set xs)"
  by (auto simp: js_set_add_def)

lemma distinct_js_set_add [simp]: "distinct (js_set_add x xs) = distinct xs"
  by (auto simp: js_set_add_def)

lemma set_js_set_delete [simp]: "set (js_set_delete x xs) = set xs - {x}"
  by (simp add: js_set_delete_def)

lemma distinct_js_set_delete [intro]: "distinct xs \<Longrightarrow> distinct (js_set_delete x xs)"
  by (simp add: js_set_delete_def distinct_removeAll)

lemma js_set_of_foldl:
  "set (foldl (\<lambda>s x. js_set_add x s) s0 xs) = set s0 \<union> set xs \<and>
   (distinct s0 \<longrightarrow> distinct (foldl (\<lambda>s x. js_set_add x s) s0 xs))"
  by (induction xs arbitrary: s0) auto

lemma set_js_set_of [simp]: "set (js_set_of xs) = set xs"
  using js_set_of_foldl [of "[]" xs] by (simp add: js_set_of_def)

lemma distinct_js_set_of [simp]: "distinct (js_set_of xs)"
  using js_set_of_foldl [of "[]" xs] by (simp add: js_set_of_def)

lemma length_js_set_of [simp]: "length (js_set_of xs) = card (set xs)"
  using distinct_card [of "js_set_of xs"] by simp

lemma map_of_js_add_to [alist_simps]:
  "map_of (js_add_to k n m) = (map_of m)(k := map_option (\<lambda>v. v + n) (map_of m k))"
  by (simp add: js_add_to_def map_of_map_entry split: option.splits)

lemma keys_js_add_to [alist_simps]: "fst ` set (js_add_to k n m) = fst ` set m"
  by (simp add: js_add_to_def dom_map_entry)

lemma distinct_js_add_to [alist_simps]:
  "distinct (map fst m) \<Longrightarrow> distinct (map fst (js_add_to k n m))"
  by (simp add: js_add_to_def distinct_map_entry)

lemma map_of_update_self [alist_simps]: "map_of (AList.update k v m) k = Some v"
  by (simp add: update_conv')

lemma keys_update [alist_simps]: "fst ` set (AList.update k v m) = insert k (fst ` set m)"
  by (simp add: dom_update)

lemma map_fst_update [alist_simps]:
  "map fst (AList.update k v m) = js_set_add k (map fst m)"
  by (induction m) (auto simp: js_set_add_def)

text \<open>A loop of \<open>m[k] = v\<close> over a list of keys (\<open>forEach\<close>).\<close>

lemma keys_foldl_update [alist_simps]:
  "fst ` set (foldl (\<lambda>m k. AList.update k v m) m0 ks) = fst ` set m0 \<union> set ks"
  by (induction ks arbitrary: m0) (auto simp: dom_update)

lemma map_of_foldl_update [alist_simps]:
  "map_of (foldl (\<lambda>m k. AList.update k v m) m0 ks) k =
   (if k \<in> set ks then Some v else map_of m0 k)"
  by (induction ks arbitrary: m0) (auto simp: update_conv')

lemma distinct_foldl_update [alist_simps]:
  "distinct (map fst m0) \<Longrightarrow> distinct (map fst (foldl (\<lambda>m k. AList.update k v m) m0 ks))"
  by (induction ks arbitrary: m0) (auto simp: distinct_update)

lemma update_append_new:
  "k \<notin> fst ` set al \<Longrightarrow> AList.update k v al = al @ [(k, v)]"
  by (induction al) auto

lemma alist_as_map:
  "distinct (map fst l) \<Longrightarrow> l = map (\<lambda>k. (k, the (map_of l k))) (map fst l)"
proof (induction l)
  case Nil
  then show ?case by simp
next
  case (Cons kv l)
  obtain k v where kv: "kv = (k, v)" by (cases kv)
  from Cons.prems kv have nk: "k \<notin> set (map fst l)" by simp
  have "map (\<lambda>k'. (k', the (map_of ((k, v) # l) k'))) (map fst l) =
        map (\<lambda>k'. (k', the (map_of l k'))) (map fst l)"
    using nk by (auto intro!: map_cong)
  with Cons kv show ?case by simp
qed

lemma foldl_update_fresh:
  "distinct (map fst (r @ vs)) \<Longrightarrow> foldl (\<lambda>r (v, t). AList.update v t r) r vs = r @ vs"
proof (induction vs arbitrary: r)
  case Nil
  then show ?case by simp
next
  case (Cons vt vs)
  obtain v t where vt: "vt = (v, t)" by (cases vt)
  from Cons.prems vt have "v \<notin> fst ` set r" by auto
  then have "AList.update v t r = r @ [(v, t)]" by (rule update_append_new)
  with Cons.IH [of "r @ [(v, t)]"] Cons.prems vt show ?case by simp
qed

text \<open>Lists without duplicates: one element, more than one element.\<close>

lemma distinct_eq_singleton:
  assumes d: "distinct xs"
  shows "xs = [x] \<longleftrightarrow> (\<forall>y. y \<in> set xs \<longleftrightarrow> y = x)"
proof
  assume "\<forall>y. y \<in> set xs \<longleftrightarrow> y = x"
  then have s: "set xs = {x}" by auto
  then have "length xs = 1" using distinct_card [OF d] by simp
  then obtain z where "xs = [z]" by (auto simp: length_Suc_conv)
  with s show "xs = [x]" by simp
qed simp

lemma length_gt_1_iff: "1 < length xs \<longleftrightarrow> (\<exists>p q. p \<in> set xs \<and> q \<in> set xs \<and> p \<noteq> q) \<or> \<not> distinct xs"
proof (cases xs)
  case Nil
  then show ?thesis by simp
next
  case (Cons a ys)
  then show ?thesis by (cases ys) auto
qed

text \<open>
  Successive calls of an operation that may throw, as a caller issues them: the first
  exception ends the sequence.
\<close>

fun run_calls :: "('s \<Rightarrow> 'a \<Rightarrow> error + 's) \<Rightarrow> 's \<Rightarrow> 'a list \<Rightarrow> error + 's" where
  "run_calls f s [] = Inr s"
| "run_calls f s (a # as) = (case f s a of Inl e \<Rightarrow> Inl e | Inr s' \<Rightarrow> run_calls f s' as)"

lemma run_calls_append:
  "run_calls f s (xs @ ys) = (case run_calls f s xs of Inl e \<Rightarrow> Inl e | Inr s' \<Rightarrow> run_calls f s' ys)"
  by (induction xs arbitrary: s) (auto split: sum.splits)

text \<open>The state a method call leaves when it returns normally, for \<open>run_calls\<close>.\<close>

definition ok_state :: "(error + 'a) \<times> 's \<Rightarrow> error + 's" where
  "ok_state res = (case fst res of Inl e \<Rightarrow> Inl e | Inr _ \<Rightarrow> Inr (snd res))"

subsection \<open>Association lists and permutations\<close>

lemma length_update:
  "length (AList.update k v al) = (if k \<in> fst ` set al then length al else Suc (length al))"
  by (induction al) auto

lemma set_update_subset: "set (AList.update k v al) \<subseteq> insert (k, v) (set al)"
  by (induction al) auto

lemma length_filter_distinct: "distinct xs \<Longrightarrow> length (filter P xs) = card {x \<in> set xs. P x}"
  by (metis distinct_card distinct_filter set_filter)

lemma card_take_perm:
  assumes "mset sh = mset ids" and "distinct ids" and "k \<le> length ids"
  shows "card (set (take k sh)) = k \<and> set (take k sh) \<subseteq> set ids"
proof -
  have d: "distinct sh" using mset_eq_imp_distinct_iff [OF assms(1)] assms(2) by simp
  have l: "length sh = length ids" using assms(1) by (rule mset_eq_length)
  have "card (set (take k sh)) = length (take k sh)"
    using d by (simp add: distinct_card)
  moreover have "set (take k sh) \<subseteq> set ids"
    using assms(1) by (metis mset_eq_setD set_take_subset)
  ultimately show ?thesis using l assms(3) by simp
qed

lemma concat_map_guarded:
  "(\<And>i. k i < length xs) \<Longrightarrow>
   concat (map (\<lambda>i. if k i < length xs then [xs ! k i] else []) is) = map (\<lambda>i. xs ! k i) is"
  by (induction "is") auto

end
