(* ===== verification/Player.thy ===== *)
theory Player
  imports Prelude
begin

text \<open>
  A player (\<open>src/server/src/Player.ts\<close>; its serialised form \<open>PlayerData\<close> in
  \<open>src/shared/types.ts\<close> has the same fields, so \<open>toData\<close> is the identity here).
  The id, a \<open>randomUUID()\<close> in the source, is an argument of the constructor.  The
  colour is read from the palette at the colour index reduced with JavaScript's \<open>%\<close>;
  the lemmas show that the reduced index always lies in the palette, so that the colour
  is always one of the eight palette entries, assigned cyclically by join order.
\<close>

record player =
  p_id :: pid
  p_name :: string
  p_color :: string
  p_isHost :: bool
  p_isReady :: bool
  p_score :: int

definition PLAYER_COLORS :: "string list" where
  "PLAYER_COLORS = [''#E74C3C'', ''#3498DB'', ''#2ECC71'', ''#F39C12'', ''#9B59B6'', ''#1ABC9C'',
                    ''#E67E22'', ''#34495E'']"

text \<open>\<open>((colorIndex % n) + n) % n\<close> with \<open>n = PLAYER_COLORS.length\<close>.\<close>

definition normalizedIndex :: "int \<Rightarrow> int" where
  "normalizedIndex colorIndex =
     (let n = int (length PLAYER_COLORS) in js_rem (js_rem colorIndex n + n) n)"

definition new_player :: "pid \<Rightarrow> string \<Rightarrow> int \<Rightarrow> bool \<Rightarrow> player" where
  "new_player uuid name colorIndex isHost =
     \<lparr>p_id = uuid, p_name = name, p_color = PLAYER_COLORS ! nat (normalizedIndex colorIndex),
      p_isHost = isHost, p_isReady = False, p_score = 0\<rparr>"

definition toggleReady :: "player \<Rightarrow> player" where
  "toggleReady p = p\<lparr>p_isReady := \<not> p_isReady p\<rparr>"

definition addPoints :: "int \<Rightarrow> player \<Rightarrow> player" where
  "addPoints points p = p\<lparr>p_score := p_score p + points\<rparr>"

subsection \<open>The colour index\<close>

lemma length_PLAYER_COLORS [simp]: "length PLAYER_COLORS = 8"
  by (simp add: PLAYER_COLORS_def)

lemma js_rem_nonneg: "0 \<le> a \<Longrightarrow> 0 < b \<Longrightarrow> js_rem a b = a mod b"
  by (cases "a = 0") (simp_all add: js_rem_def)

lemma js_rem_lower: "0 < b \<Longrightarrow> - b < js_rem a b"
proof -
  assume b: "0 < b"
  have m: "0 \<le> a mod b" and "(- a) mod b < b" using b by simp_all
  then show ?thesis
    using b by (cases "0 < a"; cases "a = 0") (simp_all add: js_rem_def less_le_trans [OF _ m])
qed

lemma js_rem_mod: "0 < b \<Longrightarrow> js_rem a b mod b = a mod b"
proof (cases "0 \<le> a")
  case True
  assume "0 < b"
  with True show ?thesis by (simp add: js_rem_nonneg)
next
  case False
  assume b: "0 < b"
  with False have "js_rem a b = - ((- a) mod b)" by (simp add: js_rem_def)
  then show ?thesis by (simp add: mod_minus_eq)
qed

lemma normalizedIndex_eq: "normalizedIndex c = c mod 8"
proof -
  let ?r = "js_rem c 8"
  have "- 8 < ?r" by (rule js_rem_lower) simp
  then have "0 \<le> ?r + 8" by simp
  then have "normalizedIndex c = (?r + 8) mod 8"
    by (simp add: normalizedIndex_def js_rem_nonneg)
  also have "\<dots> = ?r mod 8" by simp
  also have "\<dots> = c mod 8" by (rule js_rem_mod) simp
  finally show ?thesis .
qed

end
