(* ===== verification/VotingManager.thy ===== *)
theory VotingManager
  imports Prelude
begin

text \<open>
  The vote collector (\<open>src/server/src/VotingManager.ts\<close>) and the \<open>VoteResult\<close> it
  produces (\<open>src/shared/types.ts\<close>).  Its state is the record \<open>voting_manager\<close>: the
  \<open>Set\<close> of eligible players, the tracked imposter and the \<open>Map\<close> from voter to target,
  both in insertion order.  \<open>castVote\<close> returns the thrown error as \<open>Inl\<close>; it throws
  before it writes, so an error leaves the collector as it was.
  The lemmas show that \<open>castVote\<close> keeps the collector well formed (one vote per
  voter, only players, no self-votes), that \<open>isComplete\<close> means that every player has
  voted, and that \<open>getResult\<close> implements plurality voting with explicit ties: the
  tally and the maximum scan compute exactly the declarative \<open>vote_result_spec\<close>.
\<close>

record vote_result =
  vr_votes :: "(pid \<times> pid) list"
  vr_caughtPlayerId :: "pid option"
  vr_isTie :: bool

record voting_manager =
  vm_playerIds :: "pid list"
  vm_imposterId :: pid
  vm_votes :: "(pid \<times> pid) list"

definition new_voting_manager :: "pid list \<Rightarrow> pid \<Rightarrow> voting_manager" where
  "new_voting_manager playerIds imposterId =
     \<lparr>vm_playerIds = js_set_of playerIds, vm_imposterId = imposterId, vm_votes = []\<rparr>"

definition castVote :: "voting_manager \<Rightarrow> pid \<Rightarrow> pid \<Rightarrow> error + voting_manager" where
  "castVote vm voterId votedForId =
     (if voterId \<notin> set (vm_playerIds vm) then Inl VoterNotValid
      else if votedForId \<notin> set (vm_playerIds vm) then Inl VotedForNotValid
      else if voterId = votedForId then Inl SelfVote
      else if map_of (vm_votes vm) voterId \<noteq> None then Inl AlreadyVoted
      else Inr (vm\<lparr>vm_votes := AList.update voterId votedForId (vm_votes vm)\<rparr>))"

definition getVoteCount :: "voting_manager \<Rightarrow> nat" where
  "getVoteCount vm = length (vm_votes vm)"

definition isComplete_vm :: "voting_manager \<Rightarrow> bool" where
  "isComplete_vm vm \<longleftrightarrow> length (vm_votes vm) = length (vm_playerIds vm)"

text \<open>
  \<open>getResult\<close>, in its three loops: the copy of the votes into a record, the tally
  \<open>voteCounts.set(t, (voteCounts.get(t) || 0) + 1)\<close>, and the scan for the maximum,
  which restarts the list on a larger count and appends on an equal one.  The caught
  player is \<open>playersWithMaxVotes[0] || null\<close>: absent, or the empty string (falsy),
  gives \<open>null\<close>.
\<close>

definition tally :: "(pid \<times> pid) list \<Rightarrow> (pid \<times> nat) list" where
  "tally votes =
     foldl (\<lambda>c (v, t). AList.update t ((case map_of c t of None \<Rightarrow> 0 | Some n \<Rightarrow> n) + 1) c)
       [] votes"

definition max_step :: "nat \<times> pid list \<Rightarrow> pid \<times> nat \<Rightarrow> nat \<times> pid list" where
  "max_step acc pc =
     (let (maxVotes, ps) = acc; (p, count) = pc in
      if count > maxVotes then (count, [p])
      else if count = maxVotes then (maxVotes, ps @ [p])
      else (maxVotes, ps))"

definition getResult :: "voting_manager \<Rightarrow> vote_result" where
  "getResult vm =
     (let votesRecord = foldl (\<lambda>r (v, t). AList.update v t r) [] (vm_votes vm);
          voteCounts = tally (vm_votes vm);
          (maxVotes, playersWithMaxVotes) = foldl max_step (0, []) voteCounts;
          isTie = length playersWithMaxVotes > 1;
          caught = (if isTie then None
                    else case playersWithMaxVotes of
                      [] \<Rightarrow> None
                    | p # _ \<Rightarrow> if p = [] then None else Some p)
      in \<lparr>vr_votes = votesRecord, vr_caughtPlayerId = caught, vr_isTie = isTie\<rparr>)"

definition isCaughtPlayerImposter :: "voting_manager \<Rightarrow> bool" where
  "isCaughtPlayerImposter vm =
     (let result = getResult vm in
      if vr_isTie result \<or> vr_caughtPlayerId result = None then False
      else vr_caughtPlayerId result = Some (vm_imposterId vm))"

subsection \<open>Plurality voting, declaratively\<close>

text \<open>
  The number of votes a target received, the largest such number, and the targets that
  reach it, in the order in which they first received a vote.
\<close>

definition vote_count :: "(pid \<times> pid) list \<Rightarrow> pid \<Rightarrow> nat" where
  "vote_count votes t = count_list (map snd votes) t"

definition max_votes :: "(pid \<times> pid) list \<Rightarrow> nat" where
  "max_votes votes = Max (insert 0 (vote_count votes ` set (map snd votes)))"

definition leaders :: "(pid \<times> pid) list \<Rightarrow> pid list" where
  "leaders votes = filter (\<lambda>t. vote_count votes t = max_votes votes) (js_set_of (map snd votes))"

definition vote_result_spec :: "(pid \<times> pid) list \<Rightarrow> vote_result" where
  "vote_result_spec votes =
     \<lparr>vr_votes = votes,
      vr_caughtPlayerId = (case leaders votes of [p] \<Rightarrow> if p = [] then None else Some p | _ \<Rightarrow> None),
      vr_isTie = length (leaders votes) > 1\<rparr>"

text \<open>The well-formedness of a collector.\<close>

definition vm_inv :: "voting_manager \<Rightarrow> bool" where
  "vm_inv vm \<longleftrightarrow>
     distinct (vm_playerIds vm) \<and> distinct (map fst (vm_votes vm)) \<and>
     (\<forall>(v, t) \<in> set (vm_votes vm). v \<in> set (vm_playerIds vm) \<and> t \<in> set (vm_playerIds vm) \<and> v \<noteq> t)"

subsection \<open>The tally and the maximum scan\<close>

lemma tally_foldl:
  "map fst (foldl (\<lambda>c (v, t). AList.update t ((case map_of c t of None \<Rightarrow> 0 | Some n \<Rightarrow> n) + 1) c) c0 vs)
     = foldl (\<lambda>s x. js_set_add x s) (map fst c0) (map snd vs) \<and>
   map_of (foldl (\<lambda>c (v, t). AList.update t ((case map_of c t of None \<Rightarrow> 0 | Some n \<Rightarrow> n) + 1) c) c0 vs) t
     = (case map_of c0 t of
          None \<Rightarrow> if count_list (map snd vs) t = 0 then None else Some (count_list (map snd vs) t)
        | Some n \<Rightarrow> Some (n + count_list (map snd vs) t))"
proof (induction vs arbitrary: c0)
  case Nil
  then show ?case by (simp split: option.splits)
next
  case (Cons vt vs)
  obtain v t' where vt: "vt = (v, t')" by (cases vt)
  show ?case
    using Cons.IH [of "AList.update t' ((case map_of c0 t' of None \<Rightarrow> 0 | Some n \<Rightarrow> n) + 1) c0"]
    by (auto simp: vt alist_simps update_conv' split: option.splits)
qed

lemma tally_eq:
  "tally votes = map (\<lambda>t. (t, vote_count votes t)) (js_set_of (map snd votes))"
proof -
  let ?l = "tally votes"
  have keys: "map fst ?l = js_set_of (map snd votes)"
    using tally_foldl [of "[]" votes] by (simp add: tally_def js_set_of_def)
  have vals: "map_of ?l t = (if count_list (map snd votes) t = 0 then None else Some (vote_count votes t))" for t
    using tally_foldl [of "[]" votes t] by (simp add: tally_def vote_count_def)
  have "distinct (map fst ?l)" by (simp add: keys)
  then have "?l = map (\<lambda>k. (k, the (map_of ?l k))) (map fst ?l)"
    by (rule alist_as_map)
  also have "\<dots> = map (\<lambda>t. (t, vote_count votes t)) (js_set_of (map snd votes))"
    by (auto simp: keys vals count_list_0_iff intro!: map_cong)
  finally show ?thesis .
qed

subsection \<open>The maximum scan computes the leaders\<close>

lemma foldl_max_ge: "(m::nat) \<le> foldl max m xs"
proof (induction xs arbitrary: m)
  case Nil
  then show ?case by simp
next
  case (Cons x xs)
  have "max m x \<le> foldl max (max m x) xs" by (rule Cons.IH)
  then show ?case by simp
qed

lemma foldl_max_Max: "foldl max (m::nat) xs = Max (insert m (set xs))"
proof -
  have "foldl max m xs = fold max xs m"
  proof (induction xs arbitrary: m)
    case (Cons x xs)
    have "max m x = max x m" by (rule max.commute)
    with Cons.IH show ?case by simp
  qed simp
  also have "\<dots> = Max (set (m # xs))"
    by (simp only: Max.set_eq_fold)
  finally show ?thesis by simp
qed

lemma max_step_simp:
  "max_step (m, ps) (p, c) =
     (if c > m then (c, [p]) else if c = m then (m, ps @ [p]) else (m, ps))"
  by (simp add: max_step_def)

lemma max_step_foldl:
  "foldl max_step (m, ps) cs =
    (let M = foldl max m (map snd cs) in
     (M, (if M = m then ps else []) @ map fst (filter (\<lambda>(p, c). c = M) cs)))"
proof (induction cs arbitrary: m ps)
  case Nil
  then show ?case by simp
next
  case (Cons pc cs)
  obtain p c where pc: "pc = (p, c)" by (cases pc)
  let ?F = "\<lambda>M. map fst (filter (\<lambda>(p, c). c = M) cs)"
  consider (gt) "m < c" | (eq) "c = m" | (lt) "c < m" by arith
  then show ?case
  proof cases
    case gt
    let ?N = "foldl max c (map snd cs)"
    have step: "foldl max_step (m, ps) (pc # cs) = foldl max_step (c, [p]) cs"
      using gt by (simp add: pc max_step_simp)
    have M: "foldl max m (map snd (pc # cs)) = ?N"
      using gt by (simp add: pc max_absorb2)
    have "c \<le> ?N" by (rule foldl_max_ge)
    with gt have ne: "?N \<noteq> m" by simp
    have "foldl max_step (m, ps) (pc # cs) = (?N, (if ?N = c then [p] else []) @ ?F ?N)"
      by (simp only: step Cons.IH [of c "[p]"] Let_def)
    also have "\<dots> = (?N, (if ?N = m then ps else []) @ map fst (filter (\<lambda>(p, c). c = ?N) (pc # cs)))"
      using ne by (auto simp: pc)
    finally show ?thesis
      by (simp only: M Let_def)
  next
    case eq
    let ?N = "foldl max m (map snd cs)"
    have step: "foldl max_step (m, ps) (pc # cs) = foldl max_step (m, ps @ [p]) cs"
      using eq by (simp add: pc max_step_simp)
    have M: "foldl max m (map snd (pc # cs)) = ?N"
      using eq by (simp add: pc)
    have "foldl max_step (m, ps) (pc # cs) = (?N, (if ?N = m then ps @ [p] else []) @ ?F ?N)"
      by (simp only: step Cons.IH [of m "ps @ [p]"] Let_def)
    also have "\<dots> = (?N, (if ?N = m then ps else []) @ map fst (filter (\<lambda>(p, c). c = ?N) (pc # cs)))"
      using eq by (auto simp: pc)
    finally show ?thesis
      by (simp only: M Let_def)
  next
    case lt
    let ?N = "foldl max m (map snd cs)"
    have step: "foldl max_step (m, ps) (pc # cs) = foldl max_step (m, ps) cs"
      using lt by (simp add: pc max_step_simp)
    have M: "foldl max m (map snd (pc # cs)) = ?N"
      using lt by (simp add: pc max_absorb1)
    have "m \<le> ?N" by (rule foldl_max_ge)
    with lt have ne: "c \<noteq> ?N" by simp
    have "foldl max_step (m, ps) (pc # cs) = (?N, (if ?N = m then ps else []) @ ?F ?N)"
      by (simp only: step Cons.IH [of m ps] Let_def)
    also have "\<dots> = (?N, (if ?N = m then ps else []) @ map fst (filter (\<lambda>(p, c). c = ?N) (pc # cs)))"
      using ne by (simp add: pc)
    finally show ?thesis
      by (simp only: M Let_def)
  qed
qed


lemma scan_tally: "foldl max_step (0, []) (tally votes) = (max_votes votes, leaders votes)"
proof -
  have M: "foldl max 0 (map (vote_count votes) (js_set_of (map snd votes))) = max_votes votes"
    by (simp add: foldl_max_Max max_votes_def)
  show ?thesis
    by (simp add: max_step_foldl M Let_def leaders_def tally_eq filter_map comp_def)
qed

lemma getResult_eq_spec:
  "distinct (map fst (vm_votes vm)) \<Longrightarrow> getResult vm = vote_result_spec (vm_votes vm)"
  using foldl_update_fresh [of "[]" "vm_votes vm"]
  by (auto simp: getResult_def vote_result_spec_def scan_tally Let_def split: list.splits)

lemma vote_count_pos: "0 < vote_count votes t \<longleftrightarrow> t \<in> set (map snd votes)"
  by (simp add: vote_count_def count_list_0_iff neq0_conv [symmetric] del: neq0_conv)

lemma vote_count_le_max: "vote_count votes t \<le> max_votes votes"
proof (cases "t \<in> set (map snd votes)")
  case True
  then show ?thesis by (simp add: max_votes_def)
next
  case False
  then have "vote_count votes t = 0" using vote_count_pos [of votes t] by simp
  then show ?thesis by simp
qed

lemma max_votes_attained:
  "max_votes votes = 0 \<or> (\<exists>t. 0 < vote_count votes t \<and> vote_count votes t = max_votes votes)"
proof -
  have "max_votes votes \<in> insert 0 (vote_count votes ` set (map snd votes))"
    unfolding max_votes_def by (rule Max_in) simp_all
  then consider "max_votes votes = 0"
    | t where "t \<in> set (map snd votes)" and "max_votes votes = vote_count votes t"
    by (elim insertE imageE) auto
  then show ?thesis
  proof cases
    case 1
    then show ?thesis by simp
  next
    case (2 t)
    then have "0 < vote_count votes t" by (simp only: vote_count_pos)
    with 2 show ?thesis by auto
  qed
qed

lemma mem_leaders:
  "t \<in> set (leaders votes) \<longleftrightarrow> 0 < vote_count votes t \<and> (\<forall>r. vote_count votes r \<le> vote_count votes t)"
proof
  assume "t \<in> set (leaders votes)"
  then have t: "t \<in> set (map snd votes)" and eq: "vote_count votes t = max_votes votes"
    by (auto simp: leaders_def)
  from t have "0 < vote_count votes t" by (simp only: vote_count_pos)
  with eq show "0 < vote_count votes t \<and> (\<forall>r. vote_count votes r \<le> vote_count votes t)"
    using vote_count_le_max by simp
next
  assume a: "0 < vote_count votes t \<and> (\<forall>r. vote_count votes r \<le> vote_count votes t)"
  then have t: "t \<in> set (map snd votes)" by (simp only: vote_count_pos)
  have "max_votes votes \<le> vote_count votes t"
  proof (cases "max_votes votes = 0")
    case True
    then show ?thesis by simp
  next
    case False
    with max_votes_attained [of votes] obtain r where "vote_count votes r = max_votes votes"
      by blast
    with a show ?thesis by metis
  qed
  with vote_count_le_max [of votes t] have "vote_count votes t = max_votes votes" by simp
  with t show "t \<in> set (leaders votes)" by (simp add: leaders_def)
qed

lemma distinct_leaders: "distinct (leaders votes)"
  by (simp add: leaders_def)

lemma leaders_single:
  "leaders votes = [p] \<longleftrightarrow>
     0 < vote_count votes p \<and> (\<forall>q. q \<noteq> p \<longrightarrow> vote_count votes q < vote_count votes p)"
  (is "_ \<longleftrightarrow> ?strict")
proof -
  let ?c = "vote_count votes"
  have "leaders votes = [p] \<longleftrightarrow> (\<forall>y. (0 < ?c y \<and> (\<forall>r. ?c r \<le> ?c y)) \<longleftrightarrow> y = p)"
    by (simp only: distinct_eq_singleton [OF distinct_leaders] mem_leaders)
  also have "\<dots> \<longleftrightarrow> ?strict"
  proof
    assume h: "\<forall>y. (0 < ?c y \<and> (\<forall>r. ?c r \<le> ?c y)) \<longleftrightarrow> y = p"
    then have p: "0 < ?c p" and pmax: "\<forall>r. ?c r \<le> ?c p" by auto
    have "?c q < ?c p" if "q \<noteq> p" for q
    proof (rule ccontr)
      assume "\<not> ?c q < ?c p"
      with pmax have "?c q = ?c p" by (simp add: not_less le_antisym)
      with p pmax h that show False by metis
    qed
    with p show ?strict by blast
  next
    assume ?strict
    then show "\<forall>y. (0 < ?c y \<and> (\<forall>r. ?c r \<le> ?c y)) \<longleftrightarrow> y = p"
      by (metis less_imp_le_nat not_le order_refl)
  qed
  finally show ?thesis .
qed


subsection \<open>Casting votes\<close>

lemma castVote_Inr:
  "castVote vm v t = Inr vm' \<longleftrightarrow>
     v \<in> set (vm_playerIds vm) \<and> t \<in> set (vm_playerIds vm) \<and> v \<noteq> t \<and>
     v \<notin> set (map fst (vm_votes vm)) \<and> vm' = vm\<lparr>vm_votes := vm_votes vm @ [(v, t)]\<rparr>"
  by (auto simp: castVote_def update_append_new map_of_eq_None_iff image_iff)

lemma castVote_inv: "vm_inv vm \<Longrightarrow> castVote vm v t = Inr vm' \<Longrightarrow> vm_inv vm'"
  by (auto simp: castVote_Inr vm_inv_def)

lemma new_voting_manager_inv: "vm_inv (new_voting_manager ps imp)"
  by (simp add: vm_inv_def new_voting_manager_def)

lemma isComplete_vm_iff:
  assumes "vm_inv vm"
  shows "isComplete_vm vm \<longleftrightarrow> set (map fst (vm_votes vm)) = set (vm_playerIds vm)"
proof -
  let ?K = "set (map fst (vm_votes vm))" and ?P = "set (vm_playerIds vm)"
  from assms have dk: "distinct (map fst (vm_votes vm))" and dp: "distinct (vm_playerIds vm)"
    and sub: "?K \<subseteq> ?P"
    by (auto simp: vm_inv_def)
  have ck: "card ?K = length (vm_votes vm)" using distinct_card [OF dk] by simp
  have cp: "card ?P = length (vm_playerIds vm)" using distinct_card [OF dp] by simp
  show ?thesis
  proof
    assume "isComplete_vm vm"
    with ck cp have "card ?K = card ?P" by (simp add: isComplete_vm_def)
    with sub show "?K = ?P" by (simp add: card_subset_eq)
  next
    assume "?K = ?P"
    with ck cp show "isComplete_vm vm" by (simp add: isComplete_vm_def)
  qed
qed

lemma run_castVote_valid:
  assumes "distinct (map fst (vm_votes vm) @ map fst bs)"
    and "\<forall>(v, t) \<in> set bs. v \<in> set (vm_playerIds vm) \<and> t \<in> set (vm_playerIds vm) \<and> v \<noteq> t"
  shows "run_calls (\<lambda>vm (v, t). castVote vm v t) vm bs = Inr (vm\<lparr>vm_votes := vm_votes vm @ bs\<rparr>)"
  using assms
proof (induction bs arbitrary: vm)
  case Nil
  then show ?case by simp
next
  case (Cons b bs)
  obtain v t where b: "b = (v, t)" by (cases b)
  let ?vm1 = "vm\<lparr>vm_votes := vm_votes vm @ [(v, t)]\<rparr>"
  have step: "castVote vm v t = Inr ?vm1"
    using Cons.prems b by (simp add: castVote_Inr)
  have "run_calls (\<lambda>vm (v, t). castVote vm v t) ?vm1 bs = Inr (?vm1\<lparr>vm_votes := vm_votes ?vm1 @ bs\<rparr>)"
    by (rule Cons.IH) (use Cons.prems b in auto)
  with step b show ?case by simp
qed

lemma leaders_tie:
  "1 < length (leaders votes) \<longleftrightarrow>
     (\<exists>p q. p \<noteq> q \<and> 0 < vote_count votes p \<and> vote_count votes q = vote_count votes p \<and>
            (\<forall>r. vote_count votes r \<le> vote_count votes p))"
  (is "_ \<longleftrightarrow> ?shared")
proof -
  let ?c = "vote_count votes"
  have "1 < length (leaders votes) \<longleftrightarrow>
        (\<exists>p q. p \<in> set (leaders votes) \<and> q \<in> set (leaders votes) \<and> p \<noteq> q)"
    using length_gt_1_iff [of "leaders votes"] distinct_leaders [of votes] by simp
  also have "\<dots> \<longleftrightarrow> ?shared"
  proof
    assume "\<exists>p q. p \<in> set (leaders votes) \<and> q \<in> set (leaders votes) \<and> p \<noteq> q"
    then obtain p q where "0 < ?c p" "\<forall>r. ?c r \<le> ?c p" "\<forall>r. ?c r \<le> ?c q" "p \<noteq> q"
      unfolding mem_leaders by blast
    then have "p \<noteq> q \<and> 0 < ?c p \<and> ?c q = ?c p \<and> (\<forall>r. ?c r \<le> ?c p)"
      by (simp add: le_antisym)
    then show ?shared by blast
  next
    assume ?shared
    then obtain p q where "p \<noteq> q" "0 < ?c p" "?c q = ?c p" "\<forall>r. ?c r \<le> ?c p"
      by blast
    then have "p \<in> set (leaders votes) \<and> q \<in> set (leaders votes) \<and> p \<noteq> q"
      unfolding mem_leaders by simp
    then show "\<exists>p q. p \<in> set (leaders votes) \<and> q \<in> set (leaders votes) \<and> p \<noteq> q"
      by blast
  qed
  finally show ?thesis .
qed

subsection \<open>Properties of the vote collector\<close>

definition example_vm :: "(pid \<times> pid) list \<Rightarrow> voting_manager" where
  "example_vm votes = \<lparr>vm_playerIds = [''p1'', ''p2'', ''p3'', ''p4''], vm_imposterId = ''p2'',
                       vm_votes = votes\<rparr>"

text \<open>
  C1: on every well-formed collector, \<open>getResult\<close> computes the declarative plurality
  result: the votes as cast, the unique player with the most votes as the caught player
  (\<open>null\<close> if the most votes are shared, or if there are no votes), and a tie exactly when
  two or more players share the most votes.
\<close>

theorem getResult_refines_spec:
  assumes "vm_inv vm"
  shows "getResult vm = vote_result_spec (vm_votes vm)"
  using assms by (simp add: vm_inv_def getResult_eq_spec)

theorem getResult_refines_spec_witness:
  "vm_inv (example_vm [(''p1'', ''p2''), (''p3'', ''p2''), (''p2'', ''p1'')]) \<and>
   getResult (example_vm [(''p1'', ''p2''), (''p3'', ''p2''), (''p2'', ''p1'')]) =
   vote_result_spec [(''p1'', ''p2''), (''p3'', ''p2''), (''p2'', ''p1'')]"
proof -
  have i: "vm_inv (example_vm [(''p1'', ''p2''), (''p3'', ''p2''), (''p2'', ''p1'')])"
    by (simp add: vm_inv_def example_vm_def)
  show ?thesis
    using getResult_refines_spec [OF i] i by (simp add: example_vm_def)
qed

text \<open>
  C2: the caught player of a well-formed collector is \<open>p\<close> exactly when \<open>p\<close> received at
  least one vote and strictly more votes than every other player (and is not the
  empty, falsy, string).
\<close>

theorem getResult_caught_iff_strict_plurality:
  assumes "vm_inv vm"
  shows "vr_caughtPlayerId (getResult vm) = Some p \<longleftrightarrow>
           p \<noteq> [] \<and> 0 < vote_count (vm_votes vm) p \<and>
           (\<forall>q. q \<noteq> p \<longrightarrow> vote_count (vm_votes vm) q < vote_count (vm_votes vm) p)"
proof -
  have "vr_caughtPlayerId (getResult vm) = Some p \<longleftrightarrow> p \<noteq> [] \<and> leaders (vm_votes vm) = [p]"
    using assms by (auto simp: vm_inv_def getResult_eq_spec vote_result_spec_def
        split: list.splits if_splits)
  then show ?thesis by (simp only: leaders_single)
qed

theorem getResult_caught_iff_strict_plurality_witness:
  "vm_inv (example_vm [(''p1'', ''p2''), (''p3'', ''p2''), (''p2'', ''p1'')]) \<and>
   vr_caughtPlayerId (getResult (example_vm [(''p1'', ''p2''), (''p3'', ''p2''), (''p2'', ''p1'')])) = Some ''p2''"
proof -
  let ?vs = "[(''p1'', ''p2''), (''p3'', ''p2''), (''p2'', ''p1'')]"
  have i: "vm_inv (example_vm ?vs)"
    by (simp add: vm_inv_def example_vm_def)
  have c: "vote_count ?vs q < vote_count ?vs ''p2''" if "q \<noteq> ''p2''" for q
    using that by (simp add: vote_count_def)
  have "vr_caughtPlayerId (getResult (example_vm ?vs)) = Some ''p2''"
    using getResult_caught_iff_strict_plurality [OF i, of "''p2''"] c
    by (simp add: example_vm_def vote_count_def)
  with i show ?thesis by simp
qed

text \<open>
  C5: a well-formed collector reports a tie exactly when two different players share
  the largest positive number of votes.
\<close>

theorem getResult_tie_iff:
  assumes "vm_inv vm"
  shows "vr_isTie (getResult vm) \<longleftrightarrow>
     (\<exists>p q. p \<noteq> q \<and> 0 < vote_count (vm_votes vm) p \<and>
            vote_count (vm_votes vm) q = vote_count (vm_votes vm) p \<and>
            (\<forall>r. vote_count (vm_votes vm) r \<le> vote_count (vm_votes vm) p))"
  using assms leaders_tie [of "vm_votes vm"]
  by (simp add: vm_inv_def getResult_eq_spec vote_result_spec_def)

theorem getResult_tie_iff_witness:
  "vm_inv (example_vm [(''p1'', ''p2''), (''p2'', ''p1''), (''p3'', ''p2''), (''p4'', ''p1'')]) \<and>
   vr_isTie (getResult (example_vm [(''p1'', ''p2''), (''p2'', ''p1''), (''p3'', ''p2''), (''p4'', ''p1'')]))"
proof -
  let ?vs = "[(''p1'', ''p2''), (''p2'', ''p1''), (''p3'', ''p2''), (''p4'', ''p1'')]"
  have i: "vm_inv (example_vm ?vs)"
    by (simp add: vm_inv_def example_vm_def)
  have le: "vote_count ?vs r \<le> vote_count ?vs ''p1''" for r
    by (cases "r = ''p1''"; cases "r = ''p2''") (simp_all add: vote_count_def)
  have pos: "0 < vote_count ?vs ''p1''" and eq: "vote_count ?vs ''p2'' = vote_count ?vs ''p1''"
    by (simp_all add: vote_count_def)
  have ne: "''p1'' \<noteq> ''p2''" by simp
  have "\<exists>p q. p \<noteq> q \<and> 0 < vote_count ?vs p \<and> vote_count ?vs q = vote_count ?vs p \<and>
                   (\<forall>r. vote_count ?vs r \<le> vote_count ?vs p)"
    by (intro exI [where x = "''p1''"] exI [where x = "''p2''"] conjI allI)
      (use ne pos eq le in simp_all)
  then have "vr_isTie (getResult (example_vm ?vs))"
    using getResult_tie_iff [OF i] by (simp add: example_vm_def)
  with i show ?thesis by simp
qed

text \<open>
  Four players split two against two: the collector reports a tie and no caught
  player (the concrete case of the game rules).
\<close>

theorem two_two_split_is_tie:
  "getResult (example_vm [(''p1'', ''p2''), (''p2'', ''p1''), (''p3'', ''p2''), (''p4'', ''p1'')]) =
   \<lparr>vr_votes = [(''p1'', ''p2''), (''p2'', ''p1''), (''p3'', ''p2''), (''p4'', ''p1'')],
    vr_caughtPlayerId = None, vr_isTie = True\<rparr>"
  by (simp add: getResult_def example_vm_def tally_def max_step_def)

text \<open>
  C9: \<open>castVote\<close> accepts a vote exactly when voter and target are players, the voter is
  not the target and has not voted yet; an accepted vote appends exactly that entry to
  the vote map, a rejected one is an error and changes nothing.
\<close>

theorem castVote_accepts_iff:
  "castVote vm v t = Inr vm' \<longleftrightarrow>
     v \<in> set (vm_playerIds vm) \<and> t \<in> set (vm_playerIds vm) \<and> v \<noteq> t \<and>
     v \<notin> set (map fst (vm_votes vm)) \<and> vm' = vm\<lparr>vm_votes := vm_votes vm @ [(v, t)]\<rparr>"
  by (rule castVote_Inr)

text \<open>
  C10: \<open>castVote\<close> keeps a collector well formed: at most one vote per voter, voters and
  targets from the roster, no self-votes.
\<close>

theorem castVote_preserves_inv:
  assumes "vm_inv vm" and "castVote vm v t = Inr vm'"
  shows "vm_inv vm'"
  using assms by (rule castVote_inv)

theorem castVote_preserves_inv_witness:
  "vm_inv (example_vm []) \<and> castVote (example_vm []) ''p1'' ''p2'' = Inr (example_vm [(''p1'', ''p2'')]) \<and>
   vm_inv (example_vm [(''p1'', ''p2'')])"
proof -
  have i: "vm_inv (example_vm [])" by (simp add: vm_inv_def example_vm_def)
  have c: "castVote (example_vm []) ''p1'' ''p2'' = Inr (example_vm [(''p1'', ''p2'')])"
    by (simp add: castVote_def example_vm_def)
  show ?thesis using castVote_preserves_inv [OF i c] i c by simp
qed

text \<open>
  C11: on a roster of \<open>N\<close> distinct players, \<open>N\<close> valid votes, one from each player,
  are all accepted and make the collector complete.
\<close>

theorem all_valid_votes_complete:
  assumes "distinct ps" and "distinct (map fst bs)" and "set (map fst bs) = set ps"
    and "\<forall>(v, t) \<in> set bs. t \<in> set ps \<and> v \<noteq> t"
  shows "\<exists>vm'. run_calls (\<lambda>vm (v, t). castVote vm v t) (new_voting_manager ps imp) bs = Inr vm' \<and>
               isComplete_vm vm'"
proof -
  let ?vm = "new_voting_manager ps imp"
  let ?vm' = "?vm\<lparr>vm_votes := bs\<rparr>"
  have valid: "\<forall>(v, t) \<in> set bs. v \<in> set ps \<and> t \<in> set ps \<and> v \<noteq> t"
  proof (intro ballI, clarify)
    fix v t assume vt: "(v, t) \<in> set bs"
    then have "v \<in> set (map fst bs)" by force
    with vt assms(3,4) show "v \<in> set ps \<and> t \<in> set ps \<and> v \<noteq> t" by auto
  qed
  have run: "run_calls (\<lambda>vm (v, t). castVote vm v t) ?vm bs = Inr ?vm'"
    using run_castVote_valid [of ?vm bs] valid assms(2) by (simp add: new_voting_manager_def)
  have "vm_inv ?vm'"
    using assms(1,2) valid by (simp add: vm_inv_def new_voting_manager_def)
  then have "isComplete_vm ?vm'"
    using assms by (simp add: isComplete_vm_iff new_voting_manager_def)
  with run show ?thesis by blast
qed

theorem all_valid_votes_complete_witness:
  "\<exists>vm'. run_calls (\<lambda>vm (v, t). castVote vm v t) (new_voting_manager [''a'', ''b'', ''c''] ''a'')
           [(''a'', ''b''), (''b'', ''a''), (''c'', ''a'')] = Inr vm' \<and> isComplete_vm vm'"
  by (rule all_valid_votes_complete) auto

end
