(* ===== verification/SharedTypes.thy ===== *)
theory SharedTypes
  imports Player VotingManager Complex_Main
begin

text \<open>
  The data shared by server and client (\<open>src/shared/types.ts\<close>): the phases of a room,
  roles and role assignments, strokes, game settings with their defaults, the round
  result, the serialised game state, and the two message types of the protocol.
  \<open>PlayerData\<close> is the record \<open>player\<close> and \<open>VoteResult\<close> the record
  \<open>vote_result\<close> of the theories that produce them.  A JSON number is an \<open>int\<close> where
  the code uses it as a count and a \<open>real\<close> where it is a coordinate or a time; an
  optional field or a value that may be \<open>null\<close> or \<open>undefined\<close> is an \<open>option\<close>.
\<close>

datatype game_phase = LOBBY | ROLE_REVEAL | DRAWING | VOTING | IMPOSTER_GUESS | SCOREBOARD

datatype role = Artist | Imposter

record role_assignment =
  ra_playerId :: pid
  ra_role :: role
  ra_word :: "string option"

record point =
  pt_x :: real
  pt_y :: real

record stroke =
  st_playerId :: pid
  st_color :: string
  st_points :: "point list"
  st_brushSize :: real
  st_timestamp :: real

datatype canvas_mode = Shared | Individual

record game_settings =
  category :: string
  customWord :: "string option"
  drawTimeLimit :: int
  rounds :: int
  canvasMode :: canvas_mode
  winScore :: int

definition DEFAULT_SETTINGS :: game_settings where
  "DEFAULT_SETTINGS =
     \<lparr>category = ''random'', customWord = None, drawTimeLimit = 20, rounds = 2,
      canvasMode = Shared, winScore = 10\<rparr>"

text \<open>\<open>secretWord: string\<close> is declared non-null but filled with \<open>this.secretWord!\<close>,
  an assertion that checks nothing at run time: the field is an option.\<close>

record round_result =
  rr_scores :: "(pid \<times> int) list"
  rr_totalScores :: "(pid \<times> int) list"
  rr_imposterId :: pid
  rr_imposterCaught :: bool
  rr_imposterGuessCorrect :: "bool option"
  rr_secretWord :: "string option"

record game_state =
  gs_roomCode :: room_code
  gs_phase :: game_phase
  gs_players :: "player list"
  gs_settings :: game_settings
  gs_currentRound :: int
  gs_currentTurnIndex :: nat
  gs_turnOrder :: "pid list"
  gs_activePlayerId :: "pid option"
  gs_strokes :: "stroke list"

text \<open>
  Client to server.  The settings of \<open>START_GAME\<close> may be absent from the JSON
  (\<open>None\<close>); \<open>OTHER_MESSAGE\<close> is any message of another type, which the router ignores.
\<close>

datatype client_message =
    CREATE_GAME string
  | JOIN_GAME room_code string
  | PLAYER_READY
  | START_GAME "game_settings option"
  | SUBMIT_STROKE stroke
  | SUBMIT_VOTE pid
  | SUBMIT_GUESS string
  | NEXT_ROUND
  | REQUEST_TIMEOUT
  | CANCEL_TIMEOUT
  | PLAY_AGAIN
  | OTHER_MESSAGE

text \<open>Server to client.  \<open>TURN_START\<close> carries \<open>getCurrentPlayerId()\<close>, which may be
  \<open>undefined\<close>.\<close>

datatype server_message =
    GAME_CREATED room_code player
  | PLAYER_JOINED player "player list"
  | PLAYER_LEFT pid "player list"
  | PLAYER_READY_UPDATE pid bool "player list"
  | GAME_STARTING role "string option" "pid list" "player list" game_settings
  | TURN_START "pid option" int int
  | STROKE_BROADCAST stroke
  | TURN_TIMEOUT pid
  | VOTING_START "player list"
  | VOTE_CAST pid
  | VOTE_RESULT "(pid \<times> pid) list" "pid option" bool
  | IMPOSTER_GUESS_PHASE pid
  | ROUND_RESULT round_result
  | RETURN_TO_LOBBY "player list"
  | TIMEOUT_UPDATE "pid list"
  | ERROR string

definition MIN_PLAYERS :: nat where "MIN_PLAYERS = 3"

definition MAX_PLAYERS :: nat where "MAX_PLAYERS = 8"

definition ROLE_REVEAL_DURATION :: nat where "ROLE_REVEAL_DURATION = 5000"

end
