(* ===== verification/TurnManager.thy ===== *)
theory TurnManager
  imports Prelude Complex_Main
begin

text \<open>
  The turn sequencer (\<open>src/server/src/TurnManager.ts\<close>).  Its state is the record
  \<open>turn_manager\<close>: the shuffled turn order, the 1-based round counter, the index into
  the order and the number of rounds to play (a JSON number from the client's settings,
  hence \<open>int\<close>).  \<open>Math.random()\<close> is injected: \<open>rnd i\<close> is the value it returns in the
  Fisher--Yates iteration for index \<open>i\<close>, a real in \<open>[0, 1)\<close>.
  The lemmas show that the shuffle is a permutation, that \<open>advanceTurn\<close> keeps the
  index in range, what the state is after \<open>k\<close> advances, that the sequencer is complete
  exactly after \<open>n * R\<close> advances and that in these turns every player draws \<open>R\<close> times.
\<close>

record turn_manager =
  turnOrder :: "pid list"
  currentRound :: int
  turnIndex :: nat
  totalRounds :: int

text \<open>
  \<open>for (let i = shuffled.length - 1; i > 0; i--) { j = floor(random * (i + 1));
  [shuffled[i], shuffled[j]] = [shuffled[j], shuffled[i]] }\<close>: the right-hand side is
  read first, then \<open>shuffled[i]\<close> and \<open>shuffled[j]\<close> are written in this order.
  \<open>fy_loop rnd i xs\<close> runs the iterations for \<open>i, i - 1, \<dots>, 1\<close>.
\<close>

definition fy_index :: "(nat \<Rightarrow> real) \<Rightarrow> nat \<Rightarrow> nat" where
  "fy_index rnd i = nat \<lfloor>rnd i * real (i + 1)\<rfloor>"

fun fy_loop :: "(nat \<Rightarrow> real) \<Rightarrow> nat \<Rightarrow> 'a list \<Rightarrow> 'a list" where
  "fy_loop rnd 0 xs = xs"
| "fy_loop rnd (Suc i) xs =
     (let j = fy_index rnd (Suc i) in
      fy_loop rnd i (xs[Suc i := xs ! j, j := xs ! Suc i]))"

definition shuffle :: "(nat \<Rightarrow> real) \<Rightarrow> 'a list \<Rightarrow> 'a list" where
  "shuffle rnd xs = fy_loop rnd (length xs - 1) xs"

text \<open>\<open>constructor(playerIds, rounds)\<close>\<close>

definition new_turn_manager :: "(nat \<Rightarrow> real) \<Rightarrow> pid list \<Rightarrow> int \<Rightarrow> turn_manager" where
  "new_turn_manager rnd playerIds rounds =
     \<lparr>turnOrder = shuffle rnd playerIds, currentRound = 1, turnIndex = 0,
      totalRounds = rounds\<rparr>"

text \<open>\<open>getCurrentPlayerId\<close>: \<open>turnOrder[turnIndex]\<close>, \<open>undefined\<close> out of range.\<close>

definition getCurrentPlayerId :: "turn_manager \<Rightarrow> pid option" where
  "getCurrentPlayerId tm =
     (if turnIndex tm < length (turnOrder tm) then Some (turnOrder tm ! turnIndex tm) else None)"

definition advanceTurn :: "turn_manager \<Rightarrow> turn_manager" where
  "advanceTurn tm =
     (let i = turnIndex tm + 1 in
      if i \<ge> length (turnOrder tm) then tm\<lparr>turnIndex := 0, currentRound := currentRound tm + 1\<rparr>
      else tm\<lparr>turnIndex := i\<rparr>)"

definition isComplete :: "turn_manager \<Rightarrow> bool" where
  "isComplete tm \<longleftrightarrow> currentRound tm > totalRounds tm"

text \<open>The well-formedness of a sequencer: the index points into the order.\<close>

definition tm_inv :: "turn_manager \<Rightarrow> bool" where
  "tm_inv tm \<longleftrightarrow> turnIndex tm < length (turnOrder tm) \<or> (turnOrder tm = [] \<and> turnIndex tm = 0)"

subsection \<open>The shuffle is a permutation\<close>

lemma fy_index_le:
  assumes "0 \<le> rnd i" and "rnd i < 1"
  shows "fy_index rnd i \<le> i"
proof -
  have "rnd i * real (i + 1) < real (i + 1)"
    using assms by simp
  then have "\<lfloor>rnd i * real (i + 1)\<rfloor> < int (i + 1)"
    by (simp add: floor_less_iff)
  then show ?thesis
    by (simp add: fy_index_def)
qed

lemma mset_js_swap:
  assumes "i < length xs" and "j < length xs"
  shows "mset (xs[i := xs ! j, j := xs ! i]) = mset xs"
proof (cases "i = j")
  case True
  then show ?thesis by simp
next
  case False
  then have "xs[i := xs ! j, j := xs ! i] = xs[j := xs ! i, i := xs ! j]"
    by (rule list_update_swap)
  with assms show ?thesis by (simp only: mset_swap)
qed

lemma mset_fy_loop:
  "(\<forall>k. 0 \<le> rnd k \<and> rnd k < 1) \<Longrightarrow> i < length xs \<Longrightarrow> mset (fy_loop rnd i xs) = mset xs"
proof (induction rnd i xs rule: fy_loop.induct)
  case (1 rnd xs)
  then show ?case by simp
next
  case (2 rnd i xs)
  let ?j = "fy_index rnd (Suc i)"
  have "?j \<le> Suc i"
    using "2.prems"(1) by (simp add: fy_index_le)
  with "2.prems"(2) have "mset (xs[Suc i := xs ! ?j, ?j := xs ! Suc i]) = mset xs"
    by (simp add: mset_js_swap)
  with "2.IH" "2.prems" show ?case
    by (simp add: Let_def)
qed

lemma length_fy_loop [simp]: "length (fy_loop rnd i xs) = length xs"
  by (induction rnd i xs rule: fy_loop.induct) (simp_all add: Let_def)

lemma length_shuffle [simp]: "length (shuffle rnd xs) = length xs"
  by (simp add: shuffle_def)

lemma shuffle_eq_Nil_iff [simp]: "shuffle rnd xs = [] \<longleftrightarrow> xs = []"
  by (metis length_shuffle length_0_conv)

lemma mset_shuffle:
  "(\<forall>k. 0 \<le> rnd k \<and> rnd k < 1) \<Longrightarrow> mset (shuffle rnd xs) = mset xs"
  by (cases xs) (simp_all add: shuffle_def mset_fy_loop)

subsection \<open>Advancing turns\<close>

lemma tm_inv_advanceTurn: "tm_inv tm \<Longrightarrow> tm_inv (advanceTurn tm)"
  by (auto simp: tm_inv_def advanceTurn_def Let_def)

lemma advanceTurn_order [simp]: "turnOrder (advanceTurn tm) = turnOrder tm"
  by (simp add: advanceTurn_def Let_def)

lemma advanceTurn_total [simp]: "totalRounds (advanceTurn tm) = totalRounds tm"
  by (simp add: advanceTurn_def Let_def)

lemma advanceTurn_index:
  "turnIndex (advanceTurn tm) =
     (if length (turnOrder tm) \<le> Suc (turnIndex tm) then 0 else Suc (turnIndex tm))"
  by (simp add: advanceTurn_def Let_def)

lemma advanceTurn_round:
  "currentRound (advanceTurn tm) =
     (if length (turnOrder tm) \<le> Suc (turnIndex tm) then currentRound tm + 1 else currentRound tm)"
  by (simp add: advanceTurn_def Let_def)

lemma turnOrder_funpow [simp]: "turnOrder ((advanceTurn ^^ k) tm) = turnOrder tm"
  by (induction k) simp_all

lemma totalRounds_funpow [simp]: "totalRounds ((advanceTurn ^^ k) tm) = totalRounds tm"
  by (induction k) simp_all

text \<open>After \<open>k\<close> advances from index \<open>i\<close> the index is \<open>(i + k) mod n\<close>, and the round
  counter has grown by the number of wrap-arounds.\<close>

lemma advanceTurn_funpow:
  assumes "length (turnOrder tm) = n" and "0 < n" and "turnIndex tm < n"
  shows "turnIndex ((advanceTurn ^^ k) tm) = (turnIndex tm + k) mod n \<and>
         currentRound ((advanceTurn ^^ k) tm) = currentRound tm + int ((turnIndex tm + k) div n)"
proof (induction k)
  case 0
  then show ?case using assms by simp
next
  case (Suc k)
  let ?m = "turnIndex tm + k"
  show ?case
  proof (cases "Suc (?m mod n) = n")
    case True
    with Suc assms show ?thesis
      by (simp add: advanceTurn_index advanceTurn_round mod_Suc div_Suc)
  next
    case False
    have "?m mod n < n" using assms by simp
    with False have "Suc (?m mod n) < n" by simp
    with Suc assms show ?thesis
      by (simp add: advanceTurn_index advanceTurn_round mod_Suc div_Suc)
  qed
qed

lemma new_turn_manager_inv: "tm_inv (new_turn_manager rnd ps r)"
  by (cases ps) (auto simp: tm_inv_def new_turn_manager_def shuffle_def length_fy_loop)

lemma funpow_from_start:
  assumes "turnIndex tm = 0" and "length (turnOrder tm) = n" and "0 < n"
  shows "turnIndex ((advanceTurn ^^ k) tm) = k mod n \<and>
         currentRound ((advanceTurn ^^ k) tm) = currentRound tm + int (k div n)"
  using advanceTurn_funpow [of tm n k] assms by simp

lemma map_nth_mod_upt:
  "map (\<lambda>k. xs ! (k mod length xs)) [0..<length xs * r] = concat (replicate r xs)"
proof (induction r)
  case 0
  then show ?case by simp
next
  case (Suc r)
  let ?n = "length xs"
  have "[0..<?n * r + ?n] = [0..<?n * r] @ [?n * r..<?n * r + ?n]"
    by (rule upt_add_eq_append) simp
  then have split: "[0..<?n * Suc r] = [0..<?n * r] @ [?n * r..<?n * r + ?n]"
    by (simp add: add.commute)
  have "map (\<lambda>k. xs ! (k mod ?n)) [?n * r..<?n * r + ?n] = xs"
    by (rule nth_equalityI) simp_all
  then have "map (\<lambda>k. xs ! (k mod ?n)) [0..<?n * Suc r] = concat (replicate r xs) @ xs"
    using Suc.IH split by simp
  also have "\<dots> = concat (replicate r xs @ [xs])"
    by simp
  also have "\<dots> = concat (replicate (Suc r) xs)"
    by (simp only: replicate_append_same replicate_Suc)
  finally show ?case .
qed

lemma isComplete_funpow_start:
  assumes "turnIndex tm = 0" and "currentRound tm = 1" and "totalRounds tm = int r"
    and "turnOrder tm \<noteq> []"
  shows "isComplete ((advanceTurn ^^ k) tm) \<longleftrightarrow> length (turnOrder tm) * r \<le> k"
proof -
  let ?n = "length (turnOrder tm)"
  have n: "0 < ?n" using assms(4) by simp
  have "currentRound ((advanceTurn ^^ k) tm) = 1 + int (k div ?n)"
    using funpow_from_start [of tm ?n k] assms n by simp
  then have "isComplete ((advanceTurn ^^ k) tm) \<longleftrightarrow> int r < 1 + int (k div ?n)"
    using assms(3) by (simp add: isComplete_def)
  also have "\<dots> \<longleftrightarrow> r \<le> k div ?n"
    by arith
  also have "\<dots> \<longleftrightarrow> ?n * r \<le> k"
    using n by (simp add: less_eq_div_iff_mult_less_eq mult.commute)
  finally show ?thesis .
qed

lemma current_funpow_start:
  assumes "turnIndex tm = 0" and "turnOrder tm \<noteq> []"
  shows "getCurrentPlayerId ((advanceTurn ^^ k) tm) =
           Some (turnOrder tm ! (k mod length (turnOrder tm)))"
  using funpow_from_start [of tm "length (turnOrder tm)" k] assms
  by (simp add: getCurrentPlayerId_def)

lemma nth_concat_replicate:
  assumes "k < length xs * r"
  shows "concat (replicate r xs) ! k = xs ! (k mod length xs)"
proof -
  have "concat (replicate r xs) ! k = map (\<lambda>k. xs ! (k mod length xs)) [0..<length xs * r] ! k"
    by (simp only: map_nth_mod_upt)
  also have "\<dots> = xs ! (k mod length xs)"
    using assms by simp
  finally show ?thesis .
qed

subsection \<open>Properties of the turn sequencer\<close>

text \<open>
  C7: the turn order of a new sequencer is a permutation of the roster, whatever the
  random source returns in \<open>[0, 1)\<close>: sorting both gives the same list
  (\<open>sort(permutation) == sort(roster)\<close>).
\<close>

theorem turn_order_permutation:
  assumes "\<forall>k. 0 \<le> rnd k \<and> rnd k < 1"
  shows "sort (turnOrder (new_turn_manager rnd playerIds rounds)) = sort playerIds"
proof -
  have "mset (turnOrder (new_turn_manager rnd playerIds rounds)) = mset playerIds"
    using assms by (simp add: new_turn_manager_def mset_shuffle)
  then show ?thesis
    by (metis sorted_list_of_multiset_mset)
qed

theorem turn_order_permutation_witness:
  "(\<forall>k. 0 \<le> (\<lambda>_. 1 / 2 :: real) k \<and> (\<lambda>_. 1 / 2 :: real) k < 1) \<and>
   sort (turnOrder (new_turn_manager (\<lambda>_. 1 / 2) [''p3'', ''p1'', ''p2''] 2)) = [''p1'', ''p2'', ''p3'']"
  using turn_order_permutation [of "\<lambda>_. 1 / 2" "[''p3'', ''p1'', ''p2'']" 2] by simp

text \<open>
  C3: with \<open>N > 0\<close> players and \<open>R \<ge> 0\<close> rounds, a new sequencer is complete after
  \<open>k\<close> calls of \<open>advanceTurn\<close> exactly when \<open>k \<ge> N * R\<close>: it is not complete before
  \<open>N * R\<close> advances and is complete from then on.
\<close>

theorem complete_iff_enough_turns:
  assumes "playerIds \<noteq> []"
  shows "isComplete ((advanceTurn ^^ k) (new_turn_manager rnd playerIds (int r))) \<longleftrightarrow>
         length playerIds * r \<le> k"
  using isComplete_funpow_start [of "new_turn_manager rnd playerIds (int r)" r k] assms
  by (simp add: new_turn_manager_def)

theorem complete_iff_enough_turns_witness:
  "[''a'', ''b'', ''c''] \<noteq> [] \<and>
   \<not> isComplete ((advanceTurn ^^ 5) (new_turn_manager (\<lambda>_. 0) [''a'', ''b'', ''c''] (int 2))) \<and>
   isComplete ((advanceTurn ^^ 6) (new_turn_manager (\<lambda>_. 0) [''a'', ''b'', ''c''] (int 2)))"
  using complete_iff_enough_turns [of "[''a'', ''b'', ''c'']" 5 "\<lambda>_. 0" 2]
    complete_iff_enough_turns [of "[''a'', ''b'', ''c'']" 6 "\<lambda>_. 0" 2]
  by simp

text \<open>
  C8: in the \<open>N * R\<close> turns of a game round the active players are the turn order
  repeated \<open>R\<close> times: the same permutation is reused every round, and \<open>getCurrentPlayerId\<close>
  never reads out of range.
\<close>

theorem turns_follow_order:
  assumes "playerIds \<noteq> []"
  shows "map (\<lambda>k. getCurrentPlayerId ((advanceTurn ^^ k) (new_turn_manager rnd playerIds rounds)))
             [0..<length playerIds * r] =
         map Some (concat (replicate r (turnOrder (new_turn_manager rnd playerIds rounds))))"
proof -
  let ?tm = "new_turn_manager rnd playerIds rounds"
  let ?xs = "turnOrder ?tm"
  have len: "length ?xs = length playerIds"
    by (simp add: new_turn_manager_def)
  have start: "turnIndex ?tm = 0" and ne: "?xs \<noteq> []"
    using assms by (simp_all add: new_turn_manager_def)
  show ?thesis
  proof (rule nth_equalityI)
    show "length (map (\<lambda>k. getCurrentPlayerId ((advanceTurn ^^ k) ?tm)) [0..<length playerIds * r]) =
          length (map Some (concat (replicate r ?xs)))"
      by (simp add: len length_concat sum_list_replicate mult.commute)
    fix k assume "k < length (map (\<lambda>k. getCurrentPlayerId ((advanceTurn ^^ k) ?tm)) [0..<length playerIds * r])"
    then have k: "k < length ?xs * r" by (simp add: len)
    show "map (\<lambda>k. getCurrentPlayerId ((advanceTurn ^^ k) ?tm)) [0..<length playerIds * r] ! k =
          map Some (concat (replicate r ?xs)) ! k"
      using k current_funpow_start [OF start ne, of k] nth_concat_replicate [OF k]
      by (simp add: len length_concat sum_list_replicate mult.commute)
  qed
qed

theorem turns_follow_order_witness:
  "[''a'', ''b''] \<noteq> [] \<and>
   map (\<lambda>k. getCurrentPlayerId ((advanceTurn ^^ k) (new_turn_manager (\<lambda>_. 0) [''a'', ''b''] 2)))
       [0..<length [''a'', ''b''] * 2] =
   map Some (concat (replicate 2 (turnOrder (new_turn_manager (\<lambda>_. 0) [''a'', ''b''] 2))))"
  using turns_follow_order [of "[''a'', ''b'']" "\<lambda>_. 0" 2 2] by simp

end
