(* ===== verification/ScoringEngine.thy ===== *)
theory ScoringEngine
  imports Prelude
begin

text \<open>
  The scoring engine (\<open>src/server/src/ScoringEngine.ts\<close>): a pure function from the
  finished vote and the imposter's guess to the points of the round.  Its input is the
  \<open>ScoreInput\<close> interface, its output a \<open>Record<string, number>\<close>, modelled as an
  association list in the order in which the keys were first written.  The lemmas show
  that the output is a map on exactly the artists and the imposter, and that its values
  are those of the three mutually exclusive regimes of the game rules
  (\<open>score_spec\<close>).
\<close>

record score_input =
  si_votes :: "(pid \<times> pid) list"
  si_imposterId :: pid
  si_artistIds :: "pid list"
  si_imposterCaught :: bool
  si_imposterGuessCorrect :: "bool option"

text \<open>\<open>artistIds.forEach(id => scores[id] = 0); scores[imposterId] = 0\<close>\<close>

definition init_scores :: "score_input \<Rightarrow> (pid \<times> int) list" where
  "init_scores inp =
     AList.update (si_imposterId inp) 0
       (foldl (\<lambda>m k. AList.update k 0 m) [] (si_artistIds inp))"

text \<open>
  \<open>ScoringEngine.calculate\<close>.  \<open>votes[artistId] === imposterId\<close> is false for an
  artist without a vote (\<open>undefined\<close>), which is \<open>map_of\<close> returning \<open>None\<close>.
\<close>

definition calculate :: "score_input \<Rightarrow> (pid \<times> int) list" where
  "calculate inp =
     (let scores = init_scores inp; imp = si_imposterId inp in
      if \<not> si_imposterCaught inp then js_add_to imp 2 scores
      else if si_imposterGuessCorrect inp = Some True then js_add_to imp 1 scores
      else foldl (\<lambda>s a. if map_of (si_votes inp) a = Some imp then js_add_to a 1 s else s)
             scores (si_artistIds inp))"

text \<open>
  The rules of the game as a declarative table: the points of player \<open>k\<close>.  An artist
  listed twice in \<open>artistIds\<close> is credited twice by the loop, hence \<open>count_list\<close>.
\<close>

definition score_spec :: "score_input \<Rightarrow> pid \<Rightarrow> int" where
  "score_spec inp k =
     (let imp = si_imposterId inp in
      if \<not> si_imposterCaught inp then (if k = imp then 2 else 0)
      else if si_imposterGuessCorrect inp = Some True then (if k = imp then 1 else 0)
      else if k \<noteq> imp \<and> map_of (si_votes inp) k = Some imp
        then int (count_list (si_artistIds inp) k) else 0)"

subsection \<open>Lemmas on the scoring loops\<close>

lemma keys_init_scores:
  "fst ` set (init_scores inp) = insert (si_imposterId inp) (set (si_artistIds inp))"
  by (simp add: init_scores_def alist_simps)

lemma map_of_init_scores:
  "map_of (init_scores inp) k =
     (if k \<in> insert (si_imposterId inp) (set (si_artistIds inp)) then Some 0 else None)"
  by (simp add: init_scores_def update_conv' alist_simps)

lemma distinct_init_scores: "distinct (map fst (init_scores inp))"
  by (simp add: init_scores_def distinct_update alist_simps)

lemma credit_loop_keys:
  "fst ` set (foldl (\<lambda>s a. if P a then js_add_to a 1 s else s) s0 as) = fst ` set s0"
  by (induction as arbitrary: s0) (auto simp: alist_simps)

lemma credit_loop_distinct:
  "distinct (map fst s0) \<Longrightarrow>
   distinct (map fst (foldl (\<lambda>s a. if P a then js_add_to a 1 s else s) s0 as))"
  by (induction as arbitrary: s0) (auto simp: alist_simps)

lemma credit_loop_map_of:
  "map_of (foldl (\<lambda>s a. if P a then js_add_to a 1 s else s) s0 as) k =
   map_option (\<lambda>v. v + (if P k then int (count_list as k) else 0)) (map_of s0 k)"
proof (induction as arbitrary: s0)
  case Nil
  then show ?case by (simp add: option.map_ident)
next
  case (Cons a as)
  then show ?case
    by (cases "map_of s0 k") (auto simp: alist_simps)
qed

lemma keys_calculate:
  "fst ` set (calculate inp) = insert (si_imposterId inp) (set (si_artistIds inp))"
  by (simp add: calculate_def Let_def keys_init_scores credit_loop_keys alist_simps)

lemma map_of_calculate:
  assumes "si_imposterId inp \<notin> set (si_artistIds inp)"
  shows "map_of (calculate inp) k =
     (if k \<in> insert (si_imposterId inp) (set (si_artistIds inp))
      then Some (score_spec inp k) else None)"
  using assms
  by (auto simp: calculate_def score_spec_def Let_def map_of_init_scores
      credit_loop_map_of alist_simps count_list_0_iff)

lemma distinct_calculate: "distinct (map fst (calculate inp))"
  using distinct_init_scores [of inp]
  by (simp add: calculate_def Let_def credit_loop_distinct alist_simps)

subsection \<open>Properties of the scoring engine\<close>

definition example_input :: "bool \<Rightarrow> bool option \<Rightarrow> score_input" where
  "example_input caught guess =
     \<lparr>si_votes = [(''p1'', ''p2''), (''p3'', ''p4''), (''p4'', ''p2'')], si_imposterId = ''p2'',
      si_artistIds = [''p1'', ''p3'', ''p4''], si_imposterCaught = caught,
      si_imposterGuessCorrect = guess\<rparr>"

text \<open>
  C4: when the imposter is not among the artists, the points \<open>calculate\<close> gives each
  player are those of the rules: not caught, imposter 2 and everyone else 0; caught
  with a correct guess, imposter 1 and everyone else 0; caught otherwise, imposter 0,
  each artist who voted for the imposter 1 (per listing) and everyone else 0.  No
  other key is written.
\<close>

theorem calculate_refines_rules:
  assumes "si_imposterId inp \<notin> set (si_artistIds inp)"
  shows "map_of (calculate inp) =
           (\<lambda>k. if k \<in> insert (si_imposterId inp) (set (si_artistIds inp))
                then Some (score_spec inp k) else None)"
  using map_of_calculate [OF assms] by (rule ext)

theorem calculate_refines_rules_witness:
  "si_imposterId (example_input True (Some False)) \<notin> set (si_artistIds (example_input True (Some False))) \<and>
   map_of (calculate (example_input True (Some False))) ''p4'' = Some 1"
proof -
  have h: "si_imposterId (example_input True (Some False)) \<notin> set (si_artistIds (example_input True (Some False)))"
    by (simp add: example_input_def)
  have "map_of (calculate (example_input True (Some False))) ''p4'' = Some 1"
    using calculate_refines_rules [OF h] by (simp add: example_input_def score_spec_def)
  with h show ?thesis by simp
qed

text \<open>
  Every artist and the imposter appear in the score map, each once, whatever the
  votes and the outcome; no other player does.
\<close>

theorem calculate_keys:
  "fst ` set (calculate inp) = insert (si_imposterId inp) (set (si_artistIds inp)) \<and>
   distinct (map fst (calculate inp))"
proof
  show "fst ` set (calculate inp) = insert (si_imposterId inp) (set (si_artistIds inp))"
    by (rule keys_calculate)
  show "distinct (map fst (calculate inp))"
    by (rule distinct_calculate)
qed

text \<open>
  The three concrete cases of the rules, with imposter p2 and artists p1, p3, p4:
  not caught gives p2 two points; caught with a correct guess gives p2 one point; caught
  with a wrong guess and votes p1 \<open>\<rightarrow>\<close> p2, p3 \<open>\<rightarrow>\<close> p4, p4 \<open>\<rightarrow>\<close> p2 gives p1 and p4
  one point each.
\<close>

theorem calculate_examples:
  "calculate (example_input False None) = [(''p1'', 0), (''p3'', 0), (''p4'', 0), (''p2'', 2)] \<and>
   calculate (example_input True (Some True)) = [(''p1'', 0), (''p3'', 0), (''p4'', 0), (''p2'', 1)] \<and>
   calculate (example_input True (Some False)) = [(''p1'', 1), (''p3'', 0), (''p4'', 1), (''p2'', 0)]"
  by (simp add: calculate_def init_scores_def example_input_def js_add_to_def)

end
