(* ===== verification/WordBank.thy ===== *)
theory WordBank
  imports Prelude Complex_Main
begin

text \<open>
  The word supplier (\<open>src/server/src/WordBank.ts\<close>): a \<open>Map\<close> from category names to
  word lists, filled by the constructor with thirteen fixed categories, translated list
  by list below.  \<open>getRandomWord\<close> reads \<open>Math.random()\<close> as its argument \<open>r\<close>; an
  unknown category is the error \<open>CategoryNotFound\<close>, and an index past the list (only
  possible for an empty list) is \<open>undefined\<close>, the value \<open>None\<close>.
  The lemmas show that every built-in category is non-empty and holds no empty word, so
  that for a known category and \<open>r\<close> in \<open>[0, 1)\<close> the secret word is always a
  non-empty string.
\<close>

record word_bank =
  categories :: "(string \<times> string list) list"

text \<open>Category \<open>animals\<close>.\<close>

definition words_animals :: "string list" where
  "words_animals = [''dog'', ''cat'', ''elephant'', ''lion'', ''tiger'', ''bear'', ''monkey'',
    ''giraffe'', ''zebra'', ''penguin'', ''dolphin'', ''whale'', ''shark'', ''eagle'',
    ''parrot'', ''rabbit'', ''horse'', ''cow'', ''pig'', ''sheep'', ''goat'', ''deer'',
    ''wolf'', ''fox'', ''owl'', ''frog'', ''snake'', ''turtle'', ''octopus'',
    ''jellyfish'', ''butterfly'', ''bee'', ''ant'', ''spider'', ''crab'', ''lobster'',
    ''kangaroo'', ''koala'', ''panda'', ''hippo'', ''rhino'', ''crocodile'',
    ''flamingo'', ''peacock'', ''hamster'', ''squirrel'', ''bat'', ''seal'', ''otter'',
    ''chameleon'', ''mouse'', ''rat'', ''beaver'', ''raccoon'', ''chipmunk'',
    ''hedgehog'', ''skunk'', ''moose'', ''reindeer'', ''camel'', ''llama'', ''alpaca'',
    ''donkey'', ''mule'', ''buffalo'', ''yak'', ''gorilla'', ''chimpanzee'',
    ''orangutan'', ''lemur'', ''sloth'', ''armadillo'', ''porcupine'', ''anteater'',
    ''platypus'', ''wombat'', ''dodo'', ''ostrich'', ''emu'', ''pelican'', ''toucan'',
    ''hummingbird'', ''swan'', ''duck'', ''goose'', ''chicken'', ''rooster'', ''turkey'',
    ''quail'', ''pigeon'', ''seagull'', ''raven'', ''crow'', ''woodpecker'', ''stork'',
    ''vulture'', ''hawk'']"

text \<open>Category \<open>food\<close>.\<close>

definition words_food :: "string list" where
  "words_food = [''pizza'', ''burger'', ''pasta'', ''sushi'', ''salad'', ''steak'', ''chicken'',
    ''rice'', ''bread'', ''cheese'', ''apple'', ''banana'', ''orange'', ''grape'',
    ''strawberry'', ''watermelon'', ''pineapple'', ''mango'', ''avocado'', ''tomato'',
    ''potato'', ''carrot'', ''broccoli'', ''corn'', ''mushroom'', ''onion'', ''garlic'',
    ''chocolate'', ''ice cream'', ''cake'', ''cookie'', ''donut'', ''pancake'',
    ''waffle'', ''taco'', ''burrito'', ''sandwich'', ''soup'', ''noodles'', ''dumpling'',
    ''popcorn'', ''pretzel'', ''hot dog'', ''french fries'', ''egg'', ''bacon'',
    ''lobster'', ''shrimp'', ''salmon'', ''coconut'', ''bagel'', ''croissant'',
    ''muffin'', ''cupcake'', ''brownie'', ''pie'', ''churro'', ''pear'', ''peach'',
    ''plum'', ''cherry'', ''blueberry'', ''raspberry'', ''kiwi'', ''lemon'', ''lime'',
    ''grapefruit'', ''papaya'', ''melon'', ''dragonfruit'', ''burrito bowl'',
    ''quesadilla'', ''nachos'', ''chips'', ''salsa'', ''guacamole'', ''ramen'', ''pho'',
    ''dim sum'', ''spring roll'', ''tempura'', ''bento box'', ''lasagna'', ''ravioli'',
    ''spaghetti'', ''macaroni'', ''gnocchi'', ''risotto'', ''kebab'', ''falafel'',
    ''hummus'', ''pita'', ''tzatziki'', ''gyro'', ''milkshake'', ''smoothie'', ''latte'',
    ''cappuccino'', ''espresso'', ''tea'']"

text \<open>Category \<open>objects\<close>.\<close>

definition words_objects :: "string list" where
  "words_objects = [''table'', ''chair'', ''lamp'', ''phone'', ''computer'', ''book'', ''pen'',
    ''clock'', ''mirror'', ''bottle'', ''key'', ''wallet'', ''camera'', ''guitar'',
    ''bicycle'', ''umbrella'', ''glasses'', ''hat'', ''shoe'', ''backpack'', ''pillow'',
    ''blanket'', ''candle'', ''scissors'', ''hammer'', ''ladder'', ''broom'', ''bucket'',
    ''rope'', ''balloon'', ''envelope'', ''newspaper'', ''map'', ''compass'',
    ''telescope'', ''microscope'', ''trophy'', ''crown'', ''sword'', ''shield'',
    ''drum'', ''violin'', ''piano'', ''headphones'', ''microphone'', ''remote control'',
    ''toothbrush'', ''doorbell'', ''lightbulb'', ''battery'', ''magnet'', ''sofa'',
    ''bed'', ''desk'', ''shelf'', ''drawer'', ''cabinet'', ''wardrobe'', ''painting'',
    ''frame'', ''vase'', ''plant pot'', ''rug'', ''curtain'', ''fan'', ''heater'',
    ''air conditioner'', ''vacuum'', ''iron'', ''washing machine'', ''refrigerator'',
    ''oven'', ''toaster'', ''blender'', ''kettle'', ''teapot'', ''calculator'',
    ''stapler'', ''tape'', ''ruler'', ''notebook'', ''pencil'', ''eraser'',
    ''sharpener'', ''suitcase'', ''briefcase'', ''purse'', ''toolbox'', ''drill'',
    ''saw'', ''wrench'', ''screwdriver'', ''pliers'', ''axe'', ''shovel'', ''rake'',
    ''hose'', ''sprinkler'', ''wheelbarrow'', ''lawnmower'']"

text \<open>Category \<open>places\<close>.\<close>

definition words_places :: "string list" where
  "words_places = [''beach'', ''mountain'', ''forest'', ''city'', ''park'', ''library'', ''museum'',
    ''restaurant'', ''hospital'', ''school'', ''airport'', ''stadium'', ''theater'',
    ''mall'', ''zoo'', ''castle'', ''church'', ''farm'', ''island'', ''volcano'',
    ''desert'', ''jungle'', ''cave'', ''waterfall'', ''bridge'', ''lighthouse'',
    ''prison'', ''palace'', ''temple'', ''pyramid'', ''train station'', ''subway'',
    ''harbor'', ''playground'', ''gym'', ''cinema'', ''bakery'', ''garage'', ''garden'',
    ''rooftop'', ''basement'', ''attic'', ''balcony'', ''fountain'', ''cemetery'',
    ''skyscraper'', ''igloo'', ''treehouse'', ''carnival'', ''aquarium'', ''bank'',
    ''post office'', ''supermarket'', ''gas station'', ''hotel'', ''motel'', ''cafe'',
    ''diner'', ''bar'', ''nightclub'', ''casino'', ''arcade'', ''bowling alley'',
    ''ice rink'', ''swimming pool'', ''spa'', ''salon'', ''factory'', ''warehouse'',
    ''dock'', ''pier'', ''marina'', ''shipyard'', ''observatory'', ''planetarium'',
    ''laboratory'', ''greenhouse'', ''nursery'', ''ranch'', ''vineyard'', ''orchard'',
    ''windmill'', ''dam'', ''power plant'', ''laundromat'', ''dry cleaner'',
    ''pawn shop'', ''pharmacy'', ''bookstore'']"

text \<open>Category \<open>actions\<close>.\<close>

definition words_actions :: "string list" where
  "words_actions = [''run'', ''jump'', ''swim'', ''fly'', ''dance'', ''sing'', ''read'', ''write'',
    ''cook'', ''sleep'', ''drive'', ''climb'', ''paint'', ''talk'', ''laugh'', ''cry'',
    ''sneeze'', ''yawn'', ''whistle'', ''clap'', ''wave'', ''hug'', ''kick'', ''throw'',
    ''catch'', ''dig'', ''pour'', ''stir'', ''chop'', ''knit'', ''sew'', ''juggle'',
    ''surf'', ''ski'', ''skateboard'', ''fish'', ''hunt'', ''camp'', ''hike'',
    ''meditate'', ''stretch'', ''lift'', ''push'', ''pull'', ''blow'', ''wink'', ''bow'',
    ''salute'', ''roll'', ''spin'', ''cartwheel'', ''backflip'', ''handstand'',
    ''tiptoe'', ''crawl'', ''hop'', ''skip'', ''march'', ''strut'', ''stumble'',
    ''trip'', ''slide'', ''lean'', ''bend'', ''squat'', ''kneel'', ''crouch'', ''dunk'',
    ''shoot'', ''tackle'', ''block'', ''dodge'', ''punch'', ''slap'', ''tickle'',
    ''poke'', ''pinch'', ''scratch'', ''shrug'', ''nod'', ''shake head'', ''point'',
    ''snap fingers'', ''high five'', ''fist bump'', ''thumbs up'', ''peace sign'',
    ''rock on'', ''eat'', ''drink'', ''bite'', ''chew'', ''sip'', ''gulp'', ''lick'',
    ''taste'']"

text \<open>Category \<open>vehicles\<close>.\<close>

definition words_vehicles :: "string list" where
  "words_vehicles = [''car'', ''bus'', ''train'', ''airplane'', ''helicopter'', ''motorcycle'',
    ''bicycle'', ''boat'', ''ship'', ''submarine'', ''rocket'', ''hot air balloon'',
    ''skateboard'', ''scooter'', ''ambulance'', ''fire truck'', ''police car'', ''taxi'',
    ''tractor'', ''bulldozer'', ''crane'', ''forklift'', ''jet ski'', ''canoe'',
    ''sailboat'', ''gondola'', ''cable car'', ''sled'', ''unicycle'', ''tank'',
    ''spaceship'', ''hovercraft'', ''segway'', ''rickshaw'', ''chariot'', ''limousine'',
    ''convertible'', ''pickup truck'', ''van'', ''minivan'', ''suv'', ''monster truck'',
    ''race car'', ''go-kart'', ''dune buggy'', ''snowmobile'', ''yacht'',
    ''cruise ship'', ''ferry'', ''speedboat'', ''rowboat'', ''kayak'', ''raft'',
    ''houseboat'', ''tugboat'', ''battleship'', ''aircraft carrier'', ''blimp'',
    ''glider'', ''hang glider'', ''parachute'', ''fighter jet'', ''drone'', ''trolley'',
    ''monorail'', ''steam train'', ''bullet train'', ''tram'', ''dump truck'',
    ''cement mixer'', ''excavator'', ''backhoe'', ''steamroller'', ''golf cart'',
    ''shopping cart'', ''wheelchair'', ''stroller'', ''wagon'']"

text \<open>Category \<open>professions\<close>.\<close>

definition words_professions :: "string list" where
  "words_professions = [''doctor'', ''teacher'', ''firefighter'', ''police officer'', ''chef'', ''pilot'',
    ''astronaut'', ''farmer'', ''painter'', ''musician'', ''dancer'', ''athlete'',
    ''photographer'', ''dentist'', ''nurse'', ''veterinarian'', ''mechanic'',
    ''electrician'', ''plumber'', ''carpenter'', ''architect'', ''scientist'', ''judge'',
    ''detective'', ''magician'', ''clown'', ''pirate'', ''knight'', ''ninja'',
    ''samurai'', ''cowboy'', ''lifeguard'', ''barber'', ''baker'', ''butcher'',
    ''waiter'', ''DJ'', ''surgeon'', ''librarian'', ''mailman'', ''delivery driver'',
    ''taxi driver'', ''truck driver'', ''sailor'', ''captain'', ''soldier'', ''general'',
    ''spy'', ''superhero'', ''reporter'', ''anchor'', ''weatherman'', ''actor'',
    ''director'', ''producer'', ''comedian'', ''juggler'', ''acrobat'',
    ''tightrope walker'', ''stunt person'', ''coach'', ''referee'', ''umpire'',
    ''trainer'', ''bodyguard'', ''bouncer'', ''lawyer'', ''accountant'', ''banker'',
    ''CEO'', ''secretary'', ''receptionist'', ''janitor'', ''gardener'', ''florist'',
    ''bartender'', ''sommelier'', ''tailor'', ''cobbler'', ''blacksmith'', ''jeweler'',
    ''watchmaker'']"

text \<open>Category \<open>nature\<close>.\<close>

definition words_nature :: "string list" where
  "words_nature = [''sun'', ''moon'', ''star'', ''cloud'', ''rainbow'', ''lightning'', ''tornado'',
    ''volcano'', ''earthquake'', ''tsunami'', ''avalanche'', ''river'', ''lake'',
    ''ocean'', ''waterfall'', ''glacier'', ''desert'', ''forest'', ''meadow'', ''swamp'',
    ''coral reef'', ''geyser'', ''canyon'', ''cliff'', ''cave'', ''mushroom'',
    ''cactus'', ''palm tree'', ''rose'', ''sunflower'', ''tulip'', ''snowflake'',
    ''icicle'', ''aurora'', ''comet'', ''meteor'', ''eclipse'', ''wind'', ''storm'',
    ''blizzard'', ''fog'', ''mist'', ''dew'', ''frost'', ''hail'', ''rain'', ''snow'',
    ''thunder'', ''hurricane'', ''typhoon'', ''mountain peak'', ''valley'', ''hill'',
    ''dune'', ''boulder'', ''pebble'', ''sand'', ''mud'', ''quicksand'', ''lava'',
    ''magma'', ''hot spring'', ''pond'', ''stream'', ''creek'', ''rapids'',
    ''tide pool'', ''bay'', ''oak tree'', ''pine tree'', ''willow tree'', ''bamboo'',
    ''fern'', ''moss'', ''ivy'', ''vine'', ''lily'', ''orchid'', ''daisy'',
    ''dandelion'', ''clover'', ''wheat'', ''grass'', ''reed'', ''seaweed'', ''algae'',
    ''plankton'']"

text \<open>Category \<open>sports\<close>.\<close>

definition words_sports :: "string list" where
  "words_sports = [''soccer'', ''basketball'', ''tennis'', ''baseball'', ''volleyball'', ''golf'',
    ''bowling'', ''boxing'', ''wrestling'', ''karate'', ''fencing'', ''archery'',
    ''surfing'', ''skiing'', ''snowboarding'', ''ice skating'', ''hockey'', ''rugby'',
    ''cricket'', ''badminton'', ''table tennis'', ''diving'', ''gymnastics'',
    ''weightlifting'', ''cycling'', ''horse riding'', ''rock climbing'',
    ''skateboarding'', ''sailing'', ''rowing'', ''darts'', ''football'', ''lacrosse'',
    ''field hockey'', ''water polo'', ''handball'', ''curling'', ''bobsled'', ''luge'',
    ''biathlon'', ''triathlon'', ''marathon'', ''pole vault'', ''high jump'',
    ''long jump'', ''javelin'', ''discus'', ''shot put'', ''hurdles'', ''relay race'',
    ''sprint'', ''judo'', ''taekwondo'', ''kickboxing'', ''motocross'', ''bmx'',
    ''mountain biking'', ''roller derby'', ''frisbee'', ''ultimate frisbee'',
    ''croquet'', ''bocce ball'', ''shuffleboard'', ''pickleball'', ''squash'',
    ''racquetball'', ''polo'', ''rodeo'', ''bull riding'', ''parkour'', ''free running'',
    ''bungee jumping'', ''skydiving'', ''hang gliding'']"

text \<open>Category \<open>movies & tv\<close>.\<close>

definition words_movies_tv :: "string list" where
  "words_movies_tv = [''superhero'', ''zombie'', ''vampire'', ''werewolf'', ''ghost'', ''alien'',
    ''robot'', ''dinosaur'', ''dragon'', ''mermaid'', ''wizard'', ''witch'', ''fairy'',
    ''giant'', ''dwarf'', ''elf'', ''troll'', ''unicorn'', ''phoenix'', ''centaur'',
    ''minotaur'', ''cyclops'', ''grim reaper'', ''angel'', ''demon'', ''frankenstein'',
    ''yeti'', ''bigfoot'', ''kraken'', ''sphinx'', ''griffin'', ''godzilla'',
    ''king kong'', ''mummy'', ''skeleton'', ''gargoyle'', ''golem'', ''leprechaun'',
    ''gnome'', ''goblin'', ''orc'', ''ogre'', ''hydra'', ''medusa'', ''pegasus'',
    ''cerberus'', ''basilisk'', ''banshee'', ''genie'', ''djinn'', ''time traveler'',
    ''cyborg'', ''android'', ''hologram'', ''clone'', ''mutant'', ''ninja'', ''samurai'',
    ''gladiator'', ''viking'', ''spartan'', ''barbarian'', ''cowboy'', ''gangster'',
    ''spy'', ''detective'', ''mad scientist'', ''villain'', ''sidekick'', ''damsel'',
    ''princess'', ''prince'', ''king'', ''queen'', ''pirate captain'', ''space marine'',
    ''jedi'', ''sith'', ''bounty hunter'']"

text \<open>Category \<open>music\<close>.\<close>

definition words_music :: "string list" where
  "words_music = [''guitar'', ''piano'', ''drums'', ''violin'', ''trumpet'', ''flute'', ''saxophone'',
    ''harp'', ''cello'', ''accordion'', ''banjo'', ''ukulele'', ''harmonica'',
    ''xylophone'', ''tambourine'', ''maracas'', ''tuba'', ''clarinet'', ''bagpipes'',
    ''bongo'', ''triangle'', ''kazoo'', ''organ'', ''mandolin'', ''didgeridoo'',
    ''sitar'', ''microphone'', ''headphones'', ''electric guitar'', ''bass guitar'',
    ''bass drum'', ''snare drum'', ''cymbals'', ''timpani'', ''gong'', ''chimes'',
    ''cowbell'', ''castanets'', ''wood block'', ''vibraphone'', ''marimba'',
    ''steel drum'', ''djembe'', ''congas'', ''tabla'', ''trombone'', ''french horn'',
    ''oboe'', ''piccolo'', ''recorder'', ''pan flute'', ''synthesizer'', ''keyboard'',
    ''electric piano'', ''turntable'', ''mixer'', ''amplifier'', ''speaker'',
    ''metronome'', ''tuning fork'', ''music stand'', ''baton'', ''pick'', ''bow'',
    ''reed'', ''mouthpiece'', ''drumstick'', ''sheet music'', ''musical note'',
    ''treble clef'', ''bass clef'', ''microphone stand'']"

text \<open>Category \<open>clothing\<close>.\<close>

definition words_clothing :: "string list" where
  "words_clothing = [''shirt'', ''pants'', ''dress'', ''skirt'', ''jacket'', ''coat'', ''sweater'',
    ''hoodie'', ''hat'', ''cap'', ''scarf'', ''gloves'', ''socks'', ''boots'',
    ''sandals'', ''sneakers'', ''high heels'', ''tie'', ''bow tie'', ''belt'',
    ''bikini'', ''swimsuit'', ''pajamas'', ''robe'', ''apron'', ''crown'', ''helmet'',
    ''sunglasses'', ''watch'', ''ring'', ''necklace'', ''bracelet'', ''t-shirt'',
    ''tank top'', ''blouse'', ''cardigan'', ''vest'', ''blazer'', ''tuxedo'', ''suit'',
    ''shorts'', ''jeans'', ''leggings'', ''sweatpants'', ''tracksuit'', ''jumpsuit'',
    ''overalls'', ''poncho'', ''cape'', ''cloak'', ''bandana'', ''beanie'', ''beret'',
    ''fedora'', ''sombrero'', ''top hat'', ''mittens'', ''earmuffs'', ''headband'',
    ''wristband'', ''ankle bracelet'', ''earrings'', ''nose ring'', ''brooch'',
    ''cufflinks'', ''tiara'', ''veil'', ''slippers'', ''flip flops'', ''clogs'',
    ''loafers'', ''moccasins'', ''ballet flats'', ''raincoat'', ''windbreaker'',
    ''parka'', ''trench coat'', ''leather jacket'', ''suspenders'', ''cummerbund'',
    ''sash'', ''shawl'', ''stole'']"

text \<open>Category \<open>random\<close>.\<close>

definition words_random :: "string list" where
  "words_random = [''birthday party'', ''treasure map'', ''time machine'', ''haunted house'',
    ''roller coaster'', ''campfire'', ''snowman'', ''scarecrow'', ''traffic jam'',
    ''solar system'', ''black hole'', ''lava lamp'', ''disco ball'', ''jack-o-lantern'',
    ''christmas tree'', ''ferris wheel'', ''bunk bed'', ''quicksand'', ''mousetrap'',
    ''sandcastle'', ''igloo'', ''treehouse'', ''hammock'', ''trampoline'', ''boomerang'',
    ''parachute'', ''zipline'', ''slingshot'', ''catapult'', ''maze'', ''jigsaw puzzle'',
    ''pinata'', ''snow globe'', ''kaleidoscope'', ''bubble bath'', ''pillow fight'',
    ''food fight'', ''paper airplane'', ''origami'', ''fortune cookie'',
    ''vending machine'', ''shopping cart'', ''parking meter'', ''fire hydrant'',
    ''mailbox'', ''trash can'', ''dumpster'', ''recycling bin'', ''street sign'',
    ''stop sign'', ''speed bump'', ''pothole'', ''manhole cover'', ''flagpole'',
    ''banner'', ''billboard'', ''neon sign'', ''traffic light'', ''bench'',
    ''picnic table'', ''swing set'', ''seesaw'', ''slide'', ''monkey bars'', ''sandbox'',
    ''wishing well'', ''bird bath'', ''sundial'', ''weather vane'', ''bird house'',
    ''dog house'', ''wind chime'', ''garden gnome'', ''flamingo lawn ornament'',
    ''tiki torch'', ''porch swing'', ''doormat'', ''welcome mat'', ''fence'', ''gate'',
    ''stepping stone'']"

text \<open>The constructor: \<open>this.categories.set(name, [...])\<close> for each category in turn.\<close>

definition new_word_bank :: word_bank where
  "new_word_bank = \<lparr>categories = foldl (\<lambda>m (k, ws). AList.update k ws m) []
     [(''animals'', words_animals),
      (''food'', words_food),
      (''objects'', words_objects),
      (''places'', words_places),
      (''actions'', words_actions),
      (''vehicles'', words_vehicles),
      (''professions'', words_professions),
      (''nature'', words_nature),
      (''sports'', words_sports),
      (''movies & tv'', words_movies_tv),
      (''music'', words_music),
      (''clothing'', words_clothing),
      (''random'', words_random)]\<rparr>"

definition getCategories :: "word_bank \<Rightarrow> string list" where
  "getCategories wb = map fst (categories wb)"

definition getWordsByCategory :: "word_bank \<Rightarrow> string \<Rightarrow> error + string list" where
  "getWordsByCategory wb category =
     (case map_of (categories wb) category of
        None \<Rightarrow> Inl (CategoryNotFound category)
      | Some words \<Rightarrow> Inr words)"

definition getRandomWord :: "word_bank \<Rightarrow> string \<Rightarrow> real \<Rightarrow> error + string option" where
  "getRandomWord wb category r =
     (case getWordsByCategory wb category of
        Inl e \<Rightarrow> Inl e
      | Inr words \<Rightarrow>
          (let randomIndex = nat \<lfloor>r * real (length words)\<rfloor> in
           Inr (if randomIndex < length words then Some (words ! randomIndex) else None)))"

definition addCategory :: "word_bank \<Rightarrow> string \<Rightarrow> string list \<Rightarrow> word_bank" where
  "addCategory wb name words = wb\<lparr>categories := AList.update name words (categories wb)\<rparr>"

subsection \<open>The built-in categories\<close>

lemma categories_new_word_bank:
  "categories new_word_bank =
     [(''animals'', words_animals),
      (''food'', words_food),
      (''objects'', words_objects),
      (''places'', words_places),
      (''actions'', words_actions),
      (''vehicles'', words_vehicles),
      (''professions'', words_professions),
      (''nature'', words_nature),
      (''sports'', words_sports),
      (''movies & tv'', words_movies_tv),
      (''music'', words_music),
      (''clothing'', words_clothing),
      (''random'', words_random)]"
  by (simp add: new_word_bank_def)

lemma builtin_words_ok:
  "words_animals \<noteq> [] \<and> [] \<notin> set words_animals"
  "words_food \<noteq> [] \<and> [] \<notin> set words_food"
  "words_objects \<noteq> [] \<and> [] \<notin> set words_objects"
  "words_places \<noteq> [] \<and> [] \<notin> set words_places"
  "words_actions \<noteq> [] \<and> [] \<notin> set words_actions"
  "words_vehicles \<noteq> [] \<and> [] \<notin> set words_vehicles"
  "words_professions \<noteq> [] \<and> [] \<notin> set words_professions"
  "words_nature \<noteq> [] \<and> [] \<notin> set words_nature"
  "words_sports \<noteq> [] \<and> [] \<notin> set words_sports"
  "words_movies_tv \<noteq> [] \<and> [] \<notin> set words_movies_tv"
  "words_music \<noteq> [] \<and> [] \<notin> set words_music"
  "words_clothing \<noteq> [] \<and> [] \<notin> set words_clothing"
  "words_random \<noteq> [] \<and> [] \<notin> set words_random"
  by (simp_all add: words_animals_def words_food_def words_objects_def words_places_def words_actions_def words_vehicles_def words_professions_def words_nature_def words_sports_def words_movies_tv_def words_music_def words_clothing_def words_random_def)

lemma builtin_categories_ok:
  "\<forall>(c, ws) \<in> set (categories new_word_bank). ws \<noteq> [] \<and> [] \<notin> set ws"
  by (simp add: categories_new_word_bank builtin_words_ok)

lemma getRandomWord_found:
  assumes "map_of (categories wb) c = Some ws" and "ws \<noteq> []" and "0 \<le> r" and "r < 1"
  shows "\<exists>i < length ws. getRandomWord wb c r = Inr (Some (ws ! i))"
proof -
  let ?i = "nat \<lfloor>r * real (length ws)\<rfloor>"
  have "r * real (length ws) < real (length ws)"
    using assms(2,4) by simp
  then have "\<lfloor>r * real (length ws)\<rfloor> < int (length ws)"
    by (simp add: floor_less_iff)
  moreover have "0 \<le> \<lfloor>r * real (length ws)\<rfloor>"
    using assms(3) by simp
  ultimately have i: "?i < length ws" by (simp add: nat_less_iff)
  then have "getRandomWord wb c r = Inr (Some (ws ! ?i))"
    using assms(1) by (simp add: getRandomWord_def getWordsByCategory_def Let_def)
  with i show ?thesis by blast
qed

lemma getRandomWord_unknown:
  "getRandomWord wb c r = Inl e \<longleftrightarrow> c \<notin> set (getCategories wb) \<and> e = CategoryNotFound c"
  by (auto simp: getRandomWord_def getWordsByCategory_def getCategories_def Let_def
      map_of_eq_None_iff split: option.splits dest: map_of_SomeD intro: rev_image_eqI)

subsection \<open>Properties of the word supplier\<close>

text \<open>
  C14: for every built-in category and every value of \<open>Math.random()\<close> in \<open>[0, 1)\<close>,
  \<open>getRandomWord\<close> returns a word of that category, and the word is a non-empty
  string; an unknown category is the error \<open>Category '...' not found\<close> and nothing else.
\<close>

theorem getRandomWord_builtin:
  assumes "c \<in> set (getCategories new_word_bank)" and "0 \<le> r" and "r < 1"
  shows "(\<exists>ws w. map_of (categories new_word_bank) c = Some ws \<and> w \<in> set ws \<and> w \<noteq> [] \<and>
            getRandomWord new_word_bank c r = Inr (Some w)) \<and>
         (\<forall>c'. getRandomWord new_word_bank c' r = Inl e \<longleftrightarrow>
            c' \<notin> set (getCategories new_word_bank) \<and> e = CategoryNotFound c')"
proof
  from assms(1) obtain ws where ws: "map_of (categories new_word_bank) c = Some ws"
    by (auto simp: getCategories_def dest: weak_map_of_SomeI)
  then have "(c, ws) \<in> set (categories new_word_bank)" by (rule map_of_SomeD)
  with builtin_categories_ok have ok: "ws \<noteq> [] \<and> [] \<notin> set ws" by blast
  with ws assms(2,3) obtain i where "i < length ws" and "getRandomWord new_word_bank c r = Inr (Some (ws ! i))"
    using getRandomWord_found by blast
  with ws ok show "\<exists>ws w. map_of (categories new_word_bank) c = Some ws \<and> w \<in> set ws \<and> w \<noteq> [] \<and>
            getRandomWord new_word_bank c r = Inr (Some w)"
    by (metis nth_mem)
  show "\<forall>c'. getRandomWord new_word_bank c' r = Inl e \<longleftrightarrow>
            c' \<notin> set (getCategories new_word_bank) \<and> e = CategoryNotFound c'"
    by (simp add: getRandomWord_unknown)
qed

theorem getRandomWord_builtin_witness:
  "(\<exists>ws w. map_of (categories new_word_bank) ''animals'' = Some ws \<and> w \<in> set ws \<and> w \<noteq> [] \<and>
      getRandomWord new_word_bank ''animals'' (1 / 2) = Inr (Some w)) \<and>
   (\<forall>c'. getRandomWord new_word_bank c' (1 / 2) = Inl (CategoryNotFound ''colours'') \<longleftrightarrow>
      c' \<notin> set (getCategories new_word_bank) \<and> CategoryNotFound ''colours'' = CategoryNotFound c')"
proof -
  have "''animals'' \<in> set (getCategories new_word_bank)"
    by (simp add: getCategories_def categories_new_word_bank)
  then show ?thesis
    using getRandomWord_builtin [of "''animals''" "1 / 2" "CategoryNotFound ''colours''"] by simp
qed

end
