(* ===== verification/GameRoom.thy ===== *)
theory GameRoom
  imports SharedTypes TurnManager ScoringEngine WordBank
begin

text \<open>
  The room coordinator (\<open>src/server/src/GameRoom.ts\<close>).  The class's fields are the
  record \<open>room\<close>; the roster is the \<open>Map\<close> from player id to player, in join order.
  Each method is a function from the room (and its arguments) to its outcome and the
  room afterwards, \<open>(error + 'a) \<times> room\<close>: the objects are mutated in place, so a
  method that throws after a write leaves that write behind, and the pair records both.
  Randomness is an argument: \<open>rWord\<close> and \<open>rTurns\<close> are the values of
  \<open>Math.random()\<close> for the word draw and the turn shuffle, \<open>shuffled\<close> is the roster as
  \<open>[...ids].sort(() => Math.random() - 0.5)\<close> returned it, a permutation of the roster
  whose order the engine's sort decides.
\<close>



record room =
  roomCode :: room_code
  phase :: game_phase
  players :: "(pid \<times> player) list"
  settings :: game_settings
  strokes :: "stroke list"
  turnManager :: "turn_manager option"
  votingManager :: "voting_manager option"
  timeoutRequests :: "pid list"
  wordBank :: word_bank
  secretWord :: "string option"
  roleAssignments :: "role_assignment list"
  imposterGuessCorrect :: "bool option"
  colorIndex :: int

type_synonym 'a outcome = "(error + 'a) \<times> room"

text \<open>\<open>generateRoomCode\<close>: four draws from the alphabet; \<open>charAt\<close> out of range is the
  empty string.\<close>

definition generateRoomCode :: "(nat \<Rightarrow> real) \<Rightarrow> room_code" where
  "generateRoomCode rnd =
     (let chars = ''ABCDEFGHIJKLMNOPQRSTUVWXYZ'' in
      concat (map (\<lambda>i. let k = nat \<lfloor>rnd i * real (length chars)\<rfloor> in
                        if k < length chars then [chars ! k] else []) [0..<4]))"

definition new_room :: "(nat \<Rightarrow> real) \<Rightarrow> room" where
  "new_room rnd =
     \<lparr>roomCode = generateRoomCode rnd, phase = LOBBY, players = [], settings = DEFAULT_SETTINGS,
      strokes = [], turnManager = None, votingManager = None, timeoutRequests = [],
      wordBank = new_word_bank, secretWord = None, roleAssignments = [],
      imposterGuessCorrect = None, colorIndex = 0\<rparr>"

subsection \<open>Player management\<close>

definition addPlayer :: "room \<Rightarrow> pid \<Rightarrow> string \<Rightarrow> bool \<Rightarrow> player outcome" where
  "addPlayer r uuid name isHost =
     (if phase r \<noteq> LOBBY then (Inl NotInLobby, r)
      else if length (players r) \<ge> MAX_PLAYERS then (Inl RoomFull, r)
      else let p = new_player uuid name (colorIndex r) isHost in
        (Inr p, r\<lparr>colorIndex := colorIndex r + 1, players := AList.update uuid p (players r)\<rparr>))"

definition removePlayer :: "room \<Rightarrow> pid \<Rightarrow> room" where
  "removePlayer r playerId = r\<lparr>players := AList.delete playerId (players r)\<rparr>"

definition togglePlayerReady :: "room \<Rightarrow> pid \<Rightarrow> room" where
  "togglePlayerReady r playerId =
     (case map_of (players r) playerId of
        None \<Rightarrow> r
      | Some p \<Rightarrow> r\<lparr>players := AList.update playerId (toggleReady p) (players r)\<rparr>)"

definition allPlayersReady :: "room \<Rightarrow> bool" where
  "allPlayersReady r \<longleftrightarrow>
     length (players r) \<ge> MIN_PLAYERS \<and> list_all (\<lambda>(_, p). p_isReady p) (players r)"

subsection \<open>Game lifecycle\<close>

text \<open>\<open>assignRoles\<close>: two imposters from six players on, the first ones of the shuffled
  roster; the assignments follow the roster order.\<close>

definition assignRoles :: "room \<Rightarrow> pid list \<Rightarrow> role_assignment list \<times> room" where
  "assignRoles r shuffled =
     (let playerIds = map fst (players r);
          numImposters = (if length playerIds \<ge> 6 then 2 else 1);
          imposterIds = set (take numImposters shuffled);
          assignments = map (\<lambda>pid. if pid \<in> imposterIds
                                   then \<lparr>ra_playerId = pid, ra_role = Imposter, ra_word = None\<rparr>
                                   else \<lparr>ra_playerId = pid, ra_role = Artist, ra_word = secretWord r\<rparr>)
                          playerIds
      in (assignments, r\<lparr>roleAssignments := assignments\<rparr>))"

text \<open>
  \<open>startGame\<close>.  The settings are adopted before the word is drawn: when the draw throws
  (unknown category), the new settings stay.
\<close>

definition startGame ::
  "room \<Rightarrow> game_settings option \<Rightarrow> real \<Rightarrow> (nat \<Rightarrow> real) \<Rightarrow> pid list \<Rightarrow> unit outcome" where
  "startGame r settingsOpt rWord rTurns shuffled =
     (if length (players r) < MIN_PLAYERS then (Inl NotEnoughPlayers, r)
      else if \<not> list_all (\<lambda>(_, p). p_isReady p) (players r) then (Inl NotAllReady, r)
      else
        let r1 = (case settingsOpt of None \<Rightarrow> r | Some s \<Rightarrow> r\<lparr>settings := s\<rparr>);
            word = (if str_truthy (customWord (settings r1)) then Inr (customWord (settings r1))
                    else getRandomWord (wordBank r1) (category (settings r1)) rWord)
        in case word of
             Inl e \<Rightarrow> (Inl e, r1)
           | Inr w \<Rightarrow>
               let r2 = r1\<lparr>secretWord := w,
                           turnManager := Some (new_turn_manager rTurns (map fst (players r1))
                                                  (rounds (settings r1)))\<rparr>;
                   (assignments, r3) = assignRoles r2 shuffled;
                   r4 = r3\<lparr>roleAssignments := assignments, strokes := [],
                           imposterGuessCorrect := None, phase := ROLE_REVEAL\<rparr>
               in (Inr (), r4))"

definition startDrawing :: "room \<Rightarrow> unit outcome" where
  "startDrawing r =
     (if phase r \<noteq> ROLE_REVEAL then (Inl NotRoleRevealPhase, r)
      else (Inr (), r\<lparr>phase := DRAWING\<rparr>))"

text \<open>\<open>startVoting\<close>: \<open>roleAssignments.find(r => r.role === 'imposter')!.playerId\<close>
  reads a property of \<open>undefined\<close> when there is no imposter.\<close>

definition startVoting :: "room \<Rightarrow> unit outcome" where
  "startVoting r =
     (case find (\<lambda>a. ra_role a = Imposter) (roleAssignments r) of
        None \<Rightarrow> (Inl TypeErrorUndefined, r)
      | Some a \<Rightarrow>
          (Inr (), r\<lparr>votingManager := Some (new_voting_manager (map fst (players r)) (ra_playerId a)),
                     phase := VOTING\<rparr>))"

definition submitStroke :: "room \<Rightarrow> pid \<Rightarrow> stroke \<Rightarrow> unit outcome" where
  "submitStroke r playerId st =
     (if phase r \<noteq> DRAWING then (Inl NotDrawingPhase, r)
      else case turnManager r of
        None \<Rightarrow> (Inl NoTurnManager, r)
      | Some tm \<Rightarrow>
          if Some playerId \<noteq> getCurrentPlayerId tm then (Inl NotYourTurn, r)
          else
            let tm' = advanceTurn tm;
                r' = r\<lparr>strokes := strokes r @ [st], turnManager := Some tm'\<rparr>
            in if isComplete tm' then startVoting r' else (Inr (), r'))"

definition submitVote :: "room \<Rightarrow> pid \<Rightarrow> pid \<Rightarrow> unit outcome" where
  "submitVote r voterId votedForId =
     (case votingManager r of
        None \<Rightarrow> (Inl VotingNotStarted, r)
      | Some vm \<Rightarrow>
          (case castVote vm voterId votedForId of
             Inl e \<Rightarrow> (Inl e, r)
           | Inr vm' \<Rightarrow> (Inr (), r\<lparr>votingManager := Some vm'\<rparr>)))"

definition allVotesIn :: "room \<Rightarrow> bool" where
  "allVotesIn r = (case votingManager r of None \<Rightarrow> False | Some vm \<Rightarrow> isComplete_vm vm)"

definition resolveVotes :: "room \<Rightarrow> error + vote_result" where
  "resolveVotes r = (case votingManager r of None \<Rightarrow> Inl VotingNotStarted | Some vm \<Rightarrow> Inr (getResult vm))"

definition submitImposterGuess :: "room \<Rightarrow> string \<Rightarrow> bool outcome" where
  "submitImposterGuess r word =
     (if \<not> str_truthy (secretWord r) then (Inl NoSecretWord, r)
      else let correct = (js_toLowerCase word = js_toLowerCase (the (secretWord r)))
           in (Inr correct, r\<lparr>imposterGuessCorrect := Some correct\<rparr>))"

text \<open>\<open>calculateScores\<close>: the points of the round are added to the players still in
  the room, in the order of the score map; the totals are read back from the roster.\<close>

definition apply_scores :: "(pid \<times> int) list \<Rightarrow> (pid \<times> player) list \<Rightarrow> (pid \<times> player) list" where
  "apply_scores roundScores ps =
     foldl (\<lambda>ps (pid, points). case map_of ps pid of
                                None \<Rightarrow> ps
                              | Some p \<Rightarrow> AList.update pid (addPoints points p) ps)
       ps roundScores"

definition calculateScores :: "room \<Rightarrow> round_result outcome" where
  "calculateScores r =
     (case votingManager r of
        None \<Rightarrow> (Inl VotingNotStarted, r)
      | Some vm \<Rightarrow>
          let voteResult = getResult vm;
              imposterCaught = isCaughtPlayerImposter vm
          in case find (\<lambda>a. ra_role a = Imposter) (roleAssignments r) of
               None \<Rightarrow> (Inl TypeErrorUndefined, r)
             | Some imp \<Rightarrow>
                 let imposterId = ra_playerId imp;
                     artistIds = map ra_playerId (filter (\<lambda>a. ra_role a = Artist) (roleAssignments r));
                     guess = (if imposterCaught then imposterGuessCorrect r else None);
                     roundScores = calculate \<lparr>si_votes = vr_votes voteResult, si_imposterId = imposterId,
                                      si_artistIds = artistIds, si_imposterCaught = imposterCaught,
                                      si_imposterGuessCorrect = guess\<rparr>;
                     r' = r\<lparr>players := apply_scores roundScores (players r)\<rparr>;
                     totalScores = map (\<lambda>(pid, p). (pid, p_score p)) (players r')
                 in (Inr \<lparr>rr_scores = roundScores, rr_totalScores = totalScores,
                          rr_imposterId = imposterId, rr_imposterCaught = imposterCaught,
                          rr_imposterGuessCorrect = guess, rr_secretWord = secretWord r\<rparr>, r'))"

subsection \<open>Serialisation\<close>

definition getPlayerList :: "room \<Rightarrow> player list" where
  "getPlayerList r = map snd (players r)"

definition getState :: "room \<Rightarrow> game_state" where
  "getState r =
     \<lparr>gs_roomCode = roomCode r, gs_phase = phase r, gs_players = getPlayerList r,
      gs_settings = settings r,
      gs_currentRound = (case turnManager r of None \<Rightarrow> 0 | Some tm \<Rightarrow> currentRound tm),
      gs_currentTurnIndex = (case turnManager r of None \<Rightarrow> 0 | Some tm \<Rightarrow> turnIndex tm),
      gs_turnOrder = (case turnManager r of None \<Rightarrow> [] | Some tm \<Rightarrow> turnOrder tm),
      gs_activePlayerId = (case turnManager r of None \<Rightarrow> None | Some tm \<Rightarrow> getCurrentPlayerId tm),
      gs_strokes = strokes r\<rparr>"

definition getRoleForPlayer :: "room \<Rightarrow> pid \<Rightarrow> error + role_assignment" where
  "getRoleForPlayer r playerId =
     (case find (\<lambda>a. ra_playerId a = playerId) (roleAssignments r) of
        None \<Rightarrow> Inl (NoRoleAssignment playerId)
      | Some a \<Rightarrow> Inr a)"

subsection \<open>The room as a step function\<close>

text \<open>
  The methods the router calls on a room, as one datatype; \<open>room_call\<close> runs one of
  them and keeps what a \<open>try\<close>/\<open>catch\<close> around it sees: the error thrown, if any,
  and the room afterwards.  \<open>room_reachable\<close> are the rooms that a sequence of such
  calls produces from a fresh room.
\<close>

datatype room_op =
    AddPlayer pid string bool
  | RemovePlayer pid
  | TogglePlayerReady pid
  | StartGame "game_settings option" real "nat \<Rightarrow> real" "pid list"
  | AssignRoles "pid list"
  | StartDrawing
  | SubmitStroke pid stroke
  | StartVoting
  | SubmitVote pid pid
  | SubmitImposterGuess string
  | CalculateScores

definition thrown :: "(error + 'a) \<times> room \<Rightarrow> error option \<times> room" where
  "thrown res = (case fst res of Inl e \<Rightarrow> Some e | Inr _ \<Rightarrow> None, snd res)"

fun room_call :: "room \<Rightarrow> room_op \<Rightarrow> error option \<times> room" where
  "room_call r (AddPlayer u n h) = thrown (addPlayer r u n h)"
| "room_call r (RemovePlayer p) = (None, removePlayer r p)"
| "room_call r (TogglePlayerReady p) = (None, togglePlayerReady r p)"
| "room_call r (StartGame so rw rt sh) = thrown (startGame r so rw rt sh)"
| "room_call r (AssignRoles sh) = (None, snd (assignRoles r sh))"
| "room_call r StartDrawing = thrown (startDrawing r)"
| "room_call r (SubmitStroke p st) = thrown (submitStroke r p st)"
| "room_call r StartVoting = thrown (startVoting r)"
| "room_call r (SubmitVote v t) = thrown (submitVote r v t)"
| "room_call r (SubmitImposterGuess w) = thrown (submitImposterGuess r w)"
| "room_call r CalculateScores = thrown (calculateScores r)"

definition run_room :: "room \<Rightarrow> room_op list \<Rightarrow> room" where
  "run_room r ops = foldl (\<lambda>r op. snd (room_call r op)) r ops"

inductive room_reachable :: "room \<Rightarrow> bool" where
  created: "room_reachable (new_room rnd)"
| step: "room_reachable r \<Longrightarrow> room_reachable (snd (room_call r op))"

text \<open>
The room invariant: the roster is keyed by the players' own ids, without repetition,
  holds at most \<open>MAX_PLAYERS\<close>, and the two managers satisfy their own invariants.
\<close>

definition room_inv :: "room \<Rightarrow> bool" where
  "room_inv r \<longleftrightarrow>
     distinct (map fst (players r)) \<and> (\<forall>(k, p) \<in> set (players r). p_id p = k) \<and>
     length (players r) \<le> MAX_PLAYERS \<and>
     pred_option tm_inv (turnManager r) \<and> pred_option vm_inv (votingManager r)"

subsection \<open>Example rooms\<close>

text \<open>
A lobby of three ready players a, b, c made by the room's own operations; the same
  room drawing (imposter b, turn order b, c, a, two rounds) and after the vote.
\<close>

definition example_lobby :: room where
  "example_lobby =
     run_room (new_room (\<lambda>_. 0))
       [AddPlayer ''a'' ''Ann'' True, AddPlayer ''b'' ''Bob'' False, AddPlayer ''c'' ''Cy'' False,
        TogglePlayerReady ''a'', TogglePlayerReady ''b'', TogglePlayerReady ''c'']"

definition example_stroke :: "pid \<Rightarrow> stroke" where
  "example_stroke p = \<lparr>st_playerId = p, st_color = ''#000'', st_points = [], st_brushSize = 4, st_timestamp = 0\<rparr>"

definition example_drawing :: room where
  "example_drawing =
     example_lobby\<lparr>phase := DRAWING,
       turnManager := Some \<lparr>turnOrder = [''b'', ''c'', ''a''], currentRound = 1, turnIndex = 0, totalRounds = 2\<rparr>,
       roleAssignments := [\<lparr>ra_playerId = ''a'', ra_role = Artist, ra_word = Some ''cat''\<rparr>,
                           \<lparr>ra_playerId = ''b'', ra_role = Imposter, ra_word = None\<rparr>,
                           \<lparr>ra_playerId = ''c'', ra_role = Artist, ra_word = Some ''cat''\<rparr>]\<rparr>"

definition example_voted :: room where
  "example_voted =
     example_drawing\<lparr>phase := VOTING,
       votingManager := Some \<lparr>vm_playerIds = [''a'', ''b'', ''c''], vm_imposterId = ''b'',
                              vm_votes = [(''a'', ''b''), (''c'', ''b''), (''b'', ''a'')]\<rparr>,
       imposterGuessCorrect := Some False\<rparr>"

subsection \<open>Lemmas on the room operations\<close>

lemma assignRoles_imposters:
  assumes "distinct (map fst (players r))" and "mset shuffled = mset (map fst (players r))"
    and "players r \<noteq> []"
  shows "length (filter (\<lambda>a. ra_role a = Imposter) (fst (assignRoles r shuffled))) =
           (if length (players r) \<ge> 6 then 2 else 1)"
proof -
  let ?ids = "map fst (players r)"
  let ?k = "if length ?ids \<ge> 6 then 2 else 1"
  have "1 \<le> length ?ids" using assms(3) by (simp add: Suc_le_eq)
  then have k: "?k \<le> length ?ids" by simp
  have "length (filter (\<lambda>a. ra_role a = Imposter) (fst (assignRoles r shuffled))) =
        length (filter (\<lambda>pid. pid \<in> set (take ?k shuffled)) ?ids)"
    by (simp add: assignRoles_def Let_def filter_map comp_def del: map_map)
  also have "\<dots> = card {x \<in> set ?ids. x \<in> set (take ?k shuffled)}"
    by (rule length_filter_distinct [OF assms(1)])
  also have "\<dots> = card (set (take ?k shuffled))"
  proof -
    have "{x \<in> set ?ids. x \<in> set (take ?k shuffled)} = set (take ?k shuffled)"
      using card_take_perm [OF assms(2,1) k] by blast
    then show ?thesis by (simp only:)
  qed
  also have "\<dots> = ?k"
    using card_take_perm [OF assms(2,1) k] by simp
  finally show ?thesis by simp
qed

lemma assignRoles_shape:
  "map ra_playerId (fst (assignRoles r sh)) = map fst (players r) \<and>
   (\<forall>a \<in> set (fst (assignRoles r sh)). ra_word a = (if ra_role a = Imposter then None else secretWord r))"
  by (auto simp: assignRoles_def Let_def comp_def)

lemma startGame_Inr:
  assumes "startGame r so rw rt sh = (Inr u, r')"
  shows "\<exists>r2. players r2 = players r \<and>
           turnManager r2 = Some (new_turn_manager rt (map fst (players r)) (rounds (settings r2))) \<and>
           r' = r2\<lparr>roleAssignments := fst (assignRoles r2 sh), strokes := [],
                   imposterGuessCorrect := None, phase := ROLE_REVEAL\<rparr>"
proof -
  define r1 where "r1 = (case so of None \<Rightarrow> r | Some s \<Rightarrow> r\<lparr>settings := s\<rparr>)"
  define word where "word = (if str_truthy (customWord (settings r1)) then Inr (customWord (settings r1))
                    else getRandomWord (wordBank r1) (category (settings r1)) rw)"
  have p1: "players r1 = players r" by (simp add: r1_def split: option.splits)
  obtain w where w: "word = Inr w"
    using assms by (cases word) (auto simp: startGame_def Let_def r1_def word_def split: if_splits)
  let ?r2 = "r1\<lparr>secretWord := w, turnManager := Some (new_turn_manager rt (map fst (players r1))
                                                  (rounds (settings r1)))\<rparr>"
  have "r' = ?r2\<lparr>roleAssignments := fst (assignRoles ?r2 sh), strokes := [],
                   imposterGuessCorrect := None, phase := ROLE_REVEAL\<rparr>"
    using assms w
    by (auto simp: startGame_def Let_def assignRoles_def r1_def [symmetric] word_def [symmetric]
        split: if_splits)
  then show ?thesis using p1 by (intro exI [of _ ?r2]) simp
qed

lemma submitStroke_current:
  assumes "phase r = DRAWING" and "turnManager r = Some tm" and "getCurrentPlayerId tm = Some p"
  shows "submitStroke r p st =
           (let r' = r\<lparr>strokes := strokes r @ [st], turnManager := Some (advanceTurn tm)\<rparr> in
            if isComplete (advanceTurn tm) then startVoting r' else (Inr (), r'))"
  using assms by (simp add: submitStroke_def Let_def)

lemma drawing_prefix:
  assumes "phase r = DRAWING" and tm: "turnManager r = Some tm" and "turnIndex tm = 0"
    and "currentRound tm = 1" and "totalRounds tm = int R" and ne: "turnOrder tm \<noteq> []"
    and len: "length sts = length (turnOrder tm) * R"
  shows "k < length (turnOrder tm) * R \<Longrightarrow>
    run_calls (\<lambda>r (p, st). ok_state (submitStroke r p st)) r
       (take k (zip (concat (replicate R (turnOrder tm))) sts)) =
    Inr (r\<lparr>strokes := strokes r @ take k sts, turnManager := Some ((advanceTurn ^^ k) tm)\<rparr>)"
proof (induction k)
  case 0
  show ?case using tm by simp
next
  case (Suc k)
  let ?ds = "concat (replicate R (turnOrder tm))"
  let ?n = "length (turnOrder tm)"
  let ?rk = "r\<lparr>strokes := strokes r @ take k sts, turnManager := Some ((advanceTurn ^^ k) tm)\<rparr>"
  have k: "k < ?n * R" using Suc.prems by simp
  have lds: "length ?ds = ?n * R" by (simp add: length_concat sum_list_replicate mult.commute)
  have tk: "take (Suc k) (zip ?ds sts) = take k (zip ?ds sts) @ [(?ds ! k, sts ! k)]"
    using k lds len by (simp add: take_Suc_conv_app_nth)
  have cur: "getCurrentPlayerId ((advanceTurn ^^ k) tm) = Some (?ds ! k)"
    using current_funpow_start [OF assms(3) ne, of k] nth_concat_replicate [OF k] by simp
  have nc: "\<not> isComplete ((advanceTurn ^^ Suc k) tm)"
    using isComplete_funpow_start [OF assms(3,4,5) ne, of "Suc k"] Suc.prems by simp
  have "submitStroke ?rk (?ds ! k) (sts ! k) =
          (Inr (), r\<lparr>strokes := strokes r @ take (Suc k) sts,
                     turnManager := Some ((advanceTurn ^^ Suc k) tm)\<rparr>)"
    using submitStroke_current [of ?rk "(advanceTurn ^^ k) tm" "?ds ! k" "sts ! k"] assms(1) cur nc
      k len by (simp add: take_Suc_conv_app_nth)
  then show ?case
    using Suc.IH k tk by (simp add: run_calls_append ok_state_def)
qed

lemma update_ids:
  "\<forall>(k', p) \<in> set ps. p_id p = k' \<Longrightarrow> p_id v = k \<Longrightarrow> \<forall>(k', p) \<in> set (AList.update k v ps). p_id p = k'"
  using set_update_subset [of k v ps] by blast

lemma apply_scores_keys:
  "(\<forall>(k, p) \<in> set ps. p_id p = k) \<Longrightarrow>
   map fst (apply_scores s ps) = map fst ps \<and> (\<forall>(k, p) \<in> set (apply_scores s ps). p_id p = k)"
proof (induction s arbitrary: ps)
  case Nil
  then show ?case by (simp add: apply_scores_def)
next
  case (Cons kp s)
  obtain k pts where kp: "kp = (k, pts)" by (cases kp)
  let ?ps' = "case map_of ps k of None \<Rightarrow> ps | Some p \<Rightarrow> AList.update k (addPoints pts p) ps"
  have step: "apply_scores (kp # s) ps = apply_scores s ?ps'"
    by (simp add: apply_scores_def kp)
  have "map fst ?ps' = map fst ps \<and> (\<forall>(k, p) \<in> set ?ps'. p_id p = k)"
  proof (cases "map_of ps k")
    case None
    with Cons.prems show ?thesis by simp
  next
    case (Some p)
    then have kin: "k \<in> set (map fst ps)" by (auto dest: map_of_SomeD intro: rev_image_eqI)
    from Some Cons.prems have "p_id p = k" by (auto dest: map_of_SomeD)
    then have "p_id (addPoints pts p) = k" by (simp add: addPoints_def)
    moreover have "set (AList.update k (addPoints pts p) ps) \<subseteq> insert (k, addPoints pts p) (set ps)"
      by (induction ps) auto
    ultimately show ?thesis
      using Some Cons.prems kin by (auto simp: map_fst_update js_set_add_def)
  qed
  then show ?case using Cons.IH [of ?ps'] step by simp
qed

lemma map_of_apply_scores:
  "distinct (map fst s) \<Longrightarrow>
   map_of (apply_scores s ps) k =
     (case map_of ps k of None \<Rightarrow> None
      | Some p \<Rightarrow> Some (case map_of s k of None \<Rightarrow> p | Some v \<Rightarrow> addPoints v p))"
proof (induction s arbitrary: ps)
  case Nil
  then show ?case by (simp add: apply_scores_def split: option.splits)
next
  case (Cons kv s)
  obtain k0 v0 where kv: "kv = (k0, v0)" by (cases kv)
  let ?ps' = "case map_of ps k0 of None \<Rightarrow> ps | Some p \<Rightarrow> AList.update k0 (addPoints v0 p) ps"
  have step: "apply_scores ((k0, v0) # s) ps = apply_scores s ?ps'"
    by (simp add: apply_scores_def)
  have d: "distinct (map fst s)" and k0: "map_of s k0 = None"
    using Cons.prems kv by (auto simp: map_of_eq_None_iff)
  show ?case
    unfolding kv step
    using Cons.IH [OF d, of ?ps'] k0
    by (cases "k = k0") (auto simp: update_conv' split: option.splits)
qed

lemma room_inv_roster:
  assumes "room_inv r" and "distinct (map fst ps)" and "\<forall>(k, p) \<in> set ps. p_id p = k"
    and "length ps \<le> MAX_PLAYERS"
  shows "room_inv (r\<lparr>players := ps\<rparr>)"
  using assms by (simp add: room_inv_def)

lemma room_inv_managers:
  "room_inv r \<Longrightarrow> players r' = players r \<Longrightarrow> pred_option tm_inv (turnManager r') \<Longrightarrow>
   pred_option vm_inv (votingManager r') \<Longrightarrow> room_inv r'"
  by (simp add: room_inv_def)

lemma addPlayer_inv: "room_inv r \<Longrightarrow> room_inv (snd (addPlayer r u n h))"
proof -
  assume inv: "room_inv r"
  show ?thesis
  proof (cases "phase r \<noteq> LOBBY \<or> length (players r) \<ge> MAX_PLAYERS")
    case True
    with inv show ?thesis by (auto simp: addPlayer_def)
  next
    case False
    let ?p = "new_player u n (colorIndex r) h"
    have "room_inv (r\<lparr>colorIndex := colorIndex r + 1\<rparr>)" using inv by (simp add: room_inv_def)
    moreover have "distinct (map fst (AList.update u ?p (players r)))"
      using inv by (simp add: room_inv_def distinct_update)
    moreover have "\<forall>(k, p) \<in> set (AList.update u ?p (players r)). p_id p = k"
      using inv by (intro update_ids) (auto simp: room_inv_def new_player_def)
    moreover have "length (AList.update u ?p (players r)) \<le> MAX_PLAYERS"
      using False by (simp add: length_update)
    ultimately have "room_inv (r\<lparr>colorIndex := colorIndex r + 1, players := AList.update u ?p (players r)\<rparr>)"
      by (rule room_inv_roster [where r = "r\<lparr>colorIndex := colorIndex r + 1\<rparr>", simplified])
    with False show ?thesis by (simp add: addPlayer_def Let_def)
  qed
qed

lemma removePlayer_inv: "room_inv r \<Longrightarrow> room_inv (removePlayer r p)"
  unfolding removePlayer_def
proof (rule room_inv_roster)
  assume inv: "room_inv r"
  then show "distinct (map fst (AList.delete p (players r)))"
    by (simp add: room_inv_def distinct_delete)
  have "set (AList.delete p (players r)) \<subseteq> set (players r)" by (simp add: AList.delete_eq)
  with inv show "\<forall>(k, q) \<in> set (AList.delete p (players r)). p_id q = k"
    by (auto simp: room_inv_def)
  show "length (AList.delete p (players r)) \<le> MAX_PLAYERS"
    using inv length_delete_le [of p "players r"] by (simp add: room_inv_def)
qed

lemma togglePlayerReady_inv: "room_inv r \<Longrightarrow> room_inv (togglePlayerReady r p)"
proof (cases "map_of (players r) p")
  case None
  assume "room_inv r"
  with None show ?thesis by (simp add: togglePlayerReady_def)
next
  case (Some q)
  assume inv: "room_inv r"
  have "p_id q = p" using inv Some by (auto simp: room_inv_def dest: map_of_SomeD)
  have "room_inv (r\<lparr>players := AList.update p (toggleReady q) (players r)\<rparr>)"
  proof (rule room_inv_roster [OF inv])
    show "distinct (map fst (AList.update p (toggleReady q) (players r)))"
      using inv by (simp add: room_inv_def distinct_update)
    show "\<forall>(k, x) \<in> set (AList.update p (toggleReady q) (players r)). p_id x = k"
      using inv \<open>p_id q = p\<close> by (intro update_ids) (auto simp: room_inv_def toggleReady_def)
    show "length (AList.update p (toggleReady q) (players r)) \<le> MAX_PLAYERS"
      using inv Some by (auto simp: room_inv_def length_update dest: map_of_SomeD intro: rev_image_eqI)
  qed
  with Some show ?thesis by (simp add: togglePlayerReady_def)
qed

lemma startGame_inv: "room_inv r \<Longrightarrow> room_inv (snd (startGame r so rw rt sh))"
  by (rule room_inv_managers, assumption)
     (auto simp: startGame_def assignRoles_def Let_def room_inv_def new_turn_manager_inv
        split: option.splits sum.splits prod.splits)

lemma startDrawing_inv: "room_inv r \<Longrightarrow> room_inv (snd (startDrawing r))"
  by (rule room_inv_managers, assumption) (auto simp: startDrawing_def room_inv_def)

lemma startVoting_inv:
  "room_inv r \<Longrightarrow> pred_option tm_inv (turnManager r') \<Longrightarrow> players r' = players r \<Longrightarrow>
   votingManager r' = votingManager r \<Longrightarrow> room_inv (snd (startVoting r'))"
  by (rule room_inv_managers, assumption)
     (auto simp: startVoting_def room_inv_def new_voting_manager_inv split: option.splits)

lemma submitStroke_inv: "room_inv r \<Longrightarrow> room_inv (snd (submitStroke r p st))"
proof -
  assume inv: "room_inv r"
  show ?thesis
  proof (cases "phase r = DRAWING \<and> turnManager r \<noteq> None")
    case False
    with inv show ?thesis by (auto simp: submitStroke_def)
  next
    case True
    then obtain tm where tm: "turnManager r = Some tm" by auto
    let ?r' = "r\<lparr>strokes := strokes r @ [st], turnManager := Some (advanceTurn tm)\<rparr>"
    have t': "pred_option tm_inv (turnManager ?r')"
      using inv tm by (simp add: room_inv_def tm_inv_advanceTurn)
    then have "room_inv ?r'" using inv by (simp add: room_inv_def)
    moreover have "room_inv (snd (startVoting ?r'))"
      using startVoting_inv [OF inv t'] by simp
    ultimately show ?thesis using True tm inv by (auto simp: submitStroke_def Let_def)
  qed
qed

lemma submitVote_inv: "room_inv r \<Longrightarrow> room_inv (snd (submitVote r v t))"
  by (rule room_inv_managers, assumption)
     (auto simp: submitVote_def room_inv_def split: option.splits sum.splits
        intro: castVote_inv)

lemma submitImposterGuess_inv: "room_inv r \<Longrightarrow> room_inv (snd (submitImposterGuess r w))"
  by (rule room_inv_managers, assumption) (auto simp: submitImposterGuess_def Let_def room_inv_def)

lemma assignRoles_inv: "room_inv r \<Longrightarrow> room_inv (snd (assignRoles r sh))"
  by (rule room_inv_managers, assumption) (auto simp: assignRoles_def Let_def room_inv_def)

lemma calculateScores_inv: "room_inv r \<Longrightarrow> room_inv (snd (calculateScores r))"
proof -
  assume inv: "room_inv r"
  have "room_inv (r\<lparr>players := apply_scores s (players r)\<rparr>)" for s
  proof (rule room_inv_roster [OF inv])
    have ids: "\<forall>(k, p) \<in> set (players r). p_id p = k" using inv by (simp add: room_inv_def)
    note k = apply_scores_keys [OF ids, of s]
    show "distinct (map fst (apply_scores s (players r)))"
      using k inv by (simp add: room_inv_def)
    show "\<forall>(k, p) \<in> set (apply_scores s (players r)). p_id p = k" using k by simp
    show "length (apply_scores s (players r)) \<le> MAX_PLAYERS"
      using k inv by (metis length_map room_inv_def)
  qed
  with inv show ?thesis
    by (auto simp: calculateScores_def Let_def split: option.splits)
qed

lemma room_call_inv: "room_inv r \<Longrightarrow> room_inv (snd (room_call r op))"
proof -
  assume inv: "room_inv r"
  then have "pred_option tm_inv (turnManager r)" by (simp add: room_inv_def)
  from startVoting_inv [OF inv this refl refl] inv show ?thesis
    by (cases op)
       (simp_all add: thrown_def addPlayer_inv removePlayer_inv togglePlayerReady_inv startGame_inv
          assignRoles_inv startDrawing_inv submitStroke_inv submitVote_inv submitImposterGuess_inv
          calculateScores_inv)
qed

lemma new_room_inv: "room_inv (new_room rnd)"
  by (simp add: room_inv_def new_room_def MAX_PLAYERS_def)

lemma run_room_reachable: "room_reachable r \<Longrightarrow> room_reachable (run_room r ops)"
  by (induction ops arbitrary: r) (simp_all add: run_room_def room_reachable.step)

lemma example_lobby_reachable: "room_reachable example_lobby"
  unfolding example_lobby_def by (intro run_room_reachable room_reachable.created)

lemma example_lobby_eq:
  "players example_lobby =
     [(''a'', (new_player ''a'' ''Ann'' 0 True)\<lparr>p_isReady := True\<rparr>),
      (''b'', (new_player ''b'' ''Bob'' 1 False)\<lparr>p_isReady := True\<rparr>),
      (''c'', (new_player ''c'' ''Cy'' 2 False)\<lparr>p_isReady := True\<rparr>)] \<and>
   phase example_lobby = LOBBY \<and> wordBank example_lobby = new_word_bank \<and>
   strokes example_lobby = [] \<and> turnManager example_lobby = None \<and> votingManager example_lobby = None"
  by (simp add: example_lobby_def run_room_def thrown_def addPlayer_def togglePlayerReady_def
      new_room_def toggleReady_def MAX_PLAYERS_def new_player_def Let_def)

lemma startGame_error:
  assumes "startGame r so rw rt sh = (Inl e, r')" and "r' \<noteq> r"
  shows "\<exists>s. so = Some s \<and> e = CategoryNotFound (category s) \<and> r' = r\<lparr>settings := s\<rparr>"
  using assms
  by (auto simp: startGame_def Let_def getRandomWord_unknown
      split: if_splits option.splits sum.splits prod.splits)

lemma submitStroke_error:
  assumes "submitStroke r p st = (Inl e, r')" and "r' \<noteq> r"
  shows "e = TypeErrorUndefined"
  using assms
  by (auto simp: submitStroke_def startVoting_def Let_def split: if_splits option.splits)

lemma example_unknown_category:
  "startGame example_lobby (Some (DEFAULT_SETTINGS\<lparr>category := ''colours''\<rparr>)) rw rt sh =
     (Inl (CategoryNotFound ''colours''), example_lobby\<lparr>settings := DEFAULT_SETTINGS\<lparr>category := ''colours''\<rparr>\<rparr>)"
proof -
  have "getRandomWord new_word_bank ''colours'' rw = Inl (CategoryNotFound ''colours'')"
    by (simp add: getRandomWord_unknown getCategories_def categories_new_word_bank)
  then show ?thesis
    by (simp add: startGame_def example_lobby_eq MIN_PLAYERS_def new_player_def DEFAULT_SETTINGS_def
        str_truthy_def)
qed

lemma example_voted_scores:
  "calculateScores example_voted = (Inr (projr (fst (calculateScores example_voted))), snd (calculateScores example_voted)) \<and>
   map_of (rr_scores (projr (fst (calculateScores example_voted)))) ''a'' = Some 1"
  by (simp add: calculateScores_def example_voted_def example_drawing_def getResult_def Let_def
      isCaughtPlayerImposter_def calculate_def init_scores_def js_add_to_def tally_def max_step_def)

lemma generateRoomCode_zero: "generateRoomCode (\<lambda>_. 0) = ''AAAA''"
  by (simp add: generateRoomCode_def upt_rec)

lemma generateRoomCode_half: "generateRoomCode (\<lambda>_. 1 / 2) = ''NNNN''"
  by (simp add: generateRoomCode_def upt_rec)

subsection \<open>Properties of the room coordinator\<close>

text \<open>
  C15: a successful \<open>startGame\<close> on a consistent room of at least three players
  moves to ROLE_REVEAL with the roster unchanged and no strokes, assigns a role to every
  player in roster order, makes exactly one imposter (two from six players on), gives every
  artist the secret word and no imposter any word, and creates a turn manager at round 1,
  turn 0 whose order is a permutation of the roster.
\<close>

theorem startGame_roles:
  assumes inv: "room_inv r" and n: "MIN_PLAYERS \<le> length (players r)"
    and sh: "mset sh = mset (map fst (players r))" and rt: "\<forall>k. 0 \<le> rt k \<and> rt k < 1"
    and ok: "startGame r so rw rt sh = (Inr (), r')"
  shows "phase r' = ROLE_REVEAL \<and> players r' = players r \<and> strokes r' = [] \<and>
         map ra_playerId (roleAssignments r') = map fst (players r) \<and>
         length (filter (\<lambda>a. ra_role a = Imposter) (roleAssignments r')) =
           (if 6 \<le> length (players r) then 2 else 1) \<and>
         (\<forall>a \<in> set (roleAssignments r'). ra_word a = (if ra_role a = Imposter then None else secretWord r')) \<and>
         (\<exists>tm. turnManager r' = Some tm \<and> mset (turnOrder tm) = mset (map fst (players r)) \<and>
               turnIndex tm = 0 \<and> currentRound tm = 1)"
proof -
  obtain r2 where p2: "players r2 = players r"
    and tm2: "turnManager r2 = Some (new_turn_manager rt (map fst (players r)) (rounds (settings r2)))"
    and r': "r' = r2\<lparr>roleAssignments := fst (assignRoles r2 sh), strokes := [],
                   imposterGuessCorrect := None, phase := ROLE_REVEAL\<rparr>"
    using startGame_Inr [OF ok] by blast
  have d: "distinct (map fst (players r2))" using inv p2 by (simp add: room_inv_def)
  have ne: "players r2 \<noteq> []" using n p2 by (auto simp: MIN_PLAYERS_def)
  have imp: "length (filter (\<lambda>a. ra_role a = Imposter) (fst (assignRoles r2 sh))) =
               (if 6 \<le> length (players r2) then 2 else 1)"
    using assignRoles_imposters [OF d _ ne] sh p2 by simp
  show ?thesis
    using assignRoles_shape [of r2 sh] imp p2 tm2 r' mset_shuffle [OF rt, of "map fst (players r)"]
    by (simp add: new_turn_manager_def del: mset_map)
qed

theorem startGame_roles_witness:
  "room_inv example_lobby \<and> MIN_PLAYERS \<le> length (players example_lobby) \<and>
   mset [''b'', ''c'', ''a''] = mset (map fst (players example_lobby)) \<and>
   (\<forall>k. 0 \<le> (\<lambda>_. 0::real) k \<and> (\<lambda>_. 0::real) k < 1) \<and>
   length (filter (\<lambda>a. ra_role a = Imposter)
     (roleAssignments (snd (startGame example_lobby (Some (DEFAULT_SETTINGS\<lparr>customWord := Some ''cat''\<rparr>))
        0 (\<lambda>_. 0) [''b'', ''c'', ''a''])))) = 1"
proof -
  let ?so = "Some (DEFAULT_SETTINGS\<lparr>customWord := Some ''cat''\<rparr>)"
  have inv: "room_inv example_lobby"
    by (simp add: room_inv_def example_lobby_eq new_player_def MAX_PLAYERS_def)
  have n: "MIN_PLAYERS \<le> length (players example_lobby)" by (simp add: example_lobby_eq MIN_PLAYERS_def)
  have sh: "mset [''b'', ''c'', ''a''] = mset (map fst (players example_lobby))" by (simp add: example_lobby_eq)
  have rt: "\<forall>k. 0 \<le> (\<lambda>_. 0::real) k \<and> (\<lambda>_. 0::real) k < 1" by simp
  have ok: "startGame example_lobby ?so 0 (\<lambda>_. 0) [''b'', ''c'', ''a''] =
            (Inr (), snd (startGame example_lobby ?so 0 (\<lambda>_. 0) [''b'', ''c'', ''a'']))"
    by (simp add: startGame_def example_lobby_eq MIN_PLAYERS_def new_player_def DEFAULT_SETTINGS_def
        str_truthy_def Let_def split: prod.splits)
  show ?thesis using startGame_roles [OF inv n sh rt ok] inv n sh by (simp add: example_lobby_eq)
qed

text \<open>
  C16: from the start of the drawing phase, with R rounds and an imposter assigned, the
  strokes submitted by the players whose turn it is, in turn order, are all accepted,
  appended in order, and the last one (turn n*R) opens the vote among the roster with the
  first imposter as target.
\<close>

lemma drawing_reaches_voting:
  assumes "phase r = DRAWING" and tm: "turnManager r = Some tm" and "turnIndex tm = 0"
    and "currentRound tm = 1" and "totalRounds tm = int R" and ne: "turnOrder tm \<noteq> []"
    and len: "length sts = length (turnOrder tm) * R" and R: "0 < R"
    and imp: "find (\<lambda>a. ra_role a = Imposter) (roleAssignments r) = Some a"
  shows "run_calls (\<lambda>r (p, st). ok_state (submitStroke r p st)) r
           (zip (concat (replicate R (turnOrder tm))) sts) =
         Inr (r\<lparr>strokes := strokes r @ sts,
                turnManager := Some ((advanceTurn ^^ (length (turnOrder tm) * R)) tm),
                votingManager := Some (new_voting_manager (map fst (players r)) (ra_playerId a)),
                phase := VOTING\<rparr>)"
proof -
  let ?ds = "concat (replicate R (turnOrder tm))"
  let ?n = "length (turnOrder tm)"
  define K where "K = ?n * R - 1"
  have nR: "0 < ?n * R" using ne R by simp
  then have K: "K < ?n * R" and SK: "Suc K = ?n * R" by (simp_all add: K_def)
  let ?rK = "r\<lparr>strokes := strokes r @ take K sts, turnManager := Some ((advanceTurn ^^ K) tm)\<rparr>"
  have lds: "length ?ds = ?n * R" by (simp add: length_concat sum_list_replicate mult.commute)
  have pre: "run_calls (\<lambda>r (p, st). ok_state (submitStroke r p st)) r (take K (zip ?ds sts)) = Inr ?rK"
    by (rule drawing_prefix [OF assms(1-7) K])
  have whole: "zip ?ds sts = take K (zip ?ds sts) @ [(?ds ! K, sts ! K)]"
    using K lds len SK by (metis length_zip min.idem take_Suc_conv_app_nth take_all_iff nth_zip order_refl)
  have cur: "getCurrentPlayerId ((advanceTurn ^^ K) tm) = Some (?ds ! K)"
    using current_funpow_start [OF assms(3) ne, of K] nth_concat_replicate [OF K] by simp
  have c: "isComplete ((advanceTurn ^^ Suc K) tm)"
    using isComplete_funpow_start [OF assms(3,4,5) ne, of "Suc K"] SK by simp
  have ts: "take K sts @ [sts ! K] = sts"
    using K len SK by (metis take_Suc_conv_app_nth take_all_iff order_refl)
  have fp: "(advanceTurn ^^ (?n * R)) tm = advanceTurn ((advanceTurn ^^ K) tm)"
    using SK by (metis funpow.simps(2) comp_apply)
  have c': "isComplete (advanceTurn ((advanceTurn ^^ K) tm))"
    using c fp SK by simp
  have "submitStroke ?rK (?ds ! K) (sts ! K) =
          (Inr (), r\<lparr>strokes := strokes r @ sts,
                turnManager := Some ((advanceTurn ^^ (?n * R)) tm),
                votingManager := Some (new_voting_manager (map fst (players r)) (ra_playerId a)),
                phase := VOTING\<rparr>)"
    using submitStroke_current [of ?rK "(advanceTurn ^^ K) tm" "?ds ! K" "sts ! K"] assms(1) cur c' imp
    by (simp add: startVoting_def ts fp Let_def)
  with pre show ?thesis
    by (subst whole) (simp add: run_calls_append ok_state_def)
qed

theorem drawing_reaches_voting_witness:
  "run_calls (\<lambda>r (p, st). ok_state (submitStroke r p st)) example_drawing
     (zip (concat (replicate 2 [''b'', ''c'', ''a''])) (map example_stroke [''b'', ''c'', ''a'', ''b'', ''c'', ''a''])) =
   Inr (example_drawing\<lparr>strokes := map example_stroke [''b'', ''c'', ''a'', ''b'', ''c'', ''a''],
          turnManager := Some ((advanceTurn ^^ 6) \<lparr>turnOrder = [''b'', ''c'', ''a''], currentRound = 1, turnIndex = 0, totalRounds = 2\<rparr>),
          votingManager := Some (new_voting_manager [''a'', ''b'', ''c''] ''b''), phase := VOTING\<rparr>)"
proof -
  let ?tm = "\<lparr>turnOrder = [''b'', ''c'', ''a''], currentRound = 1, turnIndex = 0, totalRounds = 2\<rparr>"
  have d: "phase example_drawing = DRAWING" "turnManager example_drawing = Some ?tm"
    "strokes example_drawing = []"
    "find (\<lambda>a. ra_role a = Imposter) (roleAssignments example_drawing) =
       Some \<lparr>ra_playerId = ''b'', ra_role = Imposter, ra_word = None\<rparr>"
    by (simp_all add: example_drawing_def example_lobby_def run_room_def thrown_def addPlayer_def
        togglePlayerReady_def new_room_def MAX_PLAYERS_def Let_def)
  have p: "map fst (players example_drawing) = [''a'', ''b'', ''c'']"
    by (simp add: example_drawing_def example_lobby_eq)
  show ?thesis
    using drawing_reaches_voting [where r = example_drawing and tm = ?tm and R = 2 and
        sts = "map example_stroke [''b'', ''c'', ''a'', ''b'', ''c'', ''a'']", OF d(1,2) _ _ _ _ _ _ d(4)] d(3) p
    by simp
qed

text \<open>
  C17: every room reachable from a fresh room by the room's operations, in any order and
  whatever they throw, satisfies the room invariant: at most eight players, keyed by their
  ids without repetition, and consistent turn and voting managers.
\<close>

theorem room_reachable_inv: "room_reachable r \<Longrightarrow> room_inv r"
  by (induction rule: room_reachable.induct) (simp_all add: new_room_inv room_call_inv)

theorem room_reachable_inv_witness:
  "room_reachable example_lobby \<and> length (players example_lobby) \<le> MAX_PLAYERS"
  using room_reachable_inv [OF example_lobby_reachable] example_lobby_reachable
  by (simp add: room_inv_def)

text \<open>
  C18: a room operation that throws leaves the room as it found it, with exactly two
  exceptions: \<open>startGame\<close> with new settings whose category is unknown keeps the new
  settings, and the last stroke of the drawing phase, when no imposter is assigned, keeps
  the stroke and the advanced turn.
\<close>

theorem errors_leave_room_unchanged:
  assumes "room_call r op = (Some e, r')" and "r' \<noteq> r"
  shows "(\<exists>s rw rt sh. op = StartGame (Some s) rw rt sh \<and> e = CategoryNotFound (category s) \<and>
            r' = r\<lparr>settings := s\<rparr>) \<or>
         (\<exists>p st. op = SubmitStroke p st \<and> e = TypeErrorUndefined)"
  using assms
proof (cases op)
  case (StartGame so rw rt sh)
  with assms have "startGame r so rw rt sh = (Inl e, r')"
    by (cases "startGame r so rw rt sh") (auto simp: thrown_def split: sum.splits)
  from startGame_error [OF this assms(2)] StartGame show ?thesis by blast
next
  case (SubmitStroke p st)
  with assms have "submitStroke r p st = (Inl e, r')"
    by (cases "submitStroke r p st") (auto simp: thrown_def split: sum.splits)
  from submitStroke_error [OF this assms(2)] SubmitStroke show ?thesis by blast
qed (auto simp: thrown_def addPlayer_def Let_def startDrawing_def startVoting_def submitVote_def
       submitImposterGuess_def calculateScores_def split: if_splits option.splits sum.splits)

theorem errors_leave_room_unchanged_witness:
  "room_call example_lobby (StartGame (Some (DEFAULT_SETTINGS\<lparr>category := ''colours''\<rparr>)) 0 (\<lambda>_. 0) []) =
     (Some (CategoryNotFound ''colours''), example_lobby\<lparr>settings := DEFAULT_SETTINGS\<lparr>category := ''colours''\<rparr>\<rparr>) \<and>
   example_lobby\<lparr>settings := DEFAULT_SETTINGS\<lparr>category := ''colours''\<rparr>\<rparr> \<noteq> example_lobby \<and>
   ((\<exists>s rw rt sh. StartGame (Some (DEFAULT_SETTINGS\<lparr>category := ''colours''\<rparr>)) 0 (\<lambda>_. 0) [] =
       StartGame (Some s) rw rt sh \<and> CategoryNotFound ''colours'' = CategoryNotFound (category s) \<and>
       example_lobby\<lparr>settings := DEFAULT_SETTINGS\<lparr>category := ''colours''\<rparr>\<rparr> = example_lobby\<lparr>settings := s\<rparr>) \<or>
    (\<exists>p st. StartGame (Some (DEFAULT_SETTINGS\<lparr>category := ''colours''\<rparr>)) 0 (\<lambda>_. 0) [] = SubmitStroke p st \<and>
       CategoryNotFound ''colours'' = TypeErrorUndefined))"
proof -
  let ?s = "DEFAULT_SETTINGS\<lparr>category := ''colours''\<rparr>"
  have call: "room_call example_lobby (StartGame (Some ?s) 0 (\<lambda>_. 0) []) =
              (Some (CategoryNotFound ''colours''), example_lobby\<lparr>settings := ?s\<rparr>)"
    by (simp add: thrown_def example_unknown_category)
  have ne: "example_lobby\<lparr>settings := ?s\<rparr> \<noteq> example_lobby"
  proof
    assume "example_lobby\<lparr>settings := ?s\<rparr> = example_lobby"
    then have "settings example_lobby = ?s" by (metis room.select_convs(4) room.surjective room.update_convs(4))
    then show False
      by (simp add: example_lobby_def run_room_def thrown_def addPlayer_def togglePlayerReady_def
          new_room_def DEFAULT_SETTINGS_def MAX_PLAYERS_def Let_def)
  qed
  from errors_leave_room_unchanged [OF call ne] call ne show ?thesis by (simp only: simp_thms)
qed

text \<open>
  C19: \<open>calculateScores\<close> keeps the roster and its order and adds to each player's
  score exactly the points the round's score map gives that player (nothing to a player
  the map does not name).
\<close>

theorem calculateScores_adds_points:
  assumes "calculateScores r = (Inr res, r')"
  shows "map fst (players r') = map fst (players r) \<and>
         (\<forall>k p. map_of (players r) k = Some p \<longrightarrow>
            map_of (players r') k =
              Some (p\<lparr>p_score := p_score p + (case map_of (rr_scores res) k of None \<Rightarrow> 0 | Some v \<Rightarrow> v)\<rparr>))"
proof -
  obtain vm imp where vm: "votingManager r = Some vm"
    and imp: "find (\<lambda>a. ra_role a = Imposter) (roleAssignments r) = Some imp"
    using assms by (auto simp: calculateScores_def Let_def split: option.splits)
  obtain inp where res: "rr_scores res = calculate inp"
    and r': "r' = r\<lparr>players := apply_scores (calculate inp) (players r)\<rparr>"
    using assms vm imp by (auto simp: calculateScores_def Let_def)
  have keys: "map fst (players r') = map fst (players r)"
  proof -
    have "map fst (apply_scores s ps) = map fst ps" for s ps
    proof (induction s arbitrary: ps)
      case Nil then show ?case by (simp add: apply_scores_def)
    next
      case (Cons kv s)
      then show ?case
        by (cases kv) (auto simp: apply_scores_def map_fst_update js_set_add_def map_of_eq_None_iff
            split: option.splits dest!: map_of_SomeD intro: rev_image_eqI)
    qed
    then show ?thesis using r' by simp
  qed
  show ?thesis
    using keys map_of_apply_scores [OF distinct_calculate [of inp]] res r'
    by (auto simp: addPoints_def split: option.splits)
qed

theorem calculateScores_adds_points_witness:
  "calculateScores example_voted = (Inr (projr (fst (calculateScores example_voted))), snd (calculateScores example_voted)) \<and>
   map_of (players (snd (calculateScores example_voted))) ''a'' =
     Some ((new_player ''a'' ''Ann'' 0 True)\<lparr>p_isReady := True, p_score := 1\<rparr>)"
proof -
  have p: "map_of (players example_voted) ''a'' = Some ((new_player ''a'' ''Ann'' 0 True)\<lparr>p_isReady := True\<rparr>)"
    by (simp add: example_voted_def example_drawing_def example_lobby_eq)
  have ex: "calculateScores example_voted = (Inr (projr (fst (calculateScores example_voted))), snd (calculateScores example_voted))"
    using example_voted_scores by blast
  show ?thesis
    using calculateScores_adds_points [OF ex] p example_voted_scores
    by (simp add: new_player_def)
qed

text \<open>
  C20: a stroke is accepted only in the drawing phase and only from the player whose turn
  it is; it is appended to the strokes and the turn advances.
\<close>

theorem submitStroke_only_active:
  assumes "submitStroke r p st = (Inr (), r')"
  shows "phase r = DRAWING \<and> strokes r' = strokes r @ [st] \<and>
         (\<exists>tm. turnManager r = Some tm \<and> getCurrentPlayerId tm = Some p \<and>
               turnManager r' = Some (advanceTurn tm))"
  using assms
  by (auto simp: submitStroke_def startVoting_def Let_def split: if_splits option.splits)

theorem submitStroke_only_active_witness:
  "submitStroke example_drawing ''b'' (example_stroke ''b'') =
     (Inr (), snd (submitStroke example_drawing ''b'' (example_stroke ''b''))) \<and>
   strokes (snd (submitStroke example_drawing ''b'' (example_stroke ''b''))) = [example_stroke ''b'']"
proof -
  have ok: "submitStroke example_drawing ''b'' (example_stroke ''b'') =
     (Inr (), snd (submitStroke example_drawing ''b'' (example_stroke ''b'')))"
    by (simp add: submitStroke_def example_drawing_def example_lobby_eq getCurrentPlayerId_def
        advanceTurn_def isComplete_def Let_def)
  have "strokes example_drawing = []"
    by (simp add: example_drawing_def example_lobby_eq)
  with submitStroke_only_active [OF ok] ok show ?thesis by simp
qed

text \<open>
  C33: with \<open>Math.random()\<close> in [0, 1) the room code has exactly four characters, each
  an uppercase letter A to Z.
\<close>

theorem generateRoomCode_bounds:
  assumes "\<forall>i. 0 \<le> rnd i \<and> rnd i < 1"
  shows "length (generateRoomCode rnd) = 4 \<and> set (generateRoomCode rnd) \<subseteq> set ''ABCDEFGHIJKLMNOPQRSTUVWXYZ''"
proof -
  let ?chars = "''ABCDEFGHIJKLMNOPQRSTUVWXYZ''"
  have k: "nat \<lfloor>rnd i * real (length ?chars)\<rfloor> < length ?chars" for i
  proof -
    have "rnd i * 26 < 26" and "0 \<le> rnd i * 26" using assms by (auto simp: mult_nonneg_nonneg)
    then show ?thesis by (simp add: nat_less_iff floor_less_iff)
  qed
  have eq: "generateRoomCode rnd = map (\<lambda>i. ?chars ! nat \<lfloor>rnd i * real (length ?chars)\<rfloor>) [0..<4]"
    unfolding generateRoomCode_def Let_def by (rule concat_map_guarded) (rule k)
  have m: "\<forall>i. ?chars ! nat \<lfloor>rnd i * real (length ?chars)\<rfloor> \<in> set ?chars"
    using k nth_mem by blast
  have "set (generateRoomCode rnd) \<subseteq> set ?chars"
    unfolding eq by (simp only: set_map image_subset_iff) (blast intro: m [rule_format])
  moreover have "length (generateRoomCode rnd) = 4" unfolding eq by simp
  ultimately show ?thesis by blast
qed

theorem generateRoomCode_bounds_witness:
  "(\<forall>i. 0 \<le> (\<lambda>_. 1 / 2 :: real) i \<and> (\<lambda>_. 1 / 2 :: real) i < 1) \<and>
   length (generateRoomCode (\<lambda>_. 1 / 2)) = 4 \<and>
   set (generateRoomCode (\<lambda>_. 1 / 2)) \<subseteq> set ''ABCDEFGHIJKLMNOPQRSTUVWXYZ''"
proof -
  have h: "\<forall>i. 0 \<le> (\<lambda>_. 1 / 2 :: real) i \<and> (\<lambda>_. 1 / 2 :: real) i < 1" by simp
  show ?thesis using generateRoomCode_bounds [OF h] h by blast
qed

text \<open>
  C34: a player added to a room gets the palette colour at the room's colour counter
  modulo 8 (the double remainder of the source is floored modulo), the counter moves on by
  one, and the player is in the roster under its own id.
\<close>

theorem addPlayer_colour:
  assumes "addPlayer r u n h = (Inr p, r')"
  shows "p_color p = PLAYER_COLORS ! nat (colorIndex r mod 8) \<and> p_color p \<in> set PLAYER_COLORS \<and>
         colorIndex r' = colorIndex r + 1 \<and> p_id p = u \<and> map_of (players r') u = Some p"
proof -
  have r: "0 \<le> colorIndex r mod 8" and "colorIndex r mod 8 < 8" by simp_all
  then have "nat (colorIndex r mod 8) < length PLAYER_COLORS" by simp
  then show ?thesis using assms
    by (auto simp: addPlayer_def Let_def new_player_def normalizedIndex_eq update_conv' split: if_splits)
qed

theorem addPlayer_colour_witness:
  "\<exists>p r'. addPlayer example_lobby ''d'' ''Dee'' False = (Inr p, r') \<and> p_color p = ''#F39C12'' \<and>
          colorIndex r' = 4"
proof -
  have c: "colorIndex example_lobby = 3"
    by (simp add: example_lobby_def run_room_def thrown_def addPlayer_def togglePlayerReady_def
        new_room_def MAX_PLAYERS_def Let_def)
  have "\<exists>p r'. addPlayer example_lobby ''d'' ''Dee'' False = (Inr p, r')"
    by (simp add: addPlayer_def example_lobby_eq MAX_PLAYERS_def Let_def)
  then obtain p r' where a: "addPlayer example_lobby ''d'' ''Dee'' False = (Inr p, r')" by blast
  show ?thesis using addPlayer_colour [OF a] a c by (auto simp: PLAYER_COLORS_def)
qed



end
