(* ===== verification/Router.thy ===== *)
theory Router
  imports GameRoom
begin

text \<open>
  The message router (\<open>src/server/src/messages.ts\<close>, \<open>handleMessage\<close>).  The router
  owns the two maps of the server, \<open>rooms\<close> (room code to room) and \<open>playerRooms\<close>
  (player id to room code), and mutates the rooms it finds there.  A room is an object:
  the map holds a reference to it, and so does every role-reveal timer that
  \<open>START_GAME\<close> and \<open>NEXT_ROUND\<close> schedule.  The model therefore keeps the rooms in an
  explicit heap (\<open>heap\<close>, reference to room) and \<open>rooms\<close> maps a code to a reference.
  A pending timer is the reference of its room, the code it broadcasts to, and the
  connection whose \<open>broadcast\<close> function it captured.

  \<open>send\<close> and \<open>broadcast\<close> are the router's only effects besides the state; a call of
  \<open>handleMessage\<close> returns the messages in the order sent, each with its addressee
  (\<open>broadcast\<close> addresses every player of the room that \<open>rooms.get(code)\<close> returns at
  the moment of the call).  The \<open>try\<close>/\<open>catch\<close> around the handler turns a thrown
  error into an \<open>ERROR\<close> message to the sender, if the connection has a player id;
  what the handler wrote before the throw stays.  The random draws of a message
  (the new player's UUID, the room code, the word, the turn shuffle and the imposter
  sort) are the record \<open>entropy\<close>.
\<close>

record server =
  heap :: "(nat \<times> room) list"
  next_ref :: nat
  rooms :: "(room_code \<times> nat) list"
  playerRooms :: "(pid \<times> room_code) list"
  timers :: "(nat \<times> room_code \<times> nat) list"

record entropy =
  en_uuid :: pid
  en_code :: "nat \<Rightarrow> real"
  en_word :: real
  en_turns :: "nat \<Rightarrow> real"
  en_shuffled :: "pid list"

text \<open>The return value \<open>{ playerId?, roomCode? }\<close> of \<open>handleMessage\<close>.\<close>

type_synonym reply = "pid option \<times> room_code option"

type_synonym outbox = "(pid \<times> server_message) list"

type_synonym 's handled = "(error + reply) \<times> 's \<times> outbox"

definition no_reply :: reply where
  "no_reply = (None, None)"

definition get_room :: "'a server_scheme \<Rightarrow> room_code \<Rightarrow> (nat \<times> room) option" where
  "get_room st code =
     (case map_of (rooms st) code of
        None \<Rightarrow> None
      | Some a \<Rightarrow> (case map_of (heap st) a of None \<Rightarrow> None | Some r \<Rightarrow> Some (a, r)))"

definition put_room :: "'a server_scheme \<Rightarrow> nat \<Rightarrow> room \<Rightarrow> 'a server_scheme" where
  "put_room st a r = st\<lparr>heap := AList.update a r (heap st)\<rparr>"

text \<open>\<open>broadcast(roomCode, m)\<close>: one copy for every player of the room under that code
  now, in roster order; nothing when there is no such room.\<close>

definition broadcast :: "'a server_scheme \<Rightarrow> room_code \<Rightarrow> server_message \<Rightarrow> outbox" where
  "broadcast st code m =
     (case get_room st code of None \<Rightarrow> [] | Some (a, r) \<Rightarrow> map (\<lambda>(p, _). (p, m)) (players r))"

text \<open>The guard that starts most cases: a player id, a room code for it, a room for
  the code; otherwise an \<open>ERROR\<close> to the player (or nothing without a player id).\<close>

definition in_room ::
  "pid option \<Rightarrow> 'a server_scheme \<Rightarrow> (pid \<Rightarrow> room_code \<Rightarrow> nat \<Rightarrow> room \<Rightarrow> 'a server_scheme handled) \<Rightarrow>
   'a server_scheme handled" where
  "in_room playerId st body =
     (case playerId of
        None \<Rightarrow> (Inr no_reply, st, [])
      | Some p \<Rightarrow>
          if p = [] then (Inr no_reply, st, [])
          else case map_of (playerRooms st) p of
            None \<Rightarrow> (Inr no_reply, st, [(p, ERROR ''You are not in a room'')])
          | Some code \<Rightarrow>
              (case get_room st code of
                 None \<Rightarrow> (Inr no_reply, st, [(p, ERROR ''Room not found'')])
               | Some (a, r) \<Rightarrow> body p code a r))"

definition is_host :: "room \<Rightarrow> pid \<Rightarrow> bool" where
  "is_host r p = (case map_of (players r) p of None \<Rightarrow> False | Some pl \<Rightarrow> p_isHost pl)"

text \<open>The \<open>GAME_STARTING\<close> loop of \<open>START_GAME\<close> and \<open>NEXT_ROUND\<close>: one message per
  player in roster order; \<open>getRoleForPlayer\<close> or \<open>turnManager!\<close> may throw in the
  middle, after the messages already sent.\<close>

fun game_starting :: "room \<Rightarrow> pid list \<Rightarrow> outbox \<times> error option" where
  "game_starting r [] = ([], None)"
| "game_starting r (p # ps) =
     (case getRoleForPlayer r p of
        Inl e \<Rightarrow> ([], Some e)
      | Inr a \<Rightarrow>
          (case turnManager r of
             None \<Rightarrow> ([], Some (TypeErrorNull ''getTurnOrder''))
           | Some tm \<Rightarrow>
               let (out, e) = game_starting r ps
               in ((p, GAME_STARTING (ra_role a) (ra_word a) (turnOrder tm) (getPlayerList r) (settings r)) # out, e)))"

definition turn_start :: "room \<Rightarrow> turn_manager \<Rightarrow> server_message" where
  "turn_start r tm = TURN_START (getCurrentPlayerId tm) (currentRound tm) (drawTimeLimit (settings r))"

text \<open>The end of \<open>START_GAME\<close> and \<open>NEXT_ROUND\<close>: store the room, send the roles,
  and schedule the role-reveal timer (\<open>setTimeout(..., ROLE_REVEAL_DURATION)\<close>).\<close>

definition announce_roles ::
  "'a server_scheme \<Rightarrow> room_code \<Rightarrow> nat \<Rightarrow> room \<Rightarrow> nat \<Rightarrow> 'a server_scheme handled" where
  "announce_roles st code a r ws =
     (let st1 = put_room st a r;
          (out, e) = game_starting r (map fst (players r))
      in case e of
           Some err \<Rightarrow> (Inl err, st1, out)
         | None \<Rightarrow> (Inr no_reply, st1\<lparr>timers := timers st1 @ [(a, code, ws)]\<rparr>, out))"

subsection \<open>The cases of \<open>handleMessage\<close>\<close>

definition handle_create :: "string \<Rightarrow> entropy \<Rightarrow> 'a server_scheme \<Rightarrow> 'a server_scheme handled" where
  "handle_create hostName en st =
     (let room0 = new_room (en_code en);
          a = next_ref st;
          code = roomCode room0;
          st1 = st\<lparr>heap := AList.update a room0 (heap st), next_ref := Suc a,
                   rooms := AList.update code a (rooms st)\<rparr>;
          (res, room1) = addPlayer room0 (en_uuid en) hostName True;
          st2 = put_room st1 a room1
      in case res of
           Inl e \<Rightarrow> (Inl e, st2, [])
         | Inr pl \<Rightarrow>
             (Inr (Some (p_id pl), Some code),
              st2\<lparr>playerRooms := AList.update (p_id pl) code (playerRooms st2)\<rparr>,
              [(p_id pl, GAME_CREATED code pl)]))"

definition handle_join ::
  "pid option \<Rightarrow> room_code \<Rightarrow> string \<Rightarrow> entropy \<Rightarrow> 'a server_scheme \<Rightarrow> 'a server_scheme handled" where
  "handle_join playerId code name en st =
     (case get_room st code of
        None \<Rightarrow> (Inr no_reply, st,
                 if str_truthy playerId then [(the playerId, ERROR ''Room not found'')] else [])
      | Some (a, r) \<Rightarrow>
          (case addPlayer r (en_uuid en) name False of
             (Inl e, r1) \<Rightarrow> (Inl e, put_room st a r1, [])
           | (Inr pl, r1) \<Rightarrow>
               let st1 = put_room st a r1;
                   st2 = st1\<lparr>playerRooms := AList.update (p_id pl) code (playerRooms st1)\<rparr>
               in (Inr (Some (p_id pl), Some code), st2,
                   broadcast st2 code (PLAYER_JOINED pl (getPlayerList r1)))))"

definition handle_ready :: "pid option \<Rightarrow> 'a server_scheme \<Rightarrow> 'a server_scheme handled" where
  "handle_ready playerId st =
     in_room playerId st (\<lambda>p code a r.
       let r1 = togglePlayerReady r p; st1 = put_room st a r1
       in (Inr no_reply, st1,
           case map_of (players r1) p of
             None \<Rightarrow> []
           | Some pl \<Rightarrow> broadcast st1 code (PLAYER_READY_UPDATE p (p_isReady pl) (getPlayerList r1))))"

definition handle_start ::
  "pid option \<Rightarrow> game_settings option \<Rightarrow> entropy \<Rightarrow> nat \<Rightarrow> 'a server_scheme \<Rightarrow> 'a server_scheme handled" where
  "handle_start playerId so en ws st =
     in_room playerId st (\<lambda>p code a r.
       if \<not> is_host r p then (Inr no_reply, st, [(p, ERROR ''Only the host can start the game'')])
       else case startGame r so (en_word en) (en_turns en) (en_shuffled en) of
              (Inl e, r1) \<Rightarrow> (Inl e, put_room st a r1, [])
            | (Inr _, r1) \<Rightarrow> announce_roles st code a r1 ws)"

definition handle_stroke :: "pid option \<Rightarrow> stroke \<Rightarrow> 'a server_scheme \<Rightarrow> 'a server_scheme handled" where
  "handle_stroke playerId st0 st =
     in_room playerId st (\<lambda>p code a r.
       let stroke = st0\<lparr>st_playerId := p\<rparr>
       in case submitStroke r p stroke of
            (Inl e, r1) \<Rightarrow> (Inl e, put_room st a r1, [])
          | (Inr _, r1) \<Rightarrow>
              let st1 = put_room st a r1
              in (Inr no_reply, st1,
                  broadcast st1 code (STROKE_BROADCAST stroke) @
                  (if phase r1 = VOTING then broadcast st1 code (VOTING_START (getPlayerList r1))
                   else case turnManager r1 of
                          None \<Rightarrow> []
                        | Some tm \<Rightarrow> if \<not> isComplete tm then broadcast st1 code (turn_start r1 tm) else [])))"

text \<open>The end of a round: the scores are applied and the room shows the scoreboard.\<close>

definition finish_round :: "'a server_scheme \<Rightarrow> room_code \<Rightarrow> nat \<Rightarrow> room \<Rightarrow> 'a server_scheme handled" where
  "finish_round st code a r =
     (case calculateScores r of
        (Inl e, r1) \<Rightarrow> (Inl e, put_room st a r1, [])
      | (Inr result, r1) \<Rightarrow>
          let st1 = put_room st a (r1\<lparr>phase := SCOREBOARD\<rparr>)
          in (Inr no_reply, st1, broadcast st1 code (ROUND_RESULT result)))"

definition handle_vote :: "pid option \<Rightarrow> pid \<Rightarrow> 'a server_scheme \<Rightarrow> 'a server_scheme handled" where
  "handle_vote playerId votedPlayerId st =
     in_room playerId st (\<lambda>p code a r.
       case submitVote r p votedPlayerId of
         (Inl e, r1) \<Rightarrow> (Inl e, put_room st a r1, [])
       | (Inr _, r1) \<Rightarrow>
           let st1 = put_room st a r1;
               out1 = broadcast st1 code (VOTE_CAST p)
           in if \<not> allVotesIn r1 then (Inr no_reply, st1, out1)
              else case resolveVotes r1 of
                Inl e \<Rightarrow> (Inl e, st1, out1)
              | Inr vr \<Rightarrow>
                  let out2 = out1 @ broadcast st1 code (VOTE_RESULT (vr_votes vr) (vr_caughtPlayerId vr) (vr_isTie vr))
                  in if (case votingManager r1 of None \<Rightarrow> False | Some vm \<Rightarrow> isCaughtPlayerImposter vm)
                     then (case find (\<lambda>x. ra_role x = Imposter) (roleAssignments r1) of
                             None \<Rightarrow> (Inl TypeErrorUndefined, st1, out2)
                           | Some imp \<Rightarrow>
                               let st2 = put_room st1 a (r1\<lparr>phase := IMPOSTER_GUESS\<rparr>)
                               in (Inr no_reply, st2,
                                   out2 @ broadcast st2 code (IMPOSTER_GUESS_PHASE (ra_playerId imp))))
                     else (case finish_round st1 code a r1 of
                             (res, st2, out3) \<Rightarrow> (res, st2, out2 @ out3)))"

definition handle_guess :: "pid option \<Rightarrow> string \<Rightarrow> 'a server_scheme \<Rightarrow> 'a server_scheme handled" where
  "handle_guess playerId word st =
     in_room playerId st (\<lambda>p code a r.
       case submitImposterGuess r word of
         (Inl e, r1) \<Rightarrow> (Inl e, put_room st a r1, [])
       | (Inr _, r1) \<Rightarrow> finish_round st code a r1)"

text \<open>\<open>REQUEST_TIMEOUT\<close> and \<open>CANCEL_TIMEOUT\<close> fail silently, without an error message.\<close>

definition handle_timeout :: "bool \<Rightarrow> pid option \<Rightarrow> 'a server_scheme \<Rightarrow> 'a server_scheme handled" where
  "handle_timeout request playerId st =
     (if \<not> str_truthy playerId then (Inr no_reply, st, [])
      else let p = the playerId in
        case map_of (playerRooms st) p of
          None \<Rightarrow> (Inr no_reply, st, [])
        | Some code \<Rightarrow>
            (case get_room st code of
               None \<Rightarrow> (Inr no_reply, st, [])
             | Some (a, r) \<Rightarrow>
                 let r1 = r\<lparr>timeoutRequests := (if request then js_set_add p (timeoutRequests r)
                                                else js_set_delete p (timeoutRequests r))\<rparr>;
                     st1 = put_room st a r1
                 in (Inr no_reply, st1, broadcast st1 code (TIMEOUT_UPDATE (timeoutRequests r1)))))"

text \<open>\<open>NEXT_ROUND\<close>: \<open>customWord || new WordBank().getRandomWord(category)\<close>, then the
  same steps as \<open>startGame\<close> without its checks of roster size and readiness.\<close>

definition someone_won :: "room \<Rightarrow> bool" where
  "someone_won r = list_ex (\<lambda>(_, pl). winScore (settings r) \<le> p_score pl) (players r)"

definition handle_next_round :: "pid option \<Rightarrow> entropy \<Rightarrow> nat \<Rightarrow> 'a server_scheme \<Rightarrow> 'a server_scheme handled" where
  "handle_next_round playerId en ws st =
     in_room playerId st (\<lambda>p code a r.
       if \<not> is_host r p then (Inr no_reply, st, [(p, ERROR ''Only the host can start the next round'')])
       else if someone_won r
         then (Inr no_reply, st, [(p, ERROR ''Game is over! Use Play Again to return to lobby.'')])
       else
         let word = (if str_truthy (customWord (settings r)) then Inr (customWord (settings r))
                     else getRandomWord new_word_bank (category (settings r)) (en_word en))
         in case word of
              Inl e \<Rightarrow> (Inl e, st, [])
            | Inr w \<Rightarrow>
                let r1 = r\<lparr>secretWord := w,
                           turnManager := Some (new_turn_manager (en_turns en) (map fst (players r))
                                                  (rounds (settings r)))\<rparr>;
                    (assignments, r2) = assignRoles r1 (en_shuffled en);
                    r3 = r2\<lparr>roleAssignments := assignments, strokes := [], votingManager := None,
                            timeoutRequests := [], phase := ROLE_REVEAL\<rparr>
                in announce_roles st code a r3 ws)"

definition handle_play_again :: "pid option \<Rightarrow> 'a server_scheme \<Rightarrow> 'a server_scheme handled" where
  "handle_play_again playerId st =
     in_room playerId st (\<lambda>p code a r.
       if \<not> is_host r p then (Inr no_reply, st, [(p, ERROR ''Only the host can restart the game'')])
       else
         let r1 = r\<lparr>phase := LOBBY, strokes := [], turnManager := None, votingManager := None,
                    players := map (\<lambda>(k, pl). (k, pl\<lparr>p_isReady := False, p_score := 0\<rparr>)) (players r)\<rparr>;
             st1 = put_room st a r1
         in (Inr no_reply, st1, broadcast st1 code (RETURN_TO_LOBBY (getPlayerList r1))))"

text \<open>The \<open>switch\<close> of \<open>handleMessage\<close>: \<open>ws\<close> is the connection whose
  \<open>broadcast\<close> the timers capture.\<close>

definition dispatch ::
  "client_message \<Rightarrow> pid option \<Rightarrow> entropy \<Rightarrow> nat \<Rightarrow> 'a server_scheme \<Rightarrow> 'a server_scheme handled" where
  "dispatch msg playerId en ws st =
     (case msg of
        CREATE_GAME hostName \<Rightarrow> handle_create hostName en st
      | JOIN_GAME code name \<Rightarrow> handle_join playerId code name en st
      | PLAYER_READY \<Rightarrow> handle_ready playerId st
      | START_GAME so \<Rightarrow> handle_start playerId so en ws st
      | SUBMIT_STROKE s \<Rightarrow> handle_stroke playerId s st
      | SUBMIT_VOTE t \<Rightarrow> handle_vote playerId t st
      | SUBMIT_GUESS w \<Rightarrow> handle_guess playerId w st
      | NEXT_ROUND \<Rightarrow> handle_next_round playerId en ws st
      | REQUEST_TIMEOUT \<Rightarrow> handle_timeout True playerId st
      | CANCEL_TIMEOUT \<Rightarrow> handle_timeout False playerId st
      | PLAY_AGAIN \<Rightarrow> handle_play_again playerId st
      | OTHER_MESSAGE \<Rightarrow> (Inr no_reply, st, []))"

text \<open>\<open>handleMessage\<close>: the \<open>switch\<close> inside its \<open>try\<close>/\<open>catch\<close>.\<close>

definition handleMessage ::
  "client_message \<Rightarrow> pid option \<Rightarrow> entropy \<Rightarrow> nat \<Rightarrow> 'a server_scheme \<Rightarrow> reply \<times> 'a server_scheme \<times> outbox" where
  "handleMessage msg playerId en ws st =
     (case dispatch msg playerId en ws st of
        (Inr rep, st1, out) \<Rightarrow> (rep, st1, out)
      | (Inl e, st1, out) \<Rightarrow>
          (no_reply, st1, out @ (if str_truthy playerId then [(the playerId, ERROR (error_message e))] else [])))"

text \<open>The rooms in the heap satisfy the room invariant of \<open>GameRoom\<close>.\<close>

definition heap_inv :: "'a server_scheme \<Rightarrow> bool" where
  "heap_inv st \<longleftrightarrow> (\<forall>(a, r) \<in> set (heap st). room_inv r)"

subsection \<open>The router keeps every room consistent\<close>

lemma get_room_heap: "get_room st code = Some (a, r) \<Longrightarrow> (a, r) \<in> set (heap st)"
  by (auto simp: get_room_def split: option.splits dest: map_of_SomeD)

lemma heap_inv_get_room: "heap_inv st \<Longrightarrow> get_room st code = Some (a, r) \<Longrightarrow> room_inv r"
  by (auto simp: heap_inv_def dest!: get_room_heap)

lemma heap_inv_put_room: "heap_inv st \<Longrightarrow> room_inv r \<Longrightarrow> heap_inv (put_room st a r)"
  using set_update_subset [of a r "heap st"] by (auto simp: heap_inv_def put_room_def)

lemma in_room_state:
  assumes "P st"
    and "\<And>p code a r. get_room st code = Some (a, r) \<Longrightarrow> P (fst (snd (body p code a r)))"
  shows "P (fst (snd (in_room playerId st body)))"
  using assms by (auto simp: in_room_def split: option.splits)


lemma heap_inv_timers [simp]: "heap_inv (st\<lparr>timers := t\<rparr>) = heap_inv st"
  by (simp add: heap_inv_def)

lemma heap_inv_playerRooms [simp]: "heap_inv (st\<lparr>playerRooms := t\<rparr>) = heap_inv st"
  by (simp add: heap_inv_def)

lemma heap_inv_rooms [simp]: "heap_inv (st\<lparr>rooms := t\<rparr>) = heap_inv st"
  by (simp add: heap_inv_def)

lemma room_inv_same_roster:
  "room_inv r \<Longrightarrow> players r' = players r \<Longrightarrow> turnManager r' = turnManager r \<Longrightarrow>
   votingManager r' = votingManager r \<Longrightarrow> room_inv r'"
  by (simp add: room_inv_def)

lemma announce_roles_inv:
  "heap_inv st \<Longrightarrow> room_inv r \<Longrightarrow> heap_inv (fst (snd (announce_roles st code a r ws)))"
  by (auto simp: announce_roles_def Let_def heap_inv_put_room split: prod.splits option.splits)

lemma finish_round_inv:
  assumes "heap_inv st" and "room_inv r"
  shows "heap_inv (fst (snd (finish_round st code a r)))"
proof (cases "calculateScores r")
  case (Pair res r1)
  have i1: "room_inv r1" using calculateScores_inv [OF assms(2)] Pair by simp
  then have "room_inv (r1\<lparr>phase := SCOREBOARD\<rparr>)" by (rule room_inv_same_roster) simp_all
  with i1 Pair show ?thesis
    using assms(1) by (auto simp: finish_round_def Let_def heap_inv_put_room split: sum.splits)
qed

lemma handle_create_inv: "heap_inv st \<Longrightarrow> heap_inv (fst (snd (handle_create n en st)))"
proof -
  assume h: "heap_inv st"
  let ?r0 = "new_room (en_code en)"
  let ?st1 = "st\<lparr>heap := AList.update (next_ref st) ?r0 (heap st), next_ref := Suc (next_ref st),
                 rooms := AList.update (roomCode ?r0) (next_ref st) (rooms st)\<rparr>"
  have "heap_inv ?st1"
    using heap_inv_put_room [OF h new_room_inv, of "next_ref st" "en_code en"]
    by (simp add: put_room_def heap_inv_def)
  then have "heap_inv (put_room ?st1 (next_ref st) (snd (addPlayer ?r0 (en_uuid en) n True)))"
    by (rule heap_inv_put_room) (rule addPlayer_inv [OF new_room_inv])
  then show ?thesis
    by (auto simp: handle_create_def Let_def split: prod.splits sum.splits)
qed


lemma heap_inv_call:
  "heap_inv st \<Longrightarrow> room_inv (snd c) \<Longrightarrow> c = (res, r1) \<Longrightarrow> heap_inv (put_room st a r1)"
  by (auto intro: heap_inv_put_room)

lemma handle_join_inv: "heap_inv st \<Longrightarrow> heap_inv (fst (snd (handle_join pid code n en st)))"
proof (cases "get_room st code")
  case (Some ar)
  assume h: "heap_inv st"
  obtain a r where ar: "ar = (a, r)" by fastforce
  have i: "room_inv (snd (addPlayer r (en_uuid en) n False))"
    using addPlayer_inv heap_inv_get_room [OF h] Some ar by blast
  show ?thesis
    using Some ar h heap_inv_call [OF h i]
    by (auto simp: handle_join_def Let_def split: prod.splits sum.splits)
qed (simp add: handle_join_def)

lemma handle_ready_inv: "heap_inv st \<Longrightarrow> heap_inv (fst (snd (handle_ready pid st)))"
  unfolding handle_ready_def
  by (rule in_room_state) (auto simp: Let_def intro!: heap_inv_put_room togglePlayerReady_inv
      dest: heap_inv_get_room)


lemma handle_start_inv:
  assumes h: "heap_inv st" shows "heap_inv (fst (snd (handle_start pid so en ws st)))"
  unfolding handle_start_def
  apply (rule in_room_state [where P = heap_inv, OF h])
  subgoal for p code a r
    using heap_inv_get_room [OF h, of code a r]
      startGame_inv [of r so "en_word en" "en_turns en" "en_shuffled en"]
    by (auto simp: h announce_roles_inv intro: heap_inv_call [OF h] split: prod.splits sum.splits)
  done

lemma handle_stroke_inv:
  assumes h: "heap_inv st" shows "heap_inv (fst (snd (handle_stroke pid s0 st)))"
  unfolding handle_stroke_def
  apply (rule in_room_state [where P = heap_inv, OF h])
  subgoal for p code a r
    using heap_inv_get_room [OF h, of code a r] submitStroke_inv [of r p "s0\<lparr>st_playerId := p\<rparr>"]
    by (auto simp: Let_def intro: heap_inv_call [OF h] split: prod.splits sum.splits)
  done

lemma handle_guess_inv:
  assumes h: "heap_inv st" shows "heap_inv (fst (snd (handle_guess pid w st)))"
  unfolding handle_guess_def
  apply (rule in_room_state [where P = heap_inv, OF h])
  subgoal for p code a r
    using heap_inv_get_room [OF h, of code a r] submitImposterGuess_inv [of r w]
    by (auto simp: h finish_round_inv intro: heap_inv_call [OF h] split: prod.splits sum.splits)
  done


lemma handle_vote_inv:
  assumes h: "heap_inv st" shows "heap_inv (fst (snd (handle_vote pid t st)))"
  unfolding handle_vote_def
  apply (rule in_room_state [where P = heap_inv, OF h])
  subgoal for p code a r
  proof (cases "submitVote r p t")
    case (Pair res r1)
    assume g: "get_room st code = Some (a, r)"
    have i1: "room_inv r1" using submitVote_inv [OF heap_inv_get_room [OF h g], of p t] Pair by simp
    have h1: "heap_inv (put_room st a r1)" by (rule heap_inv_put_room [OF h i1])
    have i2: "room_inv (r1\<lparr>phase := IMPOSTER_GUESS\<rparr>)" by (rule room_inv_same_roster [OF i1]) simp_all
    obtain x1 st2 o3 where f: "finish_round (put_room st a r1) code a r1 = (x1, st2, o3)"
      by (metis prod.exhaust)
    have h2: "heap_inv st2" using finish_round_inv [OF h1 i1, of code a] f by simp
    show ?thesis
      using Pair h1 heap_inv_put_room [OF h1 i2] f h2
      by (auto simp: Let_def split: sum.splits option.splits)
  qed
  done


lemma assignRoles_fields [simp]:
  "players (snd (assignRoles r sh)) = players r"
  "turnManager (snd (assignRoles r sh)) = turnManager r"
  "votingManager (snd (assignRoles r sh)) = votingManager r"
  by (simp_all add: assignRoles_def Let_def)

lemma handle_timeout_inv:
  assumes h: "heap_inv st" shows "heap_inv (fst (snd (handle_timeout req pid st)))"
proof -
  have "heap_inv (put_room st a (r\<lparr>timeoutRequests := x\<rparr>))" if "get_room st code = Some (a, r)" for code a r x
    using heap_inv_get_room [OF h that] by (intro heap_inv_put_room [OF h]) (simp add: room_inv_def)
  then show ?thesis using h by (auto simp: handle_timeout_def Let_def split: option.splits)
qed

lemma handle_next_round_inv:
  assumes h: "heap_inv st" shows "heap_inv (fst (snd (handle_next_round pid en ws st)))"
  unfolding handle_next_round_def
  apply (rule in_room_state [where P = heap_inv, OF h])
  subgoal for p code a r
  proof -
    assume g: "get_room st code = Some (a, r)"
    have i: "room_inv r" by (rule heap_inv_get_room [OF h g])
    have "room_inv (r2\<lparr>roleAssignments := x, strokes := [], votingManager := None,
              timeoutRequests := [], phase := ROLE_REVEAL\<rparr>)"
      if "assignRoles (r\<lparr>secretWord := w, turnManager := Some tm\<rparr>) sh = (y, r2)" and "tm_inv tm"
      for x y r2 w tm sh
    proof -
      have "r2 = snd (assignRoles (r\<lparr>secretWord := w, turnManager := Some tm\<rparr>) sh)"
        using that(1) by simp
      then show ?thesis by (intro room_inv_managers [OF i]) (simp_all add: that(2))
    qed
    then show ?thesis
      using h new_turn_manager_inv
      by (auto simp: Let_def announce_roles_inv split: sum.splits prod.splits)
  qed
  done


lemma reset_players_keys:
  "map fst (map (\<lambda>(k, pl). (k, f pl)) ps) = map fst ps"
  by (induction ps) auto

lemma room_inv_play_again:
  assumes i: "room_inv r"
  shows "room_inv (r\<lparr>phase := LOBBY, strokes := [], turnManager := None, votingManager := None,
            players := map (\<lambda>(k, pl). (k, pl\<lparr>p_isReady := False, p_score := 0\<rparr>)) (players r)\<rparr>)"
proof -
  let ?ps = "map (\<lambda>(k, pl). (k, pl\<lparr>p_isReady := False, p_score := 0\<rparr>)) (players r)"
  have "\<forall>(k, pl) \<in> set ?ps. p_id pl = k" using i by (auto simp: room_inv_def)
  moreover have "distinct (map fst ?ps)" using i by (metis reset_players_keys room_inv_def)
  moreover have "length ?ps = length (players r)" by simp
  ultimately show ?thesis using i by (simp add: room_inv_def del: map_map)
qed

lemma handle_play_again_inv:
  assumes h: "heap_inv st" shows "heap_inv (fst (snd (handle_play_again pid st)))"
  unfolding handle_play_again_def
  apply (rule in_room_state [where P = heap_inv, OF h])
  subgoal for p code a r
    using heap_inv_put_room [OF h room_inv_play_again [OF heap_inv_get_room [OF h]], of code a r]
    by (simp add: Let_def h)
  done

lemma handleMessage_state:
  "fst (snd (handleMessage msg pid en ws st)) = fst (snd (dispatch msg pid en ws st))"
  by (simp add: handleMessage_def split: prod.splits sum.splits)

lemma handleMessage_inv:
  assumes h: "heap_inv st" shows "heap_inv (fst (snd (handleMessage msg pid en ws st)))"
  unfolding handleMessage_state dispatch_def
  using h by (cases msg) (simp_all add: handle_create_inv handle_join_inv handle_ready_inv
      handle_start_inv handle_stroke_inv handle_vote_inv handle_guess_inv handle_timeout_inv
      handle_next_round_inv handle_play_again_inv)

subsection \<open>Lemmas on the handlers\<close>

lemma map_of_put_room_same: "map_of (heap (put_room st a r)) a = Some r"
  by (simp add: put_room_def update_conv')

lemma timers_put_room [simp]: "timers (put_room st a r) = timers st"
  by (simp add: put_room_def)

lemma put_room_same: "get_room st code = Some (a, r) \<Longrightarrow> put_room st a r = st"
  by (auto simp: get_room_def put_room_def update_triv split: option.splits)

lemma get_room_put_room:
  "get_room st code = Some (a, r) \<Longrightarrow> get_room (put_room st a r') code = Some (a, r')"
  by (auto simp: get_room_def put_room_def update_conv' split: option.splits)

lemma get_room_timers [simp]: "get_room (st\<lparr>timers := t\<rparr>) code = get_room st code"
  by (simp add: get_room_def split: option.split)

lemma announce_roles_room:
  "get_room st code = Some (a, r) \<Longrightarrow>
   get_room (fst (snd (announce_roles st code a r' ws))) code = Some (a, r')"
  by (auto simp: announce_roles_def Let_def get_room_put_room split: prod.splits option.splits)

lemma broadcast_msg: "(q, m') \<in> set (broadcast st code m) \<Longrightarrow> m' = m"
  by (auto simp: broadcast_def split: option.splits)

lemma play_again_room:
  assumes "map_of (playerRooms st) p = Some code" and "p \<noteq> []" and "get_room st code = Some (a, r)"
    and "is_host r p"
  shows "fst (snd (handleMessage PLAY_AGAIN (Some p) en ws st)) =
           put_room st a (r\<lparr>phase := LOBBY, strokes := [], turnManager := None, votingManager := None,
             players := map (\<lambda>(k, pl). (k, pl\<lparr>p_isReady := False, p_score := 0\<rparr>)) (players r)\<rparr>)"
  using assms by (simp add: handleMessage_state dispatch_def handle_play_again_def in_room_def Let_def)

lemma next_round_state:
  assumes "map_of (playerRooms st) p = Some code" and "p \<noteq> []" and "get_room st code = Some (a, r)"
    and "is_host r p" and "\<not> someone_won r"
    and "(if str_truthy (customWord (settings r)) then Inr (customWord (settings r))
          else getRandomWord new_word_bank (category (settings r)) (en_word en)) = Inr w"
  shows "get_room (fst (snd (handleMessage NEXT_ROUND (Some p) en ws st))) code =
           Some (a, (snd (assignRoles (r\<lparr>secretWord := w,
                      turnManager := Some (new_turn_manager (en_turns en) (map fst (players r)) (rounds (settings r)))\<rparr>)
                      (en_shuffled en)))
                 \<lparr>roleAssignments := fst (assignRoles (r\<lparr>secretWord := w,
                      turnManager := Some (new_turn_manager (en_turns en) (map fst (players r)) (rounds (settings r)))\<rparr>)
                      (en_shuffled en)),
                  strokes := [], votingManager := None, timeoutRequests := [], phase := ROLE_REVEAL\<rparr>)"
  using assms announce_roles_room [OF assms(3)]
  by (simp add: handleMessage_state dispatch_def handle_next_round_def in_room_def Let_def
      split: prod.splits del: if_split)

end
