(* ===== verification/Server.thy ===== *)
theory Server
  imports Router
begin

text \<open>
  The WebSocket server (\<open>src/server/src/index.ts\<close>) around the router: the
  connections with the player id and room code each has been given, the map from
  player id to connection, and the events the Node.js event loop delivers to it, one
  at a time: a new connection, a message (well-formed, or not JSON), the closing of a
  connection, and the firing of the oldest pending role-reveal timer.  All timers
  have the same delay, so they fire in the order they were set; when they fire,
  relative to the messages, is the choice of the event sequence.

  A connection is a number; a \<open>WebSocket\<close> is open exactly while its connection is
  in \<open>conns\<close>.  An event yields the new process state and the messages written to the
  sockets, or an error: an exception thrown in a timer callback is not caught by
  anything and terminates the Node.js process.
\<close>

record conn =
  c_playerId :: "pid option"
  c_roomCode :: "room_code option"

record process = server +
  conns :: "(nat \<times> conn) list"
  next_conn :: nat
  playerToWs :: "(pid \<times> nat) list"

type_synonym delivery = "(nat \<times> server_message) list"

datatype event =
    Connect
  | Receive nat client_message entropy
  | ReceiveMalformed nat string
  | Disconnect nat
  | TimerFires

definition init_process :: process where
  "init_process =
     \<lparr>heap = [], next_ref = 0, rooms = [], playerRooms = [], timers = [],
      conns = [], next_conn = 0, playerToWs = []\<rparr>"

definition is_open :: "process \<Rightarrow> nat \<Rightarrow> bool" where
  "is_open s w \<longleftrightarrow> map_of (conns s) w \<noteq> None"

text \<open>
  \<open>send\<close> writes to the player's socket if it is open; the \<open>wrappedSend\<close> of a
  message event falls back to the socket the message came from when the player has no
  socket yet (\<open>playerToWs.get(playerId) || ws\<close>).  \<open>route s fb out\<close> is either, with
  \<open>fb\<close> the fallback socket.
\<close>

definition route :: "process \<Rightarrow> nat option \<Rightarrow> outbox \<Rightarrow> delivery" where
  "route s fb out =
     concat (map (\<lambda>(p, m). case (case map_of (playerToWs s) p of Some w \<Rightarrow> Some w | None \<Rightarrow> fb) of
                             None \<Rightarrow> []
                           | Some w \<Rightarrow> if is_open s w then [(w, m)] else []) out)"

definition on_connection :: "process \<Rightarrow> process \<times> delivery" where
  "on_connection s =
     (s\<lparr>conns := AList.update (next_conn s) \<lparr>c_playerId = None, c_roomCode = None\<rparr> (conns s),
        next_conn := Suc (next_conn s)\<rparr>, [])"

text \<open>\<open>ws.on('message')\<close>: the router's reply updates the connection record and, for a
  new player, the map from players to sockets.\<close>

definition on_message :: "process \<Rightarrow> nat \<Rightarrow> client_message \<Rightarrow> entropy \<Rightarrow> process \<times> delivery" where
  "on_message s c msg en =
     (case map_of (conns s) c of
        None \<Rightarrow> (s, [])
      | Some cn \<Rightarrow>
          let (rep, s1, out) = handleMessage msg (c_playerId cn) en c s;
              d = route s1 (Some c) out;
              (cn1, s2) = (if str_truthy (fst rep)
                           then (cn\<lparr>c_playerId := fst rep\<rparr>,
                                 s1\<lparr>playerToWs := AList.update (the (fst rep)) c (playerToWs s1)\<rparr>)
                           else (cn, s1));
              cn2 = (if str_truthy (snd rep) then cn1\<lparr>c_roomCode := snd rep\<rparr> else cn1)
          in (s2\<lparr>conns := AList.update c cn2 (conns s2)\<rparr>, d))"

text \<open>A message that is not JSON: \<open>JSON.parse\<close> throws and the handler answers on the
  same socket with the parser's message.\<close>

definition on_malformed :: "process \<Rightarrow> nat \<Rightarrow> string \<Rightarrow> process \<times> delivery" where
  "on_malformed s c err = (s, [(c, ERROR err)])"

text \<open>\<open>ws.on('close')\<close>: the socket is closed from the start of the handler, so the
  \<open>PLAYER_LEFT\<close> broadcast (with the plain \<open>send\<close>) does not reach it.\<close>

definition on_close :: "process \<Rightarrow> nat \<Rightarrow> process \<times> delivery" where
  "on_close s c =
     (case map_of (conns s) c of
        None \<Rightarrow> (s, [])
      | Some cn \<Rightarrow>
          let s0 = s\<lparr>conns := AList.delete c (conns s)\<rparr>
          in if str_truthy (c_playerId cn) \<and> str_truthy (c_roomCode cn) then
               let p = the (c_playerId cn); code = the (c_roomCode cn);
                   (s1, d) = (case get_room s0 code of
                                None \<Rightarrow> (s0, [])
                              | Some (a, r) \<Rightarrow>
                                  let r1 = removePlayer r p;
                                      s' = put_room s0 a r1;
                                      d = route s' None (broadcast s' code (PLAYER_LEFT p (getPlayerList r1)))
                                  in (if players r1 = [] then s'\<lparr>rooms := AList.delete code (rooms s')\<rparr> else s', d))
               in (s1\<lparr>playerRooms := AList.delete p (playerRooms s1),
                      playerToWs := AList.delete p (playerToWs s1)\<rparr>, d)
             else (s0, []))"

text \<open>The role-reveal callback of \<open>START_GAME\<close> and \<open>NEXT_ROUND\<close>:
  \<open>room.startDrawing()\<close> on the room it captured, then \<open>TURN_START\<close> to the room
  now registered under the captured code, through the captured \<open>broadcast\<close>.\<close>

definition on_timer :: "process \<Rightarrow> error + process \<times> delivery" where
  "on_timer s =
     (case timers s of
        [] \<Rightarrow> Inr (s, [])
      | (a, code, w) # rest \<Rightarrow>
          let s0 = s\<lparr>timers := rest\<rparr>
          in case map_of (heap s0) a of
               None \<Rightarrow> Inr (s0, [])
             | Some r \<Rightarrow>
                 (case startDrawing r of
                    (Inl e, _) \<Rightarrow> Inl e
                  | (Inr _, r1) \<Rightarrow>
                      let s1 = put_room s0 a r1
                      in case turnManager r1 of
                           None \<Rightarrow> Inl (TypeErrorNull ''getCurrentPlayerId'')
                         | Some tm \<Rightarrow> Inr (s1, route s1 (Some w) (broadcast s1 code (turn_start r1 tm)))))"

definition step :: "process \<Rightarrow> event \<Rightarrow> error + process \<times> delivery" where
  "step s ev =
     (case ev of
        Connect \<Rightarrow> Inr (on_connection s)
      | Receive c msg en \<Rightarrow> Inr (on_message s c msg en)
      | ReceiveMalformed c err \<Rightarrow> Inr (on_malformed s c err)
      | Disconnect c \<Rightarrow> Inr (on_close s c)
      | TimerFires \<Rightarrow> on_timer s)"

fun run_events :: "process \<Rightarrow> event list \<Rightarrow> error + process \<times> delivery" where
  "run_events s [] = Inr (s, [])"
| "run_events s (ev # evs) =
     (case step s ev of
        Inl e \<Rightarrow> Inl e
      | Inr (s1, d1) \<Rightarrow>
          (case run_events s1 evs of Inl e \<Rightarrow> Inl e | Inr (s2, d2) \<Rightarrow> Inr (s2, d1 @ d2)))"

inductive reachable :: "process \<Rightarrow> bool" where
  init: "reachable init_process"
| step: "reachable s \<Longrightarrow> step s ev = Inr (s', d) \<Longrightarrow> reachable s'"

subsection \<open>Example runs\<close>

text \<open>
  The random draws of the example runs: every \<open>Math.random()\<close> of the room code and
  of the shuffle is 0 (room code AAAA, turn order b, c, a), the word is the first of its
  category, and the imposters are drawn from the order a, b, c.  A lobby of three ready
  players a, b, c on connections 0, 1, 2 (a is the host), and a whole round of it: two
  rounds of strokes in turn order, votes b and c for a and a for b, and a's correct guess.
\<close>

definition example_entropy :: "pid \<Rightarrow> entropy" where
  "example_entropy u = \<lparr>en_uuid = u, en_code = (\<lambda>_. 0), en_word = 0, en_turns = (\<lambda>_. 0),
                        en_shuffled = [''a'', ''b'', ''c'']\<rparr>"

definition example_lobby_events :: "event list" where
  "example_lobby_events =
     [Connect, Connect, Connect,
      Receive 0 (CREATE_GAME ''Ann'') (example_entropy ''a''),
      Receive 1 (JOIN_GAME ''AAAA'' ''Bob'') (example_entropy ''b''),
      Receive 2 (JOIN_GAME ''AAAA'' ''Cy'') (example_entropy ''c''),
      Receive 0 PLAYER_READY (example_entropy ''x''), Receive 1 PLAYER_READY (example_entropy ''x''),
      Receive 2 PLAYER_READY (example_entropy ''x'')]"

definition example_round_events :: "event list" where
  "example_round_events =
     example_lobby_events @
     [Receive 0 (START_GAME None) (example_entropy ''x''), TimerFires] @
     map (\<lambda>c. Receive c (SUBMIT_STROKE (example_stroke ''x'')) (example_entropy ''x'')) [1, 2, 0, 1, 2, 0] @
     [Receive 1 (SUBMIT_VOTE ''a'') (example_entropy ''x''), Receive 2 (SUBMIT_VOTE ''a'') (example_entropy ''x''),
      Receive 0 (SUBMIT_VOTE ''b'') (example_entropy ''x''),
      Receive 0 (SUBMIT_GUESS ''Birthday Party'') (example_entropy ''x'')]"

subsection \<open>Every reachable process keeps its rooms consistent\<close>

lemma heap_inv_process [simp]:
  "heap_inv (s\<lparr>conns := c\<rparr>) = heap_inv s" "heap_inv (s\<lparr>next_conn := n\<rparr>) = heap_inv s"
  "heap_inv (s\<lparr>playerToWs := w\<rparr>) = heap_inv s"
  by (simp_all add: heap_inv_def)

lemma on_message_inv: "heap_inv s \<Longrightarrow> on_message s c msg en = (s', d) \<Longrightarrow> heap_inv s'"
proof (cases "map_of (conns s) c")
  case (Some cn)
  assume h: "heap_inv s" and e: "on_message s c msg en = (s', d)"
  obtain rep s1 out where hm: "handleMessage msg (c_playerId cn) en c s = (rep, s1, out)"
    by (metis prod.exhaust)
  have "heap_inv s1" using handleMessage_inv [OF h, of msg "c_playerId cn" en c] hm by simp
  then show ?thesis using e Some hm by (auto simp: on_message_def Let_def split: prod.splits if_splits)
qed (simp add: on_message_def)

lemma on_close_inv: "heap_inv s \<Longrightarrow> on_close s c = (s', d) \<Longrightarrow> heap_inv s'"
proof -
  assume h: "heap_inv s" and e: "on_close s c = (s', d)"
  let ?s0 = "s\<lparr>conns := AList.delete c (conns s)\<rparr>"
  have h0: "heap_inv ?s0" using h by simp
  have "heap_inv (put_room ?s0 a (removePlayer r p))" if "get_room ?s0 code = Some (a, r)" for code a r p
    using heap_inv_get_room [OF h0 that] by (intro heap_inv_put_room [OF h0] removePlayer_inv)
  then show ?thesis using h0 e
    by (auto simp: on_close_def Let_def split: option.splits prod.splits if_splits)
qed

lemma on_timer_inv: "heap_inv s \<Longrightarrow> on_timer s = Inr (s', d) \<Longrightarrow> heap_inv s'"
proof -
  assume h: "heap_inv s" and t: "on_timer s = Inr (s', d)"
  have "heap_inv (put_room (s\<lparr>timers := rest\<rparr>) a r1)"
    if "map_of (heap s) a = Some r" and "startDrawing r = (res, r1)" for a r rest res r1
  proof -
    have "room_inv r" using h that(1) by (auto simp: heap_inv_def dest: map_of_SomeD)
    then have "room_inv r1" using startDrawing_inv [of r] that(2) by simp
    then show ?thesis using h by (intro heap_inv_put_room) simp_all
  qed
  then show ?thesis using h t
    by (auto simp: on_timer_def Let_def split: list.splits option.splits prod.splits sum.splits)
qed

lemma step_inv: "heap_inv s \<Longrightarrow> step s ev = Inr (s', d) \<Longrightarrow> heap_inv s'"
  by (cases ev) (auto simp: step_def on_connection_def on_malformed_def
      intro: on_timer_inv on_message_inv on_close_inv)

subsection \<open>Runs\<close>

lemma run_events_reachable:
  "reachable s \<Longrightarrow> run_events s evs = Inr (s', d) \<Longrightarrow> reachable s'"
proof (induction evs arbitrary: s d)
  case Nil
  then show ?case by simp
next
  case (Cons ev evs)
  then obtain s1 d1 d2 where st: "step s ev = Inr (s1, d1)" and r: "run_events s1 evs = Inr (s', d2)"
    by (auto split: sum.splits prod.splits)
  have "reachable s1" by (rule reachable.step [OF Cons.prems(1) st])
  then show ?case using Cons.IH r by blast
qed

lemma run_result_iff:
  "(case x of Inl _ \<Rightarrow> False | Inr (s, d) \<Rightarrow> P s d) \<longleftrightarrow> (\<exists>s d. x = Inr (s, d) \<and> P s d)"
  by (auto split: sum.splits)

lemmas server_eval =
  init_process_def step_def on_connection_def on_message_def on_close_def on_timer_def
  on_malformed_def handleMessage_def dispatch_def handle_create_def handle_join_def handle_ready_def
  handle_start_def handle_stroke_def handle_vote_def handle_guess_def handle_timeout_def
  handle_next_round_def handle_play_again_def finish_round_def in_room_def get_room_def put_room_def
  broadcast_def route_def is_open_def is_host_def announce_roles_def turn_start_def someone_won_def
  new_room_def generateRoomCode_zero addPlayer_def new_player_def MAX_PLAYERS_def MIN_PLAYERS_def
  togglePlayerReady_def toggleReady_def startGame_def DEFAULT_SETTINGS_def str_truthy_def
  getRandomWord_def getWordsByCategory_def categories_new_word_bank new_turn_manager_def
  assignRoles_def getRoleForPlayer_def getPlayerList_def startDrawing_def
  example_entropy_def Let_def no_reply_def shuffle_def fy_index_def example_lobby_events_def

lemmas round_eval = server_eval example_round_events_def example_stroke_def submitStroke_def
      getCurrentPlayerId_def advanceTurn_def isComplete_def startVoting_def new_voting_manager_def
      submitVote_def castVote_def allVotesIn_def isComplete_vm_def resolveVotes_def getResult_def
      tally_def max_step_def isCaughtPlayerImposter_def submitImposterGuess_def js_toLowerCase_def
      calculateScores_def apply_scores_def calculate_def init_scores_def js_add_to_def addPoints_def
      words_random_def char_of_def bit_0

subsection \<open>Properties of the server\<close>

text \<open>
  C21: in every state the server can reach from its start by any sequence of events
  (connections, messages, disconnections, timers), every room object it holds satisfies the
  room invariant: at most eight players keyed by their own distinct ids, consistent turn
  and vote managers.
\<close>

theorem reachable_rooms_inv:
  "reachable s \<Longrightarrow> \<forall>(a, r) \<in> set (heap s). room_inv r"
proof -
  assume "reachable s"
  then have "heap_inv s"
  proof (induction rule: reachable.induct)
    case init
    show ?case by (simp add: heap_inv_def init_process_def)
  next
    case (step s ev s' d)
    show ?case by (rule step_inv [OF step.IH step.hyps(2)])
  qed
  then show ?thesis by (simp add: heap_inv_def)
qed

theorem reachable_rooms_inv_witness:
  "case run_events init_process example_lobby_events of
     Inl _ \<Rightarrow> False
   | Inr (s, d) \<Rightarrow> reachable s \<and> heap s \<noteq> [] \<and> list_all (\<lambda>(a, r). room_inv r) (heap s)"
proof -
  have "case run_events init_process example_lobby_events of Inl _ \<Rightarrow> False | Inr (s, d) \<Rightarrow> heap s \<noteq> []"
    by (simp add: server_eval)
  then obtain s d where e: "run_events init_process example_lobby_events = Inr (s, d)" and h: "heap s \<noteq> []"
    unfolding run_result_iff by blast
  have r: "reachable s" by (rule run_events_reachable [OF reachable.init e])
  show ?thesis using e h r reachable_rooms_inv [OF r] by (simp add: list_all_iff)
qed

text \<open>
  C23: every stroke the server broadcasts in answer to a \<open>SUBMIT_STROKE\<close> carries the
  sender's player id, whatever id the client put in it.
\<close>

theorem stroke_broadcast_stamped:
  assumes "(q, STROKE_BROADCAST s) \<in> set (snd (snd (handleMessage (SUBMIT_STROKE s0) (Some p) en ws st)))"
  shows "s = s0\<lparr>st_playerId := p\<rparr>"
  using assms
  by (auto simp: handleMessage_def dispatch_def handle_stroke_def in_room_def Let_def turn_start_def
      split: prod.splits sum.splits option.splits if_splits dest!: broadcast_msg)

theorem stroke_broadcast_stamped_witness:
  "case run_events init_process (example_lobby_events @ [Receive 0 (START_GAME None) (example_entropy ''x''), TimerFires]) of
     Inl _ \<Rightarrow> False
   | Inr (s, d) \<Rightarrow>
       (''a'', STROKE_BROADCAST ((example_stroke ''x'')\<lparr>st_playerId := ''b''\<rparr>))
         \<in> set (snd (snd (handleMessage (SUBMIT_STROKE (example_stroke ''x'')) (Some ''b'') (example_entropy ''x'') 1 s))) \<and>
       (example_stroke ''x'')\<lparr>st_playerId := ''b''\<rparr> = (example_stroke ''x'')\<lparr>st_playerId := ''b''\<rparr>"
proof -
  have "case run_events init_process (example_lobby_events @ [Receive 0 (START_GAME None) (example_entropy ''x''), TimerFires]) of
     Inl _ \<Rightarrow> False
   | Inr (s, d) \<Rightarrow>
       (''a'', STROKE_BROADCAST ((example_stroke ''x'')\<lparr>st_playerId := ''b''\<rparr>))
         \<in> set (snd (snd (handleMessage (SUBMIT_STROKE (example_stroke ''x'')) (Some ''b'') (example_entropy ''x'') 1 s)))"
    by (simp add: round_eval handle_stroke_def)
  then obtain s d where e: "run_events init_process (example_lobby_events @ [Receive 0 (START_GAME None) (example_entropy ''x''), TimerFires]) = Inr (s, d)"
    and m: "(''a'', STROKE_BROADCAST ((example_stroke ''x'')\<lparr>st_playerId := ''b''\<rparr>))
         \<in> set (snd (snd (handleMessage (SUBMIT_STROKE (example_stroke ''x'')) (Some ''b'') (example_entropy ''x'') 1 s)))"
    unfolding run_result_iff by (elim exE conjE) (rule that, assumption+)
  show ?thesis using e m stroke_broadcast_stamped [OF m] by simp
qed

text \<open>
  C24: the role-reveal timer is not cancelled: when the host of a room whose timer is
  pending sends \<open>PLAY_AGAIN\<close>, the timer then fires on a room in LOBBY, \<open>startDrawing\<close>
  throws inside the timer callback, and the exception ends the server process.
\<close>

theorem role_reveal_timer_crash:
  assumes "map_of (conns s) c = Some cn" and "c_playerId cn = Some p" and "p \<noteq> []"
    and "map_of (playerRooms s) p = Some code" and "get_room s code = Some (a, r)" and "is_host r p"
    and "timers s = (a, code', w) # rest"
  shows "\<exists>s' d. step s (Receive c PLAY_AGAIN en) = Inr (s', d) \<and> step s' TimerFires = Inl NotRoleRevealPhase"
proof -
  let ?r1 = "r\<lparr>phase := LOBBY, strokes := [], turnManager := None, votingManager := None,
             players := map (\<lambda>(k, pl). (k, pl\<lparr>p_isReady := False, p_score := 0\<rparr>)) (players r)\<rparr>"
  obtain s' d where m: "on_message s c PLAY_AGAIN en = (s', d)" by fastforce
  have st: "fst (snd (handleMessage PLAY_AGAIN (Some p) en c s)) = put_room s a ?r1"
    using play_again_room [OF assms(4,3,5,6)] .
  obtain rep out where hm: "handleMessage PLAY_AGAIN (Some p) en c s = (rep, put_room s a ?r1, out)"
    using st by (metis prod.collapse)
  have "map_of (heap s') a = Some ?r1 \<and> timers s' = (a, code', w) # rest"
    using m hm assms(1,2,7) by (auto simp: on_message_def Let_def map_of_put_room_same split: if_splits)
  then have "step s' TimerFires = Inl NotRoleRevealPhase"
    by (simp add: step_def on_timer_def startDrawing_def)
  with m show ?thesis by (simp add: step_def)
qed

theorem role_reveal_timer_crash_witness:
  "case run_events init_process (example_lobby_events @ [Receive 0 (START_GAME None) (example_entropy ''x'')]) of
     Inl _ \<Rightarrow> False
   | Inr (s, d) \<Rightarrow> \<exists>s' d'. step s (Receive 0 PLAY_AGAIN (example_entropy ''x'')) = Inr (s', d') \<and>
                          step s' TimerFires = Inl NotRoleRevealPhase"
proof -
  have "case run_events init_process (example_lobby_events @ [Receive 0 (START_GAME None) (example_entropy ''x'')]) of
     Inl _ \<Rightarrow> False
   | Inr (s, d) \<Rightarrow> map_of (conns s) 0 = Some \<lparr>c_playerId = Some ''a'', c_roomCode = Some ''AAAA''\<rparr> \<and>
       map_of (playerRooms s) ''a'' = Some ''AAAA'' \<and> (\<exists>r. get_room s ''AAAA'' = Some (0, r) \<and> is_host r ''a'') \<and>
       timers s = [(0, ''AAAA'', 0)]"
    by (simp add: server_eval)
  then obtain s d where e: "run_events init_process (example_lobby_events @ [Receive 0 (START_GAME None) (example_entropy ''x'')]) = Inr (s, d)"
    and c: "map_of (conns s) 0 = Some \<lparr>c_playerId = Some ''a'', c_roomCode = Some ''AAAA''\<rparr>"
    and p: "map_of (playerRooms s) ''a'' = Some ''AAAA''" and r: "\<exists>r. get_room s ''AAAA'' = Some (0, r) \<and> is_host r ''a''"
    and t: "timers s = [(0, ''AAAA'', 0)]"
    unfolding run_result_iff by blast
  from r obtain r where g: "get_room s ''AAAA'' = Some (0, r)" and h: "is_host r ''a''" by blast
  have "\<exists>s' d'. step s (Receive 0 PLAY_AGAIN (example_entropy ''x'')) = Inr (s', d') \<and>
                step s' TimerFires = Inl NotRoleRevealPhase"
    by (rule role_reveal_timer_crash [OF c _ _ p g h t]) simp_all
  then show ?thesis using e by simp
qed

text \<open>
  C25: a connection that has no player yet and asks to join a room that is full or no
  longer in LOBBY is refused without any message: the state is unchanged and nothing is
  sent.
\<close>

theorem join_refused_silently:
  assumes "get_room st code = Some (a, r)" and "phase r \<noteq> LOBBY \<or> MAX_PLAYERS \<le> length (players r)"
  shows "handleMessage (JOIN_GAME code name) None en ws st = (no_reply, st, [])"
  using assms put_room_same [OF assms(1)]
  by (auto simp: handleMessage_def dispatch_def handle_join_def addPlayer_def str_truthy_def)

theorem join_refused_silently_witness:
  "case run_events init_process (example_lobby_events @ [Receive 0 (START_GAME None) (example_entropy ''x'')]) of
     Inl _ \<Rightarrow> False
   | Inr (s, d) \<Rightarrow> (\<exists>r. get_room s ''AAAA'' = Some (0, r) \<and> phase r = ROLE_REVEAL) \<and>
       handleMessage (JOIN_GAME ''AAAA'' ''Dee'') None (example_entropy ''d'') 3 s = (no_reply, s, [])"
proof -
  have "case run_events init_process (example_lobby_events @ [Receive 0 (START_GAME None) (example_entropy ''x'')]) of
     Inl _ \<Rightarrow> False | Inr (s, d) \<Rightarrow> (\<exists>r. get_room s ''AAAA'' = Some (0, r) \<and> phase r = ROLE_REVEAL)"
    by (simp add: server_eval)
  then obtain s d r where e: "run_events init_process (example_lobby_events @ [Receive 0 (START_GAME None) (example_entropy ''x'')]) = Inr (s, d)"
    and g: "get_room s ''AAAA'' = Some (0, r)" and p: "phase r = ROLE_REVEAL"
    unfolding run_result_iff by blast
  have "handleMessage (JOIN_GAME ''AAAA'' ''Dee'') None (example_entropy ''d'') 3 s = (no_reply, s, [])"
    by (rule join_refused_silently [OF g]) (simp add: p)
  then show ?thesis using e g p by auto
qed

text \<open>
  C26: \<open>SUBMIT_GUESS\<close> is accepted from any player of the room in any phase once a secret
  word is set: it records the guess, scores the round again from the stored votes, adds the
  points to the players and broadcasts a new round result.
\<close>

theorem guess_rescores_in_any_phase:
  assumes "map_of (playerRooms st) p = Some code" and "p \<noteq> []" and "get_room st code = Some (a, r)"
    and "str_truthy (secretWord r)" and "calculateScores (snd (submitImposterGuess r w)) = (Inr res, r1)"
  shows "handleMessage (SUBMIT_GUESS w) (Some p) en ws st =
           (no_reply, put_room st a (r1\<lparr>phase := SCOREBOARD\<rparr>),
            broadcast (put_room st a (r1\<lparr>phase := SCOREBOARD\<rparr>)) code (ROUND_RESULT res)) \<and>
         players r1 = apply_scores (rr_scores res) (players r)"
proof -
  obtain c r' where sg: "submitImposterGuess r w = (Inr c, r')"
    using assms(4) by (simp add: submitImposterGuess_def Let_def)
  have cs: "calculateScores r' = (Inr res, r1)" using assms(5) sg by simp
  have "handleMessage (SUBMIT_GUESS w) (Some p) en ws st =
           (no_reply, put_room st a (r1\<lparr>phase := SCOREBOARD\<rparr>),
            broadcast (put_room st a (r1\<lparr>phase := SCOREBOARD\<rparr>)) code (ROUND_RESULT res))"
    using assms(1-3) sg cs
    by (simp add: handleMessage_def dispatch_def handle_guess_def in_room_def finish_round_def Let_def)
  moreover have "players r1 = apply_scores (rr_scores res) (players r)"
    using cs sg
    by (auto simp: calculateScores_def submitImposterGuess_def Let_def split: option.splits if_splits)
  ultimately show ?thesis ..
qed

theorem guess_rescores_in_any_phase_witness:
  "case run_events init_process example_round_events of
     Inl _ \<Rightarrow> False
   | Inr (s, d) \<Rightarrow> \<exists>r res r1. get_room s ''AAAA'' = Some (0, r) \<and> phase r = SCOREBOARD \<and>
       calculateScores (snd (submitImposterGuess r ''x'')) = (Inr res, r1) \<and>
       fst (snd (handleMessage (SUBMIT_GUESS ''x'') (Some ''b'') (example_entropy ''x'') 1 s)) =
         put_room s 0 (r1\<lparr>phase := SCOREBOARD\<rparr>) \<and>
       map (\<lambda>(k, p). (k, p_score p)) (players r1) = [(''a'', 1), (''b'', 1), (''c'', 1)]"
proof -
  have "case run_events init_process example_round_events of
     Inl _ \<Rightarrow> False
   | Inr (s, d) \<Rightarrow> map_of (playerRooms s) ''b'' = Some ''AAAA'' \<and>
       (\<exists>r res r1. get_room s ''AAAA'' = Some (0, r) \<and> phase r = SCOREBOARD \<and> str_truthy (secretWord r) \<and>
       calculateScores (snd (submitImposterGuess r ''x'')) = (Inr res, r1) \<and>
       map (\<lambda>(k, p). (k, p_score p)) (players r1) = [(''a'', 1), (''b'', 1), (''c'', 1)])"
    by (simp add: round_eval)
  then obtain s d r res r1 where e: "run_events init_process example_round_events = Inr (s, d)"
    and pr: "map_of (playerRooms s) ''b'' = Some ''AAAA''" and g: "get_room s ''AAAA'' = Some (0, r)"
    and ph: "phase r = SCOREBOARD" and sw: "str_truthy (secretWord r)"
    and cs: "calculateScores (snd (submitImposterGuess r ''x'')) = (Inr res, r1)"
    and sc: "map (\<lambda>(k, p). (k, p_score p)) (players r1) = [(''a'', 1), (''b'', 1), (''c'', 1)]"
    unfolding run_result_iff by (elim exE conjE) (rule that, assumption+)
  have "handleMessage (SUBMIT_GUESS ''x'') (Some ''b'') (example_entropy ''x'') 1 s =
           (no_reply, put_room s 0 (r1\<lparr>phase := SCOREBOARD\<rparr>),
            broadcast (put_room s 0 (r1\<lparr>phase := SCOREBOARD\<rparr>)) ''AAAA'' (ROUND_RESULT res)) \<and>
         players r1 = apply_scores (rr_scores res) (players r)"
    by (rule guess_rescores_in_any_phase [OF pr _ g sw cs]) simp
  then show ?thesis using e g ph cs sc by auto
qed

text \<open>
  C27: \<open>NEXT_ROUND\<close> from the host starts a new round (ROLE_REVEAL, same roster, no
  strokes, no vote) from any phase and with any number of players, ready or not, as long as
  nobody has reached the winning score and a word can be drawn.
\<close>

theorem next_round_unguarded:
  assumes "map_of (playerRooms st) p = Some code" and "p \<noteq> []" and "get_room st code = Some (a, r)"
    and "is_host r p" and "\<not> someone_won r"
    and "str_truthy (customWord (settings r)) \<or> category (settings r) \<in> set (getCategories new_word_bank)"
  shows "\<exists>r'. get_room (fst (snd (handleMessage NEXT_ROUND (Some p) en ws st))) code = Some (a, r') \<and>
              phase r' = ROLE_REVEAL \<and> players r' = players r \<and> strokes r' = [] \<and>
              votingManager r' = None"
proof -
  have "\<exists>w. (if str_truthy (customWord (settings r)) then Inr (customWord (settings r))
          else getRandomWord new_word_bank (category (settings r)) (en_word en)) = Inr w"
  proof (cases "str_truthy (customWord (settings r))")
    case False
    then have "category (settings r) \<in> set (getCategories new_word_bank)" using assms(6) by simp
    then show ?thesis using False getRandomWord_unknown [of new_word_bank "category (settings r)" "en_word en"]
      by (cases "getRandomWord new_word_bank (category (settings r)) (en_word en)") auto
  qed simp
  then obtain w where "(if str_truthy (customWord (settings r)) then Inr (customWord (settings r))
          else getRandomWord new_word_bank (category (settings r)) (en_word en)) = Inr w" ..
  from next_round_state [OF assms(1-5) this] show ?thesis by simp
qed

theorem next_round_unguarded_witness:
  "case run_events init_process [Connect, Receive 0 (CREATE_GAME ''Ann'') (example_entropy ''a'')] of
     Inl _ \<Rightarrow> False
   | Inr (s, d) \<Rightarrow> \<exists>r. get_room s ''AAAA'' = Some (0, r) \<and> phase r = LOBBY \<and> length (players r) = 1 \<and>
       (\<exists>r'. get_room (fst (snd (handleMessage NEXT_ROUND (Some ''a'') (example_entropy ''x'') 0 s))) ''AAAA'' = Some (0, r') \<and>
             phase r' = ROLE_REVEAL \<and> players r' = players r \<and> strokes r' = [] \<and> votingManager r' = None)"
proof -
  have "case run_events init_process [Connect, Receive 0 (CREATE_GAME ''Ann'') (example_entropy ''a'')] of
     Inl _ \<Rightarrow> False
   | Inr (s, d) \<Rightarrow> map_of (playerRooms s) ''a'' = Some ''AAAA'' \<and>
       (\<exists>r. get_room s ''AAAA'' = Some (0, r) \<and> phase r = LOBBY \<and> length (players r) = 1 \<and> is_host r ''a'' \<and>
            \<not> someone_won r \<and> category (settings r) \<in> set (getCategories new_word_bank))"
    by (simp add: server_eval getCategories_def)
  then obtain s d r where e: "run_events init_process [Connect, Receive 0 (CREATE_GAME ''Ann'') (example_entropy ''a'')] = Inr (s, d)"
    and pr: "map_of (playerRooms s) ''a'' = Some ''AAAA''" and g: "get_room s ''AAAA'' = Some (0, r)"
    and l: "phase r = LOBBY" "length (players r) = 1" and h: "is_host r ''a''" and w: "\<not> someone_won r"
    and c: "category (settings r) \<in> set (getCategories new_word_bank)"
    unfolding run_result_iff by blast
  have "\<exists>r'. get_room (fst (snd (handleMessage NEXT_ROUND (Some ''a'') (example_entropy ''x'') 0 s))) ''AAAA'' = Some (0, r') \<and>
             phase r' = ROLE_REVEAL \<and> players r' = players r \<and> strokes r' = [] \<and> votingManager r' = None"
    by (rule next_round_unguarded [OF pr _ g h w]) (simp_all add: c)
  then show ?thesis using e g l by auto
qed

text \<open>
  C28: on a room where \<open>startGame\<close> would succeed without new settings, \<open>NEXT_ROUND\<close>
  leaves the room exactly as \<open>startGame\<close> would with the same random draws, except that it
  also clears the vote and the break requests and keeps the last imposter guess.
\<close>

theorem next_round_equals_startGame:
  assumes "map_of (playerRooms st) p = Some code" and "p \<noteq> []" and "get_room st code = Some (a, r)"
    and "is_host r p" and "\<not> someone_won r" and "wordBank r = new_word_bank"
    and sg: "startGame r None (en_word en) (en_turns en) (en_shuffled en) = (Inr (), r')"
  shows "get_room (fst (snd (handleMessage NEXT_ROUND (Some p) en ws st))) code =
           Some (a, r'\<lparr>votingManager := None, timeoutRequests := [],
                       imposterGuessCorrect := imposterGuessCorrect r\<rparr>)"
proof -
  let ?word = "if str_truthy (customWord (settings r)) then Inr (customWord (settings r))
               else getRandomWord new_word_bank (category (settings r)) (en_word en)"
  obtain w where w: "?word = Inr w"
    using sg assms(6) by (cases ?word) (auto simp: startGame_def split: if_splits)
  have "r' = (snd (assignRoles (r\<lparr>secretWord := w,
                      turnManager := Some (new_turn_manager (en_turns en) (map fst (players r)) (rounds (settings r)))\<rparr>)
                      (en_shuffled en)))
                 \<lparr>roleAssignments := fst (assignRoles (r\<lparr>secretWord := w,
                      turnManager := Some (new_turn_manager (en_turns en) (map fst (players r)) (rounds (settings r)))\<rparr>)
                      (en_shuffled en)),
                  strokes := [], imposterGuessCorrect := None, phase := ROLE_REVEAL\<rparr>"
    using sg w assms(6) by (auto simp: startGame_def Let_def split: if_splits prod.splits)
  then show ?thesis
    using next_round_state [OF assms(1-5) w] by (simp add: assignRoles_def Let_def)
qed

theorem next_round_equals_startGame_witness:
  "case run_events init_process example_lobby_events of
     Inl _ \<Rightarrow> False
   | Inr (s, d) \<Rightarrow> \<exists>r r'. get_room s ''AAAA'' = Some (0, r) \<and>
       startGame r None 0 (\<lambda>_. 0) [''a'', ''b'', ''c''] = (Inr (), r') \<and>
       get_room (fst (snd (handleMessage NEXT_ROUND (Some ''a'') (example_entropy ''x'') 0 s))) ''AAAA'' =
         Some (0, r'\<lparr>votingManager := None, timeoutRequests := [], imposterGuessCorrect := imposterGuessCorrect r\<rparr>)"
proof -
  have "case run_events init_process example_lobby_events of
     Inl _ \<Rightarrow> False
   | Inr (s, d) \<Rightarrow> map_of (playerRooms s) ''a'' = Some ''AAAA'' \<and>
       (\<exists>r r'. get_room s ''AAAA'' = Some (0, r) \<and> is_host r ''a'' \<and> \<not> someone_won r \<and>
          wordBank r = new_word_bank \<and> startGame r None 0 (\<lambda>_. 0) [''a'', ''b'', ''c''] = (Inr (), r'))"
    by (simp add: server_eval)
  then obtain s d r r' where e: "run_events init_process example_lobby_events = Inr (s, d)"
    and pr: "map_of (playerRooms s) ''a'' = Some ''AAAA''" and g: "get_room s ''AAAA'' = Some (0, r)"
    and h: "is_host r ''a''" and w: "\<not> someone_won r" and wb: "wordBank r = new_word_bank"
    and sg: "startGame r None 0 (\<lambda>_. 0) [''a'', ''b'', ''c''] = (Inr (), r')"
    unfolding run_result_iff by (elim exE conjE) (rule that, assumption+)
  have sg': "startGame r None (en_word (example_entropy ''x'')) (en_turns (example_entropy ''x''))
               (en_shuffled (example_entropy ''x'')) = (Inr (), r')"
    using sg by (simp add: example_entropy_def)
  show ?thesis using e g sg next_round_equals_startGame [OF pr _ g h w wb sg'] by auto
qed

text \<open>
  C29: \<open>PLAY_AGAIN\<close> from the host returns the room to LOBBY with the same players in
  the same order, all scores zero, nobody ready, no strokes and no managers; the role
  assignments and the secret word of the last round stay.
\<close>

theorem play_again_resets_room:
  assumes "map_of (playerRooms st) p = Some code" and "p \<noteq> []" and "get_room st code = Some (a, r)"
    and "is_host r p"
  shows "\<exists>r'. get_room (fst (snd (handleMessage PLAY_AGAIN (Some p) en ws st))) code = Some (a, r') \<and>
              phase r' = LOBBY \<and> map fst (players r') = map fst (players r) \<and>
              (\<forall>(k, pl) \<in> set (players r'). p_score pl = 0 \<and> \<not> p_isReady pl) \<and>
              strokes r' = [] \<and> turnManager r' = None \<and> votingManager r' = None \<and>
              roleAssignments r' = roleAssignments r \<and> secretWord r' = secretWord r"
  using play_again_room [OF assms, of en ws] get_room_put_room [OF assms(3)]
  by (auto simp: reset_players_keys)

theorem play_again_resets_room_witness:
  "case run_events init_process example_round_events of
     Inl _ \<Rightarrow> False
   | Inr (s, d) \<Rightarrow> \<exists>r. get_room s ''AAAA'' = Some (0, r) \<and> is_host r ''a'' \<and>
       (\<exists>r'. get_room (fst (snd (handleMessage PLAY_AGAIN (Some ''a'') (example_entropy ''x'') 0 s))) ''AAAA'' = Some (0, r') \<and>
             phase r' = LOBBY \<and> list_all (\<lambda>(k, pl). p_score pl = 0 \<and> \<not> p_isReady pl) (players r') \<and>
             roleAssignments r' = roleAssignments r)"
proof -
  have "case run_events init_process example_round_events of
     Inl _ \<Rightarrow> False
   | Inr (s, d) \<Rightarrow> map_of (playerRooms s) ''a'' = Some ''AAAA'' \<and>
       (\<exists>r. get_room s ''AAAA'' = Some (0, r) \<and> is_host r ''a'')"
    by (simp add: round_eval)
  then obtain s d r where e: "run_events init_process example_round_events = Inr (s, d)"
    and pr: "map_of (playerRooms s) ''a'' = Some ''AAAA''" and g: "get_room s ''AAAA'' = Some (0, r)"
    and h: "is_host r ''a''"
    unfolding run_result_iff by (elim exE conjE) (rule that, assumption+)
  show ?thesis using e g h play_again_resets_room [OF pr _ g h, of "example_entropy ''x''" 0]
    by (auto simp: list_all_iff)
qed

text \<open>
  C30: in a room where no player is host (the host has left), \<open>START_GAME\<close>,
  \<open>NEXT_ROUND\<close> and \<open>PLAY_AGAIN\<close> are refused for every player, with no change of state.
\<close>

theorem hostless_room_refuses_host_actions:
  assumes "map_of (playerRooms st) p = Some code" and "p \<noteq> []" and "get_room st code = Some (a, r)"
    and "\<forall>q. \<not> is_host r q"
  shows "handleMessage (START_GAME so) (Some p) en ws st = (no_reply, st, [(p, ERROR ''Only the host can start the game'')]) \<and>
         handleMessage NEXT_ROUND (Some p) en ws st = (no_reply, st, [(p, ERROR ''Only the host can start the next round'')]) \<and>
         handleMessage PLAY_AGAIN (Some p) en ws st = (no_reply, st, [(p, ERROR ''Only the host can restart the game'')])"
  using assms
  by (simp add: handleMessage_def dispatch_def handle_start_def handle_next_round_def handle_play_again_def
      in_room_def)

theorem hostless_room_refuses_host_actions_witness:
  "case run_events init_process (example_lobby_events @ [Disconnect 0]) of
     Inl _ \<Rightarrow> False
   | Inr (s, d) \<Rightarrow> \<exists>r. get_room s ''AAAA'' = Some (0, r) \<and> map fst (players r) = [''b'', ''c''] \<and>
       handleMessage (START_GAME None) (Some ''b'') (example_entropy ''x'') 1 s =
         (no_reply, s, [(''b'', ERROR ''Only the host can start the game'')])"
proof -
  have "case run_events init_process (example_lobby_events @ [Disconnect 0]) of
     Inl _ \<Rightarrow> False
   | Inr (s, d) \<Rightarrow> map_of (playerRooms s) ''b'' = Some ''AAAA'' \<and>
       (\<exists>r. get_room s ''AAAA'' = Some (0, r) \<and> map fst (players r) = [''b'', ''c''] \<and>
            \<not> is_host r ''b'' \<and> \<not> is_host r ''c'')"
    by (simp add: server_eval removePlayer_def)
  then obtain s d r where e: "run_events init_process (example_lobby_events @ [Disconnect 0]) = Inr (s, d)"
    and pr: "map_of (playerRooms s) ''b'' = Some ''AAAA''" and g: "get_room s ''AAAA'' = Some (0, r)"
    and k: "map fst (players r) = [''b'', ''c'']" and hb: "\<not> is_host r ''b''" and hc: "\<not> is_host r ''c''"
    unfolding run_result_iff by (elim exE conjE) (rule that, assumption+)
  have "\<forall>q. \<not> is_host r q"
  proof
    fix q
    show "\<not> is_host r q"
    proof (cases "q \<in> set (map fst (players r))")
      case True
      then show ?thesis using k hb hc by auto
    next
      case False
      then have "map_of (players r) q = None" by (simp add: map_of_eq_None_iff)
      then show ?thesis by (simp add: is_host_def)
    qed
  qed
  then show ?thesis using e g k hostless_room_refuses_host_actions [OF pr _ g, of None "example_entropy ''x''" 1]
    by auto
qed

text \<open>
  C31: \<open>CREATE_GAME\<close> does not check that its random code is free: when it draws the
  code of an existing room, the code then names the new room, whose only player is the new
  host, and the players of the old room are sent to it.
\<close>

theorem create_replaces_room_with_same_code:
  assumes "map_of (rooms st) (roomCode (new_room (en_code en))) = Some a0"
  shows "\<exists>r'. get_room (fst (snd (handleMessage (CREATE_GAME n) pid en ws st))) (roomCode (new_room (en_code en))) =
                Some (next_ref st, r') \<and> map fst (players r') = [en_uuid en]"
  by (simp add: handleMessage_state dispatch_def handle_create_def get_room_def put_room_def Let_def
      addPlayer_def new_room_def MAX_PLAYERS_def update_conv' new_player_def)

theorem create_replaces_room_with_same_code_witness:
  "case run_events init_process [Connect, Connect, Receive 0 (CREATE_GAME ''Ann'') (example_entropy ''a'')] of
     Inl _ \<Rightarrow> False
   | Inr (s, d) \<Rightarrow> map_of (rooms s) ''AAAA'' = Some 0 \<and> map_of (playerRooms s) ''a'' = Some ''AAAA'' \<and>
       (\<exists>r'. get_room (fst (snd (handleMessage (CREATE_GAME ''Bob'') None (example_entropy ''b'') 1 s))) ''AAAA'' =
                Some (1, r') \<and> map fst (players r') = [''b''])"
proof -
  have "case run_events init_process [Connect, Connect, Receive 0 (CREATE_GAME ''Ann'') (example_entropy ''a'')] of
     Inl _ \<Rightarrow> False
   | Inr (s, d) \<Rightarrow> map_of (rooms s) ''AAAA'' = Some 0 \<and> map_of (playerRooms s) ''a'' = Some ''AAAA'' \<and> next_ref s = 1"
    by (simp add: server_eval)
  then obtain s d where e: "run_events init_process [Connect, Connect, Receive 0 (CREATE_GAME ''Ann'') (example_entropy ''a'')] = Inr (s, d)"
    and r: "map_of (rooms s) ''AAAA'' = Some 0" and pr: "map_of (playerRooms s) ''a'' = Some ''AAAA''"
    and n: "next_ref s = 1"
    unfolding run_result_iff by (elim exE conjE) (rule that, assumption+)
  have c: "roomCode (new_room (en_code (example_entropy ''b''))) = ''AAAA''"
    by (simp add: new_room_def example_entropy_def generateRoomCode_zero)
  have "map_of (rooms s) (roomCode (new_room (en_code (example_entropy ''b'')))) = Some 0" using r c by simp
  from create_replaces_room_with_same_code [OF this, of "''Bob''" None 1] show ?thesis
    using e r pr n c by (simp add: example_entropy_def)
qed

text \<open>What \<open>CREATE_GAME\<close> does to the state, and what a close does for a
  connection whose player is in a room.\<close>

lemma handleMessage_create:
  "handleMessage (CREATE_GAME n) pid en ws st =
     ((Some (en_uuid en), Some (roomCode (new_room (en_code en)))),
      st\<lparr>heap := AList.update (next_ref st)
               ((new_room (en_code en))\<lparr>colorIndex := 1, players := [(en_uuid en, new_player (en_uuid en) n 0 True)]\<rparr>)
               (AList.update (next_ref st) (new_room (en_code en)) (heap st)),
         next_ref := Suc (next_ref st),
         rooms := AList.update (roomCode (new_room (en_code en))) (next_ref st) (rooms st),
         playerRooms := AList.update (en_uuid en) (roomCode (new_room (en_code en))) (playerRooms st)\<rparr>,
      [(en_uuid en, GAME_CREATED (roomCode (new_room (en_code en))) (new_player (en_uuid en) n 0 True))])"
  by (simp add: handleMessage_def dispatch_def handle_create_def addPlayer_def put_room_def Let_def
      MAX_PLAYERS_def new_room_def new_player_def)

lemma on_message_create:
  assumes c: "map_of (conns s) c = Some cn" and u: "en_uuid en \<noteq> []" and k: "roomCode (new_room (en_code en)) \<noteq> []"
  shows "fst (on_message s c (CREATE_GAME n) en) =
     (let st = fst (snd (handleMessage (CREATE_GAME n) (c_playerId cn) en c s)) in
      st\<lparr>playerToWs := AList.update (en_uuid en) c (playerToWs st),
         conns := AList.update c (cn\<lparr>c_playerId := Some (en_uuid en), c_roomCode := Some (roomCode (new_room (en_code en)))\<rparr>) (conns st)\<rparr>)"
  using c u k by (simp add: on_message_def handleMessage_create Let_def str_truthy_def)

lemma on_close_player:
  assumes c: "map_of (conns s) c = Some cn" and p: "c_playerId cn = Some p" "p \<noteq> []"
    and k: "c_roomCode cn = Some code" "code \<noteq> []" and g: "get_room s code = Some (a, r)"
  shows "fst (on_close s c) =
     (let s' = put_room (s\<lparr>conns := AList.delete c (conns s)\<rparr>) a (removePlayer r p);
          s1 = (if players (removePlayer r p) = [] then s'\<lparr>rooms := AList.delete code (rooms s')\<rparr> else s')
      in s1\<lparr>playerRooms := AList.delete p (playerRooms s1), playerToWs := AList.delete p (playerToWs s1)\<rparr>)"
proof -
  have "get_room (s\<lparr>conns := AList.delete c (conns s)\<rparr>) code = Some (a, r)"
    using g by (auto simp: get_room_def split: option.splits)
  then show ?thesis using c p k by (simp add: on_close_def str_truthy_def Let_def split_def)
qed

text \<open>
  C32: a connection that already has a player and sends \<open>CREATE_GAME\<close> again, then
  closes, leaves its first player behind for good, whatever the state: the connection is
  gone, but the player keeps its room in \<open>playerRooms\<close>, its entry in \<open>playerToWs\<close> still
  names the closed socket, and its room is exactly as before, the player still in it.
\<close>

theorem second_create_leaves_ghost_player:
  assumes c: "map_of (conns s) c = Some cn" and p: "c_playerId cn = Some p"
    and w: "map_of (playerToWs s) p = Some c" and pr: "map_of (playerRooms s) p = Some code"
    and g: "get_room s code = Some (a, r)" and a: "a \<noteq> next_ref s"
    and u: "en_uuid en \<noteq> []" "en_uuid en \<noteq> p"
    and k: "roomCode (new_room (en_code en)) \<noteq> []" "roomCode (new_room (en_code en)) \<noteq> code"
  shows "map_of (conns (fst (on_close (fst (on_message s c (CREATE_GAME n) en)) c))) c = None \<and>
         map_of (playerToWs (fst (on_close (fst (on_message s c (CREATE_GAME n) en)) c))) p = Some c \<and>
         map_of (playerRooms (fst (on_close (fst (on_message s c (CREATE_GAME n) en)) c))) p = Some code \<and>
         get_room (fst (on_close (fst (on_message s c (CREATE_GAME n) en)) c)) code = Some (a, r)"
proof -
  define code' where "code' = roomCode (new_room (en_code en))"
  define room1 where "room1 = (new_room (en_code en))\<lparr>colorIndex := 1, players := [(en_uuid en, new_player (en_uuid en) n 0 True)]\<rparr>"
  define s1 where "s1 = fst (on_message s c (CREATE_GAME n) en)"
  define s2 where "s2 = fst (on_close s1 c)"
  define cn1 where "cn1 = cn\<lparr>c_playerId := Some (en_uuid en), c_roomCode := Some code'\<rparr>"
  have s1: "s1 = s\<lparr>heap := AList.update (next_ref s) room1 (AList.update (next_ref s) (new_room (en_code en)) (heap s)),
         next_ref := Suc (next_ref s), rooms := AList.update code' (next_ref s) (rooms s),
         playerRooms := AList.update (en_uuid en) code' (playerRooms s),
         playerToWs := AList.update (en_uuid en) c (playerToWs s),
         conns := AList.update c cn1 (conns s)\<rparr>"
    unfolding s1_def using on_message_create [OF c u(1) k(1), of n]
    by (simp add: handleMessage_create Let_def code'_def room1_def cn1_def)
  have g1: "get_room s1 code' = Some (next_ref s, room1)"
    by (simp add: s1 get_room_def update_conv')
  have c1: "map_of (conns s1) c = Some cn1" by (simp add: s1 update_conv')
  have e: "players (removePlayer room1 (en_uuid en)) = []" by (simp add: room1_def removePlayer_def)
  have s2: "s2 = (let s' = put_room (s1\<lparr>conns := AList.delete c (conns s1)\<rparr>) (next_ref s) (removePlayer room1 (en_uuid en))
                  in s'\<lparr>rooms := AList.delete code' (rooms s'), playerRooms := AList.delete (en_uuid en) (playerRooms s'),
                        playerToWs := AList.delete (en_uuid en) (playerToWs s')\<rparr>)"
    unfolding s2_def using on_close_player [OF c1 _ u(1) _ _ g1] e k(1)
    by (simp add: cn1_def code'_def Let_def)
  have ga: "map_of (rooms s) code = Some a" "map_of (heap s) a = Some r"
    using g by (auto simp: get_room_def split: option.splits)
  have "map_of (conns s2) c = None \<and> map_of (playerToWs s2) p = Some c \<and>
        map_of (playerRooms s2) p = Some code \<and> get_room s2 code = Some (a, r)"
    using ga a u(2) k(2) w pr unfolding s2 s1
    by (simp add: Let_def put_room_def get_room_def update_conv' delete_conv' code'_def)
  then show ?thesis by (simp add: s2_def s1_def)
qed

theorem second_create_leaves_ghost_player_witness:
  "case run_events init_process [Connect, Receive 0 (CREATE_GAME ''Ann'') (example_entropy ''a'')] of
     Inl _ \<Rightarrow> False
   | Inr (s, d) \<Rightarrow>
       (\<exists>r. get_room s ''AAAA'' = Some (0, r) \<and> map fst (players r) = [''a''] \<and>
         map_of (conns (fst (on_close (fst (on_message s 0 (CREATE_GAME ''Ann'') ((example_entropy ''b'')\<lparr>en_code := (\<lambda>_. 1 / 2)\<rparr>))) 0))) 0 = None \<and>
         map_of (playerToWs (fst (on_close (fst (on_message s 0 (CREATE_GAME ''Ann'') ((example_entropy ''b'')\<lparr>en_code := (\<lambda>_. 1 / 2)\<rparr>))) 0))) ''a'' = Some 0 \<and>
         map_of (playerRooms (fst (on_close (fst (on_message s 0 (CREATE_GAME ''Ann'') ((example_entropy ''b'')\<lparr>en_code := (\<lambda>_. 1 / 2)\<rparr>))) 0))) ''a'' = Some ''AAAA'' \<and>
         get_room (fst (on_close (fst (on_message s 0 (CREATE_GAME ''Ann'') ((example_entropy ''b'')\<lparr>en_code := (\<lambda>_. 1 / 2)\<rparr>))) 0)) ''AAAA'' = Some (0, r))"
proof -
  have "case run_events init_process [Connect, Receive 0 (CREATE_GAME ''Ann'') (example_entropy ''a'')] of
     Inl _ \<Rightarrow> False
   | Inr (s, d) \<Rightarrow> map_of (conns s) 0 = Some \<lparr>c_playerId = Some ''a'', c_roomCode = Some ''AAAA''\<rparr> \<and>
       map_of (playerToWs s) ''a'' = Some 0 \<and> map_of (playerRooms s) ''a'' = Some ''AAAA'' \<and> next_ref s = 1 \<and>
       (\<exists>r. get_room s ''AAAA'' = Some (0, r) \<and> map fst (players r) = [''a''])"
    by (simp add: server_eval)
  then obtain s d r where e: "run_events init_process [Connect, Receive 0 (CREATE_GAME ''Ann'') (example_entropy ''a'')] = Inr (s, d)"
    and c: "map_of (conns s) 0 = Some \<lparr>c_playerId = Some ''a'', c_roomCode = Some ''AAAA''\<rparr>"
    and w: "map_of (playerToWs s) ''a'' = Some 0" and pr: "map_of (playerRooms s) ''a'' = Some ''AAAA''"
    and n: "next_ref s = 1" and g: "get_room s ''AAAA'' = Some (0, r)" and ps: "map fst (players r) = [''a'']"
    unfolding run_result_iff by (elim exE conjE) (rule that, assumption+)
  have k: "roomCode (new_room (en_code ((example_entropy ''b'')\<lparr>en_code := (\<lambda>_. 1 / 2)\<rparr>))) = ''NNNN''"
    by (simp add: new_room_def generateRoomCode_half)
  have "0 \<noteq> next_ref s" using n by simp
  from second_create_leaves_ghost_player [where en = "(example_entropy ''b'')\<lparr>en_code := (\<lambda>_. 1 / 2)\<rparr>"
      and n = "''Ann''", OF c _ w pr g this]
  show ?thesis using e g ps k by (simp add: example_entropy_def)
qed

end
