(* ===== verification/Client.thy ===== *)
theory Client
  imports Server
begin

text \<open>
  The client's game state (\<open>src/client/src/lib/gameState.ts\<close>) and the reducer of
  \<open>useGame\<close> (\<open>src/client/src/hooks/useGame.ts\<close>) that folds the server's messages
  into it.  \<open>handleMessage\<close> of the hook is \<open>client_handle\<close>; its one side effect, the
  turn notification (\<open>notifyTurn()\<close>), is the Boolean it returns.  The actions of the
  hook are \<open>client_action\<close>: each sends one client message, and \<open>joinGame\<close> also
  records the room code it was given.  Composing the reducer with the deliveries of the
  server model gives what each player's screen shows.
\<close>

record client_state =
  cs_roomCode :: "room_code option"
  cs_phase :: game_phase
  cs_playerId :: "pid option"
  cs_players :: "player list"
  cs_role :: "role option"
  cs_secretWord :: "string option"
  cs_turnOrder :: "pid list"
  cs_activePlayerId :: "pid option"
  cs_currentRound :: int
  cs_strokes :: "stroke list"
  cs_roundResult :: "round_result option"
  cs_timeoutPlayerIds :: "pid list"
  cs_votedPlayerIds :: "pid list"
  cs_winScore :: int
  cs_drawTimeLimit :: int
  cs_isHost :: bool
  cs_error :: "string option"

definition initialGameState :: client_state where
  "initialGameState =
     \<lparr>cs_roomCode = None, cs_phase = LOBBY, cs_playerId = None, cs_players = [], cs_role = None,
      cs_secretWord = None, cs_turnOrder = [], cs_activePlayerId = None, cs_currentRound = 0,
      cs_strokes = [], cs_roundResult = None, cs_timeoutPlayerIds = [], cs_votedPlayerIds = [],
      cs_winScore = 10, cs_drawTimeLimit = 20, cs_isHost = False, cs_error = None\<rparr>"

text \<open>\<open>msg.result.totalScores[player.id] ?? player.score\<close>\<close>

definition merge_scores :: "(pid \<times> int) list \<Rightarrow> player list \<Rightarrow> player list" where
  "merge_scores totals ps =
     map (\<lambda>pl. pl\<lparr>p_score := (case map_of totals (p_id pl) of None \<Rightarrow> p_score pl | Some v \<Rightarrow> v)\<rparr>) ps"

text \<open>The reducer.  \<open>msg.activePlayerId === s.playerId\<close> holds only when both are the
  same string (\<open>undefined === null\<close> is false).\<close>

fun client_handle :: "client_state \<Rightarrow> server_message \<Rightarrow> client_state \<times> bool" where
  "client_handle s (GAME_CREATED code pl) =
     (s\<lparr>cs_roomCode := Some code, cs_playerId := Some (p_id pl), cs_players := [pl], cs_isHost := True,
        cs_phase := LOBBY, cs_error := None\<rparr>, False)"
| "client_handle s (PLAYER_JOINED pl ps) =
     (s\<lparr>cs_playerId := (if str_truthy (cs_playerId s) then cs_playerId s else Some (p_id pl)),
        cs_players := ps, cs_phase := LOBBY, cs_error := None\<rparr>, False)"
| "client_handle s (PLAYER_LEFT p ps) =
     (let s1 = s\<lparr>cs_players := ps\<rparr> in
      if str_truthy (cs_playerId s) then
        (case find (\<lambda>q. Some (p_id q) = cs_playerId s) ps of
           None \<Rightarrow> (s1, False)
         | Some me \<Rightarrow> (s1\<lparr>cs_isHost := p_isHost me\<rparr>, False))
      else (s1, False))"
| "client_handle s (PLAYER_READY_UPDATE p b ps) = (s\<lparr>cs_players := ps\<rparr>, False)"
| "client_handle s (GAME_STARTING rl w order ps st) =
     (s\<lparr>cs_phase := ROLE_REVEAL, cs_role := Some rl, cs_secretWord := w, cs_turnOrder := order,
        cs_players := ps, cs_winScore := winScore st, cs_drawTimeLimit := drawTimeLimit st,
        cs_strokes := [], cs_currentRound := 1, cs_error := None\<rparr>, False)"
| "client_handle s (TURN_START act rnd tlim) =
     (s\<lparr>cs_phase := DRAWING, cs_activePlayerId := act, cs_currentRound := rnd\<rparr>,
      act \<noteq> None \<and> act = cs_playerId s)"
| "client_handle s (STROKE_BROADCAST st) = (s\<lparr>cs_strokes := cs_strokes s @ [st]\<rparr>, False)"
| "client_handle s (TURN_TIMEOUT p) = (s, False)"
| "client_handle s (VOTING_START ps) =
     (s\<lparr>cs_phase := VOTING, cs_players := ps, cs_votedPlayerIds := []\<rparr>, False)"
| "client_handle s (VOTE_CAST v) = (s\<lparr>cs_votedPlayerIds := cs_votedPlayerIds s @ [v]\<rparr>, False)"
| "client_handle s (VOTE_RESULT vs c t) = (s, False)"
| "client_handle s (IMPOSTER_GUESS_PHASE p) = (s\<lparr>cs_phase := IMPOSTER_GUESS\<rparr>, False)"
| "client_handle s (TIMEOUT_UPDATE ps) = (s\<lparr>cs_timeoutPlayerIds := ps\<rparr>, False)"
| "client_handle s (ROUND_RESULT res) =
     (s\<lparr>cs_phase := SCOREBOARD, cs_roundResult := Some res, cs_timeoutPlayerIds := [],
        cs_players := merge_scores (rr_totalScores res) (cs_players s)\<rparr>, False)"
| "client_handle s (RETURN_TO_LOBBY ps) =
     (s\<lparr>cs_phase := LOBBY, cs_players := ps, cs_role := None, cs_secretWord := None, cs_turnOrder := [],
        cs_activePlayerId := None, cs_currentRound := 0, cs_strokes := [], cs_roundResult := None\<rparr>, False)"
| "client_handle s (ERROR m) =
     (let s1 = s\<lparr>cs_error := Some m\<rparr> in
      if str_truthy (cs_playerId s) then (s1, False) else (s1\<lparr>cs_roomCode := None, cs_phase := LOBBY\<rparr>, False))"

text \<open>The actions of the hook: the message each sends, and the local state change of
  \<open>joinGame\<close> (\<open>roomCode.toUpperCase()\<close>, on ASCII letters).\<close>

datatype client_action =
    CreateGame string
  | JoinGame string room_code
  | ToggleReady
  | StartGameAction game_settings
  | SubmitStrokeAction stroke
  | SubmitVoteAction pid
  | SubmitGuessAction string
  | RequestTimeout
  | CancelTimeout
  | NextRound
  | PlayAgain

definition js_toUpperCase :: "string \<Rightarrow> string" where
  "js_toUpperCase s =
     map (\<lambda>c. if CHR ''a'' \<le> c \<and> c \<le> CHR ''z'' then char_of (of_char c - (32::nat)) else c) s"

fun client_send :: "client_action \<Rightarrow> client_message" where
  "client_send (CreateGame name) = CREATE_GAME name"
| "client_send (JoinGame name code) = JOIN_GAME code name"
| "client_send ToggleReady = PLAYER_READY"
| "client_send (StartGameAction st) = START_GAME (Some st)"
| "client_send (SubmitStrokeAction st) = SUBMIT_STROKE st"
| "client_send (SubmitVoteAction p) = SUBMIT_VOTE p"
| "client_send (SubmitGuessAction w) = SUBMIT_GUESS w"
| "client_send RequestTimeout = REQUEST_TIMEOUT"
| "client_send CancelTimeout = CANCEL_TIMEOUT"
| "client_send NextRound = NEXT_ROUND"
| "client_send PlayAgain = PLAY_AGAIN"

definition client_local :: "client_state \<Rightarrow> client_action \<Rightarrow> client_state" where
  "client_local s act =
     (case act of JoinGame name code \<Rightarrow> s\<lparr>cs_roomCode := Some (js_toUpperCase code)\<rparr> | _ \<Rightarrow> s)"

text \<open>What a client shows after the messages delivered to its connection, in order.\<close>

definition client_view :: "client_state \<Rightarrow> nat \<Rightarrow> delivery \<Rightarrow> client_state" where
  "client_view s c d = foldl (\<lambda>s m. fst (client_handle s m)) s (map snd (filter (\<lambda>(w, _). w = c) d))"

text \<open>
  A message that would tell an imposter the secret word, and the property of a room
  that makes its role announcements safe.
\<close>

definition is_word_leak :: "server_message \<Rightarrow> bool" where
  "is_word_leak m = (case m of GAME_STARTING Imposter (Some w) ord ps st \<Rightarrow> True | _ \<Rightarrow> False)"

definition imposters_unworded :: "room \<Rightarrow> bool" where
  "imposters_unworded r \<longleftrightarrow> (\<forall>a \<in> set (roleAssignments r). ra_role a = Imposter \<longrightarrow> ra_word a = None)"

subsection \<open>Lemmas on the messages clients receive\<close>

lemma game_starting_no_leak:
  "imposters_unworded r \<Longrightarrow> (q, m) \<in> set (fst (game_starting r ps)) \<Longrightarrow> \<not> is_word_leak m"
proof (induction ps)
  case (Cons p ps)
  then show ?case
    by (auto simp: getRoleForPlayer_def imposters_unworded_def is_word_leak_def
        split: option.splits prod.splits role.splits dest!: find_Some_iff [THEN iffD1])
qed simp

lemma announce_roles_no_leak:
  "imposters_unworded r \<Longrightarrow> (q, m) \<in> set (snd (snd (announce_roles st code a r ws))) \<Longrightarrow> \<not> is_word_leak m"
  by (auto simp: announce_roles_def Let_def split: prod.splits option.splits
      dest: game_starting_no_leak [where ps = "map fst (players r)"])

lemma unworded_assignRoles:
  "roleAssignments r = fst (assignRoles r2 sh) \<Longrightarrow> imposters_unworded r"
  using assignRoles_shape [of r2 sh] by (simp add: imposters_unworded_def)

lemma not_leak_ERROR [simp]: "\<not> is_word_leak (ERROR e)"
  by (simp add: is_word_leak_def)

lemma start_announce_no_leak:
  assumes "startGame r so rw rt sh = (Inr u, r')"
    and "(q, m) \<in> set (snd (snd (announce_roles st code a r' ws)))"
  shows "\<not> is_word_leak m"
proof -
  obtain r2 where "r' = r2\<lparr>roleAssignments := fst (assignRoles r2 sh), strokes := [],
                 imposterGuessCorrect := None, phase := ROLE_REVEAL\<rparr>"
    using startGame_Inr [OF assms(1)] by blast
  then have "imposters_unworded r'" by (intro unworded_assignRoles [of _ r2 sh]) simp
  then show ?thesis using assms(2) by (rule announce_roles_no_leak)
qed

lemma next_announce_no_leak:
  assumes "assignRoles r1 sh = (x, r2)"
    and "(q, m) \<in> set (snd (snd (announce_roles st code a (r2\<lparr>roleAssignments := x, strokes := [],
             votingManager := None, timeoutRequests := [], phase := ROLE_REVEAL\<rparr>) ws)))"
  shows "\<not> is_word_leak m"
proof -
  have "imposters_unworded (r2\<lparr>roleAssignments := x, strokes := [], votingManager := None,
         timeoutRequests := [], phase := ROLE_REVEAL\<rparr>)"
    using assms(1) by (intro unworded_assignRoles [of _ r1 sh]) simp
  then show ?thesis using assms(2) by (rule announce_roles_no_leak)
qed

lemma start_no_leak:
  "(q, m) \<in> set (snd (snd (handle_start pid so en ws st))) \<Longrightarrow> \<not> is_word_leak m"
  by (auto simp: handle_start_def in_room_def split: option.splits prod.splits sum.splits if_splits
      dest: start_announce_no_leak)

lemma next_round_no_leak:
  "(q, m) \<in> set (snd (snd (handle_next_round pid en ws st))) \<Longrightarrow> \<not> is_word_leak m"
  by (auto simp: handle_next_round_def in_room_def Let_def
      split: option.splits prod.splits sum.splits if_splits dest: next_announce_no_leak)

lemma finish_round_no_leak:
  "(q, m) \<in> set (snd (snd (finish_round st code a r))) \<Longrightarrow> \<not> is_word_leak m"
  by (auto simp: finish_round_def Let_def is_word_leak_def split: prod.splits sum.splits dest!: broadcast_msg)

lemma finish_round_out_no_leak:
  "finish_round st code a r = (res, st', out) \<Longrightarrow> (q, m) \<in> set out \<Longrightarrow> \<not> is_word_leak m"
  using finish_round_no_leak [of q m st code a r] by simp

lemma dispatch_no_leak:
  "(q, m) \<in> set (snd (snd (dispatch msg pid en ws st))) \<Longrightarrow> \<not> is_word_leak m"
proof (cases msg)
  case (START_GAME so)
  assume "(q, m) \<in> set (snd (snd (dispatch msg pid en ws st)))"
  with START_GAME show ?thesis by (simp add: dispatch_def start_no_leak)
next
  case NEXT_ROUND
  assume "(q, m) \<in> set (snd (snd (dispatch msg pid en ws st)))"
  with NEXT_ROUND show ?thesis by (simp add: dispatch_def next_round_no_leak)
next
  case (SUBMIT_VOTE t)
  assume "(q, m) \<in> set (snd (snd (dispatch msg pid en ws st)))"
  with SUBMIT_VOTE show ?thesis
    by (auto simp: dispatch_def handle_vote_def in_room_def Let_def is_word_leak_def
        split: option.splits prod.splits sum.splits if_splits
        dest!: broadcast_msg finish_round_out_no_leak [unfolded is_word_leak_def])
qed (auto simp: dispatch_def handle_create_def handle_join_def handle_ready_def handle_stroke_def
       handle_guess_def handle_timeout_def handle_play_again_def in_room_def Let_def is_word_leak_def
       turn_start_def
       split: option.splits prod.splits sum.splits if_splits
       dest!: broadcast_msg finish_round_no_leak [unfolded is_word_leak_def])

subsection \<open>Properties of the client and of what it is told\<close>

text \<open>
  C37: no message the router sends ever gives the secret word to an imposter: every
  \<open>GAME_STARTING\<close> with the imposter role carries no word, whatever the message, sender
  and state.
\<close>

theorem imposter_never_sent_word:
  assumes "(q, GAME_STARTING Imposter w ord ps st') \<in> set (snd (snd (handleMessage msg pid en ws st)))"
  shows "w = None"
proof -
  have "\<not> is_word_leak (GAME_STARTING Imposter w ord ps st')"
    using assms dispatch_no_leak [of q _ msg pid en ws st]
    by (auto simp: handleMessage_def split: prod.splits sum.splits if_splits)
  then show ?thesis by (cases w) (simp_all add: is_word_leak_def)
qed

theorem imposter_never_sent_word_witness:
  "case run_events init_process example_lobby_events of
     Inl _ \<Rightarrow> False
   | Inr (s, d) \<Rightarrow> \<exists>w ord ps st'.
       (''a'', GAME_STARTING Imposter w ord ps st')
         \<in> set (snd (snd (handleMessage (START_GAME None) (Some ''a'') (example_entropy ''x'') 0 s))) \<and>
       w = None"
proof -
  have "case run_events init_process example_lobby_events of
     Inl _ \<Rightarrow> False
   | Inr (s, d) \<Rightarrow> \<exists>w ord ps st'. (''a'', GAME_STARTING Imposter w ord ps st')
         \<in> set (snd (snd (handleMessage (START_GAME None) (Some ''a'') (example_entropy ''x'') 0 s)))"
    by (simp add: server_eval)
  then obtain s d w ord ps st' where e: "run_events init_process example_lobby_events = Inr (s, d)"
    and m: "(''a'', GAME_STARTING Imposter w ord ps st')
         \<in> set (snd (snd (handleMessage (START_GAME None) (Some ''a'') (example_entropy ''x'') 0 s)))"
    unfolding run_result_iff by (elim exE conjE) (rule that, assumption+)
  show ?thesis using e m imposter_never_sent_word [OF m] by auto
qed

text \<open>
  C38: a connection without a player that asks to join a room that does not exist, is
  full or is no longer in LOBBY, is refused without any message: the server state stays
  as it was and nothing is written to any socket, so the client, which has already stored
  the room code, receives nothing and stays in an empty lobby.
\<close>

theorem refused_joiner_waits_forever:
  assumes c: "map_of (conns s) c = Some cn" and p: "c_playerId cn = None"
    and refused: "case get_room s code of None \<Rightarrow> True
                  | Some (a, r) \<Rightarrow> phase r \<noteq> LOBBY \<or> MAX_PLAYERS \<le> length (players r)"
  shows "on_message s c (client_send (JoinGame n code)) en = (s, []) \<and>
         client_view (client_local initialGameState (JoinGame n code)) c
           (snd (on_message s c (client_send (JoinGame n code)) en)) =
         initialGameState\<lparr>cs_roomCode := Some (js_toUpperCase code)\<rparr>"
proof -
  have h: "handleMessage (JOIN_GAME code n) None en c s = (no_reply, s, [])"
  proof (cases "get_room s code")
    case (Some ar)
    then obtain a r where g: "get_room s code = Some (a, r)" by (cases ar) auto
    then show ?thesis using refused put_room_same [OF g]
      by (auto simp: handleMessage_def dispatch_def handle_join_def addPlayer_def str_truthy_def)
  qed (simp add: handleMessage_def dispatch_def handle_join_def str_truthy_def)
  have "on_message s c (client_send (JoinGame n code)) en = (s, [])"
    using c p h by (simp add: on_message_def Let_def str_truthy_def no_reply_def route_def update_triv)
  then show ?thesis by (simp add: client_view_def client_local_def)
qed

theorem refused_joiner_waits_forever_witness:
  "case run_events init_process (example_lobby_events @ [Receive 0 (START_GAME None) (example_entropy ''x''), Connect]) of
     Inl _ \<Rightarrow> False
   | Inr (s, d) \<Rightarrow>
       on_message s 3 (client_send (JoinGame ''Dee'' ''AAAA'')) (example_entropy ''d'') = (s, []) \<and>
       client_view (client_local initialGameState (JoinGame ''Dee'' ''AAAA'')) 3
         (snd (on_message s 3 (client_send (JoinGame ''Dee'' ''AAAA'')) (example_entropy ''d''))) =
       initialGameState\<lparr>cs_roomCode := Some (js_toUpperCase ''AAAA'')\<rparr>"
proof -
  have "case run_events init_process (example_lobby_events @ [Receive 0 (START_GAME None) (example_entropy ''x''), Connect]) of
     Inl _ \<Rightarrow> False
   | Inr (s, d) \<Rightarrow> map_of (conns s) 3 = Some \<lparr>c_playerId = None, c_roomCode = None\<rparr> \<and>
       (\<exists>r. get_room s ''AAAA'' = Some (0, r) \<and> phase r = ROLE_REVEAL)"
    by (simp add: server_eval)
  then obtain s d r where e: "run_events init_process (example_lobby_events @ [Receive 0 (START_GAME None) (example_entropy ''x''), Connect]) = Inr (s, d)"
    and c: "map_of (conns s) 3 = Some \<lparr>c_playerId = None, c_roomCode = None\<rparr>"
    and g: "get_room s ''AAAA'' = Some (0, r)" and ph: "phase r = ROLE_REVEAL"
    unfolding run_result_iff by (elim exE conjE) (rule that, assumption+)
  have "case get_room s ''AAAA'' of None \<Rightarrow> True
        | Some (a, r) \<Rightarrow> phase r \<noteq> LOBBY \<or> MAX_PLAYERS \<le> length (players r)"
    using g ph by simp
  moreover have "c_playerId \<lparr>c_playerId = None, c_roomCode = None\<rparr> = None" by simp
  ultimately have "on_message s 3 (client_send (JoinGame ''Dee'' ''AAAA'')) (example_entropy ''d'') = (s, []) \<and>
       client_view (client_local initialGameState (JoinGame ''Dee'' ''AAAA'')) 3
         (snd (on_message s 3 (client_send (JoinGame ''Dee'' ''AAAA'')) (example_entropy ''d''))) =
       initialGameState\<lparr>cs_roomCode := Some (js_toUpperCase ''AAAA'')\<rparr>"
    using refused_joiner_waits_forever [OF c] by blast
  then show ?thesis unfolding e sum.case prod.case .
qed

end
