(* ===== verification/Screens.thy ===== *)
theory Screens
  imports Client
begin

text \<open>
  The screens of the client (\<open>src/client/src/App.tsx\<close>, \<open>src/client/src/pages\<close>,
  \<open>src/client/src/components/Timer.tsx\<close>).  Each screen is modelled by what it decides:
  the page \<open>App\<close> routes to from the client state and its own two flags, the messages a
  button or a countdown sends, and the rows, labels and buttons a page shows.  A
  component's \<open>useState\<close> is a record, its handlers are functions on it, and the
  closures that an effect installs keep the values of the render that installed them.
  Styling is not modelled.
\<close>

section \<open>Constants and JavaScript string functions\<close>

definition VOTING_DURATION :: int where "VOTING_DURATION = 30000"

definition IMPOSTER_GUESS_DURATION :: int where "IMPOSTER_GUESS_DURATION = 20000"

text \<open>\<open>String.prototype.trim\<close> on byte strings: the white space characters of
  ECMAScript that fit in a byte are tab, line feed, vertical tab, form feed, carriage
  return, space and no-break space.\<close>

definition js_space :: "char \<Rightarrow> bool" where
  "js_space c \<longleftrightarrow> of_char c \<in> {9, 10, 11, 12, 13, 32, 160::nat}"

definition js_trim :: "string \<Rightarrow> string" where
  "js_trim s = rev (dropWhile js_space (rev (dropWhile js_space s)))"

section \<open>Home\<close>

record home_state =
  h_playerName :: string
  h_roomCode :: string
  h_showJoin :: bool

definition home_init :: home_state where
  "home_init = \<lparr>h_playerName = [], h_roomCode = [], h_showJoin = False\<rparr>"

definition home_roomCodeChange :: "string \<Rightarrow> home_state \<Rightarrow> home_state" where
  "home_roomCodeChange v h = h\<lparr>h_roomCode := take 4 (js_toUpperCase v)\<rparr>"

definition home_isNameValid :: "home_state \<Rightarrow> bool" where
  "home_isNameValid h \<longleftrightarrow> js_trim (h_playerName h) \<noteq> []"

definition home_isJoinValid :: "home_state \<Rightarrow> bool" where
  "home_isJoinValid h \<longleftrightarrow> home_isNameValid h \<and> length (js_trim (h_roomCode h)) = 4"

definition handleCreateGame :: "home_state \<Rightarrow> client_action option" where
  "handleCreateGame h =
     (if js_trim (h_playerName h) \<noteq> [] then Some (CreateGame (js_trim (h_playerName h))) else None)"

definition handleJoinGame :: "home_state \<Rightarrow> client_action option" where
  "handleJoinGame h =
     (if js_trim (h_playerName h) \<noteq> [] \<and> js_trim (h_roomCode h) \<noteq> []
      then Some (JoinGame (js_trim (h_playerName h)) (js_toUpperCase (js_trim (h_roomCode h))))
      else None)"

text \<open>The inputs and buttons of the page; a disabled button does nothing.\<close>

datatype home_event =
    TypeName string | TypeRoomCode string | ClickCreate | ClickShowJoin | ClickBack | ClickJoin

fun home_step :: "home_state \<Rightarrow> home_event \<Rightarrow> home_state \<times> client_action option" where
  "home_step h (TypeName v) = (h\<lparr>h_playerName := v\<rparr>, None)"
| "home_step h (TypeRoomCode v) = (if h_showJoin h then (home_roomCodeChange v h, None) else (h, None))"
| "home_step h ClickCreate = (h, if home_isNameValid h then handleCreateGame h else None)"
| "home_step h ClickShowJoin =
     (if \<not> h_showJoin h \<and> home_isNameValid h then (h\<lparr>h_showJoin := True\<rparr>, None) else (h, None))"
| "home_step h ClickBack = (if h_showJoin h then (h\<lparr>h_showJoin := False, h_roomCode := []\<rparr>, None) else (h, None))"
| "home_step h ClickJoin = (h, if h_showJoin h \<and> home_isJoinValid h then handleJoinGame h else None)"

section \<open>Lobby\<close>

definition CATEGORIES :: "string list" where
  "CATEGORIES = [''random'', ''animals'', ''food'', ''objects'', ''places'', ''actions'',
     ''vehicles'', ''professions'', ''nature'', ''sports'', ''movies & tv'', ''music'', ''clothing'']"

definition DRAW_TIME_OPTIONS :: "int list" where "DRAW_TIME_OPTIONS = [10, 15, 20, 30]"

definition WIN_SCORE_OPTIONS :: "int list" where "WIN_SCORE_OPTIONS = [5, 10, 15, 20]"

record lobby_local =
  lb_category :: string
  lb_drawTime :: int
  lb_canvasMode :: canvas_mode
  lb_winScore :: int

definition lobby_init :: lobby_local where
  "lobby_init = \<lparr>lb_category = ''random'', lb_drawTime = 20, lb_canvasMode = Shared, lb_winScore = 10\<rparr>"

definition lobby_allReady :: "client_state \<Rightarrow> bool" where
  "lobby_allReady s \<longleftrightarrow> MIN_PLAYERS \<le> length (cs_players s) \<and> list_all p_isReady (cs_players s)"

definition lobby_canStart :: "client_state \<Rightarrow> bool" where
  "lobby_canStart s \<longleftrightarrow> cs_isHost s \<and> lobby_allReady s"

text \<open>\<open>handleStartGame\<close>: the object has no \<open>customWord\<close>, and \<open>rounds\<close> is always 2.\<close>

definition lobby_settings :: "lobby_local \<Rightarrow> game_settings" where
  "lobby_settings l =
     \<lparr>category = lb_category l, customWord = None, drawTimeLimit = lb_drawTime l, rounds = 2,
      canvasMode = lb_canvasMode l, winScore = lb_winScore l\<rparr>"

datatype lobby_info = NeedPlayers | WaitingForReady

definition lobby_infoMessage :: "client_state \<Rightarrow> lobby_info option" where
  "lobby_infoMessage s =
     (if cs_isHost s \<and> \<not> lobby_allReady s
      then Some (if length (cs_players s) < MIN_PLAYERS then NeedPlayers else WaitingForReady) else None)"

text \<open>The host's setting buttons offer only the listed values; the ready button is there
  for everyone and the start button for the host, enabled when \<open>canStart\<close>.\<close>

datatype lobby_event =
    PickCategory nat | PickDrawTime nat | PickCanvasMode canvas_mode | PickWinScore nat
  | ClickReady | ClickStart

fun lobby_step :: "client_state \<Rightarrow> lobby_local \<Rightarrow> lobby_event \<Rightarrow> lobby_local \<times> client_action option" where
  "lobby_step s l (PickCategory i) =
     (if cs_isHost s \<and> i < length CATEGORIES then (l\<lparr>lb_category := CATEGORIES ! i\<rparr>, None) else (l, None))"
| "lobby_step s l (PickDrawTime i) =
     (if cs_isHost s \<and> i < length DRAW_TIME_OPTIONS then (l\<lparr>lb_drawTime := DRAW_TIME_OPTIONS ! i\<rparr>, None)
      else (l, None))"
| "lobby_step s l (PickCanvasMode m) = (if cs_isHost s then (l\<lparr>lb_canvasMode := m\<rparr>, None) else (l, None))"
| "lobby_step s l (PickWinScore i) =
     (if cs_isHost s \<and> i < length WIN_SCORE_OPTIONS then (l\<lparr>lb_winScore := WIN_SCORE_OPTIONS ! i\<rparr>, None)
      else (l, None))"
| "lobby_step s l ClickReady = (l, Some ToggleReady)"
| "lobby_step s l ClickStart =
     (l, if lobby_canStart s then Some (StartGameAction (lobby_settings l)) else None)"

text \<open>\<open>PlayerList\<close>: one row per player with the current-player ring, the host badge
  and, when asked, the ready mark.  The lobby passes \<open>state.playerId || undefined\<close>.\<close>

definition playerList_rows :: "player list \<Rightarrow> pid option \<Rightarrow> bool \<Rightarrow> (player \<times> bool \<times> bool \<times> bool option) list" where
  "playerList_rows ps current showReady =
     map (\<lambda>p. (p, Some (p_id p) = current, p_isHost p, if showReady then Some (p_isReady p) else None)) ps"

definition lobby_playerList :: "client_state \<Rightarrow> (player \<times> bool \<times> bool \<times> bool option) list" where
  "lobby_playerList s =
     playerList_rows (cs_players s) (if str_truthy (cs_playerId s) then cs_playerId s else None) True"

section \<open>Role reveal and game board\<close>

text \<open>What \<open>RoleReveal\<close> shows: the role title and the word box (\<open>'???'\<close> unless the
  role is \<open>artist\<close>; a \<open>null\<close> role shows the imposter screen).\<close>

definition reveal_isArtist :: "role option \<Rightarrow> bool" where
  "reveal_isArtist r \<longleftrightarrow> r = Some Artist"

definition reveal_roleText :: "role option \<Rightarrow> string" where
  "reveal_roleText r = (if reveal_isArtist r then ''Artist'' else ''IMPOSTER'')"

definition reveal_displayWord :: "role option \<Rightarrow> string option \<Rightarrow> string option" where
  "reveal_displayWord r w = (if reveal_isArtist r then w else Some ''???'')"

text \<open>\<open>GameBoard\<close>: \<open>state.activePlayerId === state.playerId\<close> compares two optional
  ids, \<open>null\<close> with \<open>null\<close> included; the round label divides by the number of players.\<close>

definition gb_isMyTurn :: "client_state \<Rightarrow> bool" where
  "gb_isMyTurn s \<longleftrightarrow> cs_activePlayerId s = cs_playerId s"

definition gb_roundLabel :: "client_state \<Rightarrow> int \<times> nat" where
  "gb_roundLabel s = (cs_currentRound s, length (cs_players s))"

definition gb_turnOrderDisplay :: "client_state \<Rightarrow> (player option \<times> bool \<times> bool) list" where
  "gb_turnOrderDisplay s =
     map (\<lambda>q. (find (\<lambda>p. p_id p = q) (cs_players s), list_ex (\<lambda>st. st_playerId st = q) (cs_strokes s),
               cs_activePlayerId s = Some q)) (cs_turnOrder s)"

definition gb_timerDuration :: "client_state \<Rightarrow> int option" where
  "gb_timerDuration s = (if str_truthy (cs_activePlayerId s) then Some (cs_drawTimeLimit s * 1000) else None)"

text \<open>The canvas of the board: enabled on the player's own turn, in the player's colour.\<close>

definition gb_canvas :: "client_state \<Rightarrow> bool \<times> string" where
  "gb_canvas s =
     (gb_isMyTurn s,
      if gb_isMyTurn s
      then (case find (\<lambda>p. Some (p_id p) = cs_playerId s) (cs_players s) of
              Some p \<Rightarrow> if p_color p \<noteq> [] then p_color p else ''#fff'' | None \<Rightarrow> ''#fff'')
      else ''#fff'')"

section \<open>Voting\<close>

record voting_ui =
  v_hasVoted :: bool
  v_selectedPlayerId :: "pid option"
  v_timeRemaining :: int

definition voting_mount :: voting_ui where
  "voting_mount = \<lparr>v_hasVoted = False, v_selectedPlayerId = None, v_timeRemaining = VOTING_DURATION div 1000\<rparr>"

text \<open>\<open>App\<close> passes \<open>state.playerId!\<close>, which is \<open>null\<close> when the player has no id;
  \<open>p.id !== null\<close> then keeps every player.\<close>

definition votablePlayers :: "player list \<Rightarrow> pid option \<Rightarrow> player list" where
  "votablePlayers ps me = filter (\<lambda>p. Some (p_id p) \<noteq> me) ps"

text \<open>A click on the button of the \<open>i\<close>-th votable player (the buttons are disabled once
  the player has voted), and the one-second countdown.  The click hands the id to the
  \<open>onVote\<close> prop.\<close>

datatype voting_event = ClickVote nat | VotingTick

fun voting_step :: "player list \<Rightarrow> pid option \<Rightarrow> voting_ui \<Rightarrow> voting_event \<Rightarrow> voting_ui \<times> pid option" where
  "voting_step ps me v (ClickVote i) =
     (if v_hasVoted v \<or> length (votablePlayers ps me) \<le> i then (v, None)
      else let q = p_id (votablePlayers ps me ! i) in
           (v\<lparr>v_selectedPlayerId := Some q, v_hasVoted := True\<rparr>, Some q))"
| "voting_step ps me v VotingTick = (v\<lparr>v_timeRemaining := max 0 (v_timeRemaining v - 1)\<rparr>, None)"

text \<open>What the page shows: the count of votes cast out of the roster, and one button per
  votable player, disabled once the player has voted and marked if it was chosen.\<close>

definition voting_view :: "player list \<Rightarrow> pid option \<Rightarrow> pid list \<Rightarrow> voting_ui \<Rightarrow> (nat \<times> nat) \<times> (player \<times> bool \<times> bool) list" where
  "voting_view ps me votedPlayerIds v =
     ((length votedPlayerIds, length ps),
      map (\<lambda>p. (p, v_hasVoted v, v_hasVoted v \<and> v_selectedPlayerId v = Some (p_id p))) (votablePlayers ps me))"

section \<open>Imposter guess\<close>

text \<open>
  \<open>ImposterGuess\<close> keeps the typed guess, whether it was submitted and the seconds
  left.  The countdown is a \<open>setInterval\<close> installed by an effect that depends on
  \<open>hasSubmitted\<close> only, so its callback calls the \<open>handleSubmit\<close> of the render in
  which the effect last ran, with the \<open>guess\<close> and \<open>hasSubmitted\<close> of that render:
  \<open>ig_closureGuess\<close> and \<open>ig_closureSubmitted\<close>.  The effect runs again after every
  render that changed \<open>hasSubmitted\<close>.
\<close>

record guess_ui =
  ig_guess :: string
  ig_hasSubmitted :: bool
  ig_timeRemaining :: int
  ig_closureGuess :: string
  ig_closureSubmitted :: bool

definition guess_mount :: "int \<Rightarrow> guess_ui" where
  "guess_mount tlim = \<lparr>ig_guess = [], ig_hasSubmitted = False, ig_timeRemaining = tlim,
                     ig_closureGuess = [], ig_closureSubmitted = False\<rparr>"

text \<open>\<open>handleSubmit\<close> of a render whose \<open>guess\<close> and \<open>hasSubmitted\<close> are given, followed
  by the re-run of the effect when \<open>hasSubmitted\<close> changed.\<close>

definition guess_submit :: "string \<Rightarrow> bool \<Rightarrow> guess_ui \<Rightarrow> guess_ui \<times> client_action option" where
  "guess_submit g submitted u =
     (if submitted then (u, None)
      else if ig_hasSubmitted u then (u, Some (SubmitGuessAction (js_trim g)))
      else (u\<lparr>ig_hasSubmitted := True, ig_closureGuess := ig_guess u, ig_closureSubmitted := True\<rparr>,
            Some (SubmitGuessAction (js_trim g))))"

datatype guess_event = TypeGuess string | ClickSubmitGuess | PressEnter | GuessTick

fun guess_step :: "guess_ui \<Rightarrow> guess_event \<Rightarrow> guess_ui \<times> client_action option" where
  "guess_step u (TypeGuess v) = (if ig_hasSubmitted u then (u, None) else (u\<lparr>ig_guess := v\<rparr>, None))"
| "guess_step u ClickSubmitGuess =
     (if ig_hasSubmitted u \<or> js_trim (ig_guess u) = [] then (u, None)
      else guess_submit (ig_guess u) (ig_hasSubmitted u) u)"
| "guess_step u PressEnter =
     (if ig_hasSubmitted u \<or> js_trim (ig_guess u) = [] then (u, None)
      else guess_submit (ig_guess u) (ig_hasSubmitted u) u)"
| "guess_step u GuessTick =
     (let next = max 0 (ig_timeRemaining u - 1); u1 = u\<lparr>ig_timeRemaining := next\<rparr> in
      if next = 0 \<and> \<not> ig_closureSubmitted u
      then guess_submit (ig_closureGuess u) (ig_closureSubmitted u) u1 else (u1, None))"

fun guess_run :: "guess_ui \<Rightarrow> guess_event list \<Rightarrow> guess_ui \<times> client_action list" where
  "guess_run u [] = (u, [])"
| "guess_run u (e # es) =
     (let (u1, a) = guess_step u e; (u2, out) = guess_run u1 es
      in (u2, (case a of None \<Rightarrow> [] | Some x \<Rightarrow> [x]) @ out))"

section \<open>Scoreboard\<close>

text \<open>\<open>result.totalScores[id] || 0\<close> and \<open>result.scores[id] || 0\<close>: a missing entry
  reads as 0.  \<open>Array.prototype.sort\<close> is stable, so sorting by the comparator
  \<open>total(b) - total(a)\<close> is \<open>sort_key\<close> on the negated total.\<close>

definition sb_points :: "(pid \<times> int) list \<Rightarrow> pid \<Rightarrow> int" where
  "sb_points m q = (case map_of m q of None \<Rightarrow> 0 | Some v \<Rightarrow> v)"

definition sb_sortedPlayers :: "round_result \<Rightarrow> player list \<Rightarrow> player list" where
  "sb_sortedPlayers res ps = sort_key (\<lambda>p. - sb_points (rr_totalScores res) (p_id p)) ps"

definition sb_winner :: "round_result \<Rightarrow> player list \<Rightarrow> int \<Rightarrow> player option" where
  "sb_winner res ps ws = find (\<lambda>p. ws \<le> sb_points (rr_totalScores res) (p_id p)) (sb_sortedPlayers res ps)"

definition sb_gameOver :: "round_result \<Rightarrow> player list \<Rightarrow> int \<Rightarrow> bool" where
  "sb_gameOver res ps ws \<longleftrightarrow> sb_winner res ps ws \<noteq> None"

text \<open>A row of the table: rank, player, round points, total, imposter and winner marks.\<close>

record sb_row =
  row_rank :: nat
  row_player :: player
  row_roundPoints :: int
  row_total :: int
  row_isImposter :: bool
  row_isWinner :: bool

definition sb_rows :: "round_result \<Rightarrow> player list \<Rightarrow> int \<Rightarrow> sb_row list" where
  "sb_rows res ps ws =
     map (\<lambda>(i, p). \<lparr>row_rank = i + 1, row_player = p, row_roundPoints = sb_points (rr_scores res) (p_id p),
                   row_total = sb_points (rr_totalScores res) (p_id p),
                   row_isImposter = (p_id p = rr_imposterId res),
                   row_isWinner = (sb_gameOver res ps ws \<and> Some (p_id p) = map_option p_id (sb_winner res ps ws))\<rparr>)
       (enumerate 0 (sb_sortedPlayers res ps))"

text \<open>The buttons the scoreboard offers and the action each sends: the break toggle for
  players other than the host while the game is not over, and \<open>Back to Lobby\<close> or
  \<open>Next Round\<close> for the host.\<close>

definition sb_actions ::
  "round_result \<Rightarrow> player list \<Rightarrow> pid option \<Rightarrow> int \<Rightarrow> pid list \<Rightarrow> bool \<Rightarrow> client_action list" where
  "sb_actions res ps me ws timeouts isHost =
     (if \<not> isHost \<and> \<not> sb_gameOver res ps ws
      then [if str_truthy me \<and> the me \<in> set timeouts then CancelTimeout else RequestTimeout] else []) @
     (if isHost then [if sb_gameOver res ps ws then PlayAgain else NextRound] else [])"

definition sb_breakRequests :: "round_result \<Rightarrow> player list \<Rightarrow> int \<Rightarrow> pid list \<Rightarrow> player list" where
  "sb_breakRequests res ps ws timeouts =
     (if \<not> sb_gameOver res ps ws \<and> timeouts \<noteq> []
      then List.map_filter (\<lambda>q. find (\<lambda>p. p_id p = q) ps) timeouts else [])"

section \<open>The countdown timer\<close>

text \<open>
  \<open>Timer\<close> reads \<open>Date.now()\<close> in milliseconds at mount and at every tick of its
  100 ms interval; a tick at time \<open>now\<close> sets the remaining time and calls
  \<open>onComplete\<close> once, guarded by \<open>completedRef\<close>.  The interval's callback belongs to the
  effect of the \<open>duration\<close> it was mounted with; a new key remounts the timer.
\<close>

record timer_state =
  tm_start :: int
  tm_remaining :: int
  tm_completed :: bool

definition timer_mount :: "int \<Rightarrow> int \<Rightarrow> timer_state" where
  "timer_mount duration now = \<lparr>tm_start = now, tm_remaining = duration, tm_completed = False\<rparr>"

definition timer_tick :: "int \<Rightarrow> int \<Rightarrow> timer_state \<Rightarrow> timer_state \<times> bool" where
  "timer_tick duration now t =
     (let elapsed = now - tm_start t; left = max 0 (duration - elapsed) in
      if left \<le> 0 \<and> \<not> tm_completed t then (t\<lparr>tm_remaining := left, tm_completed := True\<rparr>, True)
      else (t\<lparr>tm_remaining := left\<rparr>, False))"

fun timer_run :: "int \<Rightarrow> timer_state \<Rightarrow> int list \<Rightarrow> timer_state \<times> nat" where
  "timer_run duration t [] = (t, 0)"
| "timer_run duration t (now # ns) =
     (let (t1, fired) = timer_tick duration now t; (t2, k) = timer_run duration t1 ns
      in (t2, (if fired then 1 else 0) + k))"

definition timer_seconds :: "timer_state \<Rightarrow> int" where
  "timer_seconds t = \<lceil>real_of_int (tm_remaining t) / 1000\<rceil>"

datatype timer_color = Green | Yellow | Red

text \<open>\<open>percentage = remaining / duration * 100\<close>; with \<open>duration = 0\<close> it is \<open>NaN\<close>,
  every comparison is false and the colour stays green.\<close>

definition timer_color :: "int \<Rightarrow> timer_state \<Rightarrow> timer_color" where
  "timer_color duration t =
     (if duration = 0 then Green
      else let pct = real_of_int (tm_remaining t) / real_of_int duration * 100 in
           if pct < 30 then Red else if pct < 60 then Yellow else Green)"

section \<open>App: routing and the flags of the page\<close>

record app_ui =
  a_hasVoted :: bool
  a_showRoleReveal :: bool

definition app_init :: app_ui where
  "app_init = \<lparr>a_hasVoted = False, a_showRoleReveal = True\<rparr>"

datatype page =
    HomePage | LobbyPage | RoleRevealPage | GameBoardPage | VotingPage | ImposterGuessPage
  | GuessWaitPage | ScoreboardPage | FallbackPage

definition renderPage :: "client_state \<Rightarrow> app_ui \<Rightarrow> page" where
  "renderPage s u =
     (if \<not> str_truthy (cs_roomCode s) then HomePage
      else if cs_phase s = LOBBY then LobbyPage
      else if cs_phase s = ROLE_REVEAL \<and> a_showRoleReveal u then RoleRevealPage
      else if cs_phase s = DRAWING \<or> (cs_phase s = ROLE_REVEAL \<and> \<not> a_showRoleReveal u) then GameBoardPage
      else if cs_phase s = VOTING then VotingPage
      else if cs_phase s = IMPOSTER_GUESS then (if cs_role s = Some Imposter then ImposterGuessPage else GuessWaitPage)
      else if cs_phase s = SCOREBOARD \<and> cs_roundResult s \<noteq> None then ScoreboardPage
      else FallbackPage)"

definition renderError :: "client_state \<Rightarrow> string option" where
  "renderError s = (if str_truthy (cs_error s) then cs_error s else None)"

text \<open>The two effects on \<open>[state.phase]\<close>: after a render in which the phase changed,
  entering \<open>VOTING\<close> clears \<open>hasVoted\<close> and entering \<open>ROLE_REVEAL\<close> shows the reveal.\<close>

definition app_phase_effects :: "game_phase \<Rightarrow> client_state \<Rightarrow> app_ui \<Rightarrow> app_ui" where
  "app_phase_effects old s u =
     (if cs_phase s = old then u
      else (if cs_phase s = ROLE_REVEAL then \<lambda>v. v\<lparr>a_showRoleReveal := True\<rparr> else id)
             ((if cs_phase s = VOTING then \<lambda>v. v\<lparr>a_hasVoted := False\<rparr> else id) u))"

definition app_handleVote :: "pid \<Rightarrow> app_ui \<Rightarrow> app_ui \<times> client_action option" where
  "app_handleVote q u = (if \<not> a_hasVoted u then (u\<lparr>a_hasVoted := True\<rparr>, Some (SubmitVoteAction q)) else (u, None))"

definition app_roleRevealComplete :: "app_ui \<Rightarrow> app_ui" where
  "app_roleRevealComplete u = u\<lparr>a_showRoleReveal := False\<rparr>"

text \<open>The page as a whole: the client state, the flags of \<open>App\<close>, and the state of the
  \<open>Voting\<close> page, which is mounted fresh whenever \<open>App\<close> routes to it.  A message from
  the server goes through the reducer and then the effects; the reveal ends when its own
  timer fires; a click on a vote button goes through \<open>Voting\<close> and then \<open>App\<close>.\<close>

record app_page =
  ap_state :: client_state
  ap_ui :: app_ui
  ap_voting :: voting_ui

datatype app_event = ServerMsg server_message | RevealDone | VotingUI voting_event

definition app_remount :: "client_state \<Rightarrow> app_ui \<Rightarrow> app_page \<Rightarrow> app_page" where
  "app_remount s u a =
     \<lparr>ap_state = s, ap_ui = u,
      ap_voting = (if renderPage s u = VotingPage \<and> renderPage (ap_state a) (ap_ui a) \<noteq> VotingPage
                   then voting_mount else ap_voting a)\<rparr>"

fun app_step :: "app_page \<Rightarrow> app_event \<Rightarrow> app_page \<times> client_action option" where
  "app_step a (ServerMsg m) =
     (let s1 = fst (client_handle (ap_state a) m); u1 = app_phase_effects (cs_phase (ap_state a)) s1 (ap_ui a)
      in (app_remount s1 u1 a, None))"
| "app_step a RevealDone =
     (if renderPage (ap_state a) (ap_ui a) = RoleRevealPage
      then (app_remount (ap_state a) (app_roleRevealComplete (ap_ui a)) a, None) else (a, None))"
| "app_step a (VotingUI e) =
     (if renderPage (ap_state a) (ap_ui a) \<noteq> VotingPage then (a, None)
      else let (v1, q) = voting_step (cs_players (ap_state a)) (cs_playerId (ap_state a)) (ap_voting a) e
           in case q of
                None \<Rightarrow> (a\<lparr>ap_voting := v1\<rparr>, None)
              | Some t \<Rightarrow> let (u1, act) = app_handleVote t (ap_ui a) in (a\<lparr>ap_voting := v1, ap_ui := u1\<rparr>, act))"

fun app_run :: "app_page \<Rightarrow> app_event list \<Rightarrow> app_page \<times> client_action list" where
  "app_run a [] = (a, [])"
| "app_run a (e # es) =
     (let (a1, x) = app_step a e; (a2, out) = app_run a1 es
      in (a2, (case x of None \<Rightarrow> [] | Some y \<Rightarrow> [y]) @ out))"

text \<open>The page of a player after the messages delivered to its connection, in order.\<close>

definition app_start :: app_page where
  "app_start = \<lparr>ap_state = initialGameState, ap_ui = app_init, ap_voting = voting_mount\<rparr>"

definition app_view :: "nat \<Rightarrow> delivery \<Rightarrow> app_page" where
  "app_view c d = fst (app_run app_start (map (\<lambda>(_, m). ServerMsg m) (filter (\<lambda>(w, _). w = c) d)))"

text \<open>The closure of the countdown sees the same \<open>hasSubmitted\<close> as the page.\<close>

definition guess_inv :: "guess_ui \<Rightarrow> bool" where
  "guess_inv u \<longleftrightarrow> ig_closureSubmitted u = ig_hasSubmitted u"

section \<open>Lemmas\<close>

subsection \<open>Imposter guess\<close>

lemma js_trim_Nil [simp]: "js_trim [] = []"
  by (simp add: js_trim_def)

lemma guess_typing:
  "\<not> ig_hasSubmitted u \<Longrightarrow>
   guess_run u (map TypeGuess vs @ es) = guess_run (if vs = [] then u else u\<lparr>ig_guess := last vs\<rparr>) es"
  by (induction vs arbitrary: u) (auto simp: Let_def)

lemma guess_countdown:
  "ig_timeRemaining u = int k \<Longrightarrow> 0 < k \<Longrightarrow> \<not> ig_closureSubmitted u \<Longrightarrow> \<not> ig_hasSubmitted u \<Longrightarrow>
   snd (guess_run u (replicate k GuessTick)) = [SubmitGuessAction (js_trim (ig_closureGuess u))]"
proof (induction k arbitrary: u)
  case (Suc k)
  show ?case
  proof (cases "k = 0")
    case True
    with Suc.prems show ?thesis by (simp add: guess_submit_def Let_def)
  next
    case False
    have t: "guess_step u GuessTick = (u\<lparr>ig_timeRemaining := int k\<rparr>, None)"
      using Suc.prems False by (simp add: Let_def)
    have "snd (guess_run (u\<lparr>ig_timeRemaining := int k\<rparr>) (replicate k GuessTick)) =
          [SubmitGuessAction (js_trim (ig_closureGuess u))]"
      using Suc.IH [of "u\<lparr>ig_timeRemaining := int k\<rparr>"] Suc.prems False by simp
    then show ?thesis by (simp add: t split_def del: guess_step.simps)
  qed
qed simp

text \<open>
  C40: when the imposter's countdown ends, the guess sent is the empty string, whatever
  the imposter typed.  The interval callback calls the \<open>handleSubmit\<close> of the first
  render, whose \<open>guess\<close> is still empty: typing does not re-run the effect.
\<close>

theorem guess_timeout_discards_typed_guess:
  "snd (guess_run (guess_mount (IMPOSTER_GUESS_DURATION div 1000)) (map TypeGuess vs @ replicate 20 GuessTick)) =
   [SubmitGuessAction []]"
proof -
  let ?u = "guess_mount (IMPOSTER_GUESS_DURATION div 1000)"
  let ?u1 = "if vs = [] then ?u else ?u\<lparr>ig_guess := last vs\<rparr>"
  have "snd (guess_run ?u1 (replicate 20 GuessTick)) = [SubmitGuessAction (js_trim (ig_closureGuess ?u1))]"
    by (rule guess_countdown) (simp_all add: guess_mount_def IMPOSTER_GUESS_DURATION_def)
  moreover have "ig_closureGuess ?u1 = []" by (simp add: guess_mount_def)
  moreover have "guess_run ?u (map TypeGuess vs @ replicate 20 GuessTick) = guess_run ?u1 (replicate 20 GuessTick)"
    by (rule guess_typing) (simp add: guess_mount_def)
  ultimately show ?thesis by simp
qed

lemma guess_step_inv: "guess_inv u \<Longrightarrow> guess_inv (fst (guess_step u e))"
  by (cases e) (auto simp: guess_inv_def guess_submit_def Let_def)

lemma guess_step_submitted:
  "guess_inv u \<Longrightarrow> ig_hasSubmitted u \<Longrightarrow> guess_step u e = (u', x) \<Longrightarrow> x = None \<and> ig_hasSubmitted u'"
  by (cases e) (auto simp: guess_inv_def guess_submit_def Let_def split: if_splits)

lemma guess_step_sends:
  "guess_inv u \<Longrightarrow> guess_step u e = (u', Some x) \<Longrightarrow> ig_hasSubmitted u'"
  by (cases e) (auto simp: guess_inv_def guess_submit_def Let_def split: if_splits)

lemma guess_run_submitted:
  "guess_inv u \<Longrightarrow> ig_hasSubmitted u \<Longrightarrow> snd (guess_run u es) = []"
proof (induction es arbitrary: u)
  case (Cons e es)
  obtain u' x where st: "guess_step u e = (u', x)" by fastforce
  with guess_step_submitted [OF Cons.prems st] guess_step_inv [OF Cons.prems(1), of e] Cons.IH [of u']
  show ?case by simp
qed simp

text \<open>The page sends at most one guess, by button, key or countdown.\<close>

lemma guess_run_at_most_once:
  "guess_inv u \<Longrightarrow> length (snd (guess_run u es)) \<le> 1"
proof (induction es arbitrary: u)
  case (Cons e es)
  obtain u' x where st: "guess_step u e = (u', x)" by fastforce
  have i: "guess_inv u'" using guess_step_inv [OF Cons.prems, of e] st by simp
  show ?case
  proof (cases x)
    case None
    with st Cons.IH [OF i] show ?thesis by simp
  next
    case (Some y)
    with st guess_step_sends [OF Cons.prems] guess_run_submitted [OF i, of es] show ?thesis
      by (simp add: split_def)
  qed
qed simp


subsection \<open>Timer\<close>

lemma timer_tick_start [simp]: "tm_start (fst (timer_tick d now t)) = tm_start t"
  by (simp add: timer_tick_def Let_def)

lemma timer_tick_fires:
  "snd (timer_tick d now t) \<longleftrightarrow> \<not> tm_completed t \<and> tm_start t + d \<le> now"
  by (auto simp: timer_tick_def Let_def)

lemma timer_tick_completed:
  "tm_completed (fst (timer_tick d now t)) \<longleftrightarrow> tm_completed t \<or> tm_start t + d \<le> now"
  by (auto simp: timer_tick_def Let_def)

lemma timer_run_count:
  "snd (timer_run d t ns) = (if \<not> tm_completed t \<and> list_ex (\<lambda>now. tm_start t + d \<le> now) ns then 1 else 0)"
proof (induction ns arbitrary: t)
  case (Cons now ns)
  show ?case
    using Cons.IH [of "fst (timer_tick d now t)"] timer_tick_fires [of d now t] timer_tick_completed [of d now t]
    by (auto simp: split_def Let_def)
qed simp

text \<open>C22: a mounted timer calls \<open>onComplete\<close> exactly once if some tick comes at or
  after the end of its duration, and never otherwise, whatever the clock does.\<close>

theorem timer_completes_once:
  "snd (timer_run d (timer_mount d n0) ns) = (if list_ex (\<lambda>now. n0 + d \<le> now) ns then 1 else 0)"
  by (simp add: timer_run_count timer_mount_def)

lemma timer_tick_bounds:
  "tm_start t \<le> now \<Longrightarrow> 0 \<le> tm_remaining (fst (timer_tick d now t)) \<and>
     tm_remaining (fst (timer_tick d now t)) \<le> max 0 d"
  by (auto simp: timer_tick_def Let_def)

lemma timer_seconds_bounds:
  "0 \<le> tm_remaining t \<Longrightarrow> tm_remaining t \<le> d \<Longrightarrow>
   0 \<le> timer_seconds t \<and> timer_seconds t \<le> \<lceil>real_of_int d / 1000\<rceil>"
  by (auto simp: timer_seconds_def intro: ceiling_mono divide_right_mono)

lemma timer_pct_mono:
  "0 < d \<Longrightarrow> tm_remaining t' \<le> tm_remaining t \<Longrightarrow>
   real_of_int (tm_remaining t') / real_of_int d * 100 \<le> real_of_int (tm_remaining t) / real_of_int d * 100"
  by (simp add: divide_right_mono)

lemma timer_color_red_stays:
  "0 < d \<Longrightarrow> timer_color d t = Red \<Longrightarrow> tm_remaining t' \<le> tm_remaining t \<Longrightarrow> timer_color d t' = Red"
  using timer_pct_mono [of d t' t] by (auto simp: timer_color_def Let_def split: if_splits)

lemma timer_color_green_before:
  "0 < d \<Longrightarrow> timer_color d t' = Green \<Longrightarrow> tm_remaining t' \<le> tm_remaining t \<Longrightarrow> timer_color d t = Green"
  using timer_pct_mono [of d t' t] by (auto simp: timer_color_def Let_def split: if_splits)

subsection \<open>Scoreboard\<close>

lemma set_sb_sortedPlayers [simp]: "set (sb_sortedPlayers res ps) = set ps"
  by (simp add: sb_sortedPlayers_def)

lemma sb_gameOver_iff:
  "sb_gameOver res ps ws \<longleftrightarrow> list_ex (\<lambda>p. ws \<le> sb_points (rr_totalScores res) (p_id p)) ps"
  by (auto simp: sb_gameOver_def sb_winner_def find_None_iff list_ex_iff)

lemma sb_sorted_desc:
  "sorted (map (\<lambda>p. - sb_points (rr_totalScores res) (p_id p)) (sb_sortedPlayers res ps))"
  by (simp add: sb_sortedPlayers_def)

lemma sb_sorted_stable:
  "filter (\<lambda>p. sb_points (rr_totalScores res) (p_id p) = k) (sb_sortedPlayers res ps) =
   filter (\<lambda>p. sb_points (rr_totalScores res) (p_id p) = k) ps"
  using sort_key_stable [of "\<lambda>p. - sb_points (rr_totalScores res) (p_id p)" "- k" ps]
  by (simp add: sb_sortedPlayers_def)

text \<open>The winner the scoreboard crowns has the highest total of all players.\<close>

lemma sb_winner_top:
  assumes "sb_winner res ps ws = Some w" and "p \<in> set ps"
  shows "sb_points (rr_totalScores res) (p_id p) \<le> sb_points (rr_totalScores res) (p_id w)"
proof -
  let ?f = "\<lambda>p. - sb_points (rr_totalScores res) (p_id p)"
  let ?xs = "sb_sortedPlayers res ps"
  obtain i where i: "i < length ?xs" "?xs ! i = w" "ws \<le> sb_points (rr_totalScores res) (p_id w)"
    and before: "\<forall>j<i. \<not> ws \<le> sb_points (rr_totalScores res) (p_id (?xs ! j))"
    using assms(1) by (auto simp: sb_winner_def find_Some_iff)
  have s: "sorted (map ?f ?xs)" by (rule sb_sorted_desc)
  have "i = 0"
  proof (rule ccontr)
    assume "i \<noteq> 0"
    then have "?f (?xs ! 0) \<le> ?f (?xs ! i)" using s i(1) by (auto simp: sorted_iff_nth_mono)
    then show False using before \<open>i \<noteq> 0\<close> i(2,3) by auto
  qed
  obtain k where k: "k < length ?xs" "?xs ! k = p" using assms(2) by (metis in_set_conv_nth set_sb_sortedPlayers)
  have "?f (?xs ! 0) \<le> ?f (?xs ! k)" using s k(1) by (auto simp: sorted_iff_nth_mono)
  then show ?thesis using \<open>i = 0\<close> i(2) k(2) by simp
qed


lemma calculateScores_totals:
  "calculateScores r = (Inr res, r') \<Longrightarrow> rr_totalScores res = map (\<lambda>(q, pl). (q, p_score pl)) (players r')"
  by (auto simp: calculateScores_def Let_def split: option.splits)

lemma map_of_score_map:
  "map_of (map (\<lambda>(q, pl). (q, p_score pl)) ps) q = map_option p_score (map_of ps q)"
  by (induction ps) auto

text \<open>Client and server agree on the end of the game: after a round is scored, the host's
  scoreboard offers \<open>Back to Lobby\<close> instead of \<open>Next Round\<close> exactly when the server
  would refuse \<open>NEXT_ROUND\<close> because someone has won, when the client lists the room's
  roster.\<close>

lemma sb_gameOver_someone_won:
  assumes "calculateScores r = (Inr res, r')" and "room_inv r"
    and "map p_id cps = map fst (players r')"
  shows "sb_gameOver res cps (winScore (settings r')) \<longleftrightarrow> someone_won r'"
proof -
  have inv: "room_inv r'" using calculateScores_inv [OF assms(2)] assms(1) by simp
  have pts: "sb_points (rr_totalScores res) q = (case map_of (players r') q of None \<Rightarrow> 0 | Some pl \<Rightarrow> p_score pl)" for q
    by (simp add: sb_points_def calculateScores_totals [OF assms(1)] map_of_score_map split: option.split)
  have "list_ex (\<lambda>p. winScore (settings r') \<le> sb_points (rr_totalScores res) (p_id p)) cps \<longleftrightarrow>
        (\<exists>q \<in> set (map fst (players r')). winScore (settings r') \<le> sb_points (rr_totalScores res) q)"
    by (metis (no_types, lifting) assms(3) list.set_map list_ex_iff image_iff)
  also have "\<dots> \<longleftrightarrow> list_ex (\<lambda>(_, pl). winScore (settings r') \<le> p_score pl) (players r')"
    using inv by (auto simp: pts list_ex_iff room_inv_def dest: map_of_is_SomeI intro!: bexI)
  finally show ?thesis by (simp add: sb_gameOver_iff someone_won_def)
qed

subsection \<open>App and the voting page\<close>

lemma renderPage_hasVoted [simp]: "renderPage s (u\<lparr>a_hasVoted := b\<rparr>) = renderPage s u"
  by (simp add: renderPage_def)

lemma votable_not_self: "i < length (votablePlayers ps me) \<Longrightarrow> Some (p_id (votablePlayers ps me ! i)) \<noteq> me"
  using nth_mem [of i "votablePlayers ps me"] by (auto simp: votablePlayers_def)

lemma app_vote_not_self:
  "app_step a e = (a', Some (SubmitVoteAction q)) \<Longrightarrow> cs_playerId (ap_state a) \<noteq> Some q"
  by (cases e) (auto simp: Let_def app_handleVote_def not_le split: if_splits option.splits prod.splits
      elim!: voting_step.elims dest!: votable_not_self)

lemma app_voted_silent:
  "a_hasVoted (ap_ui a) \<Longrightarrow> snd (app_run a (map VotingUI vs)) = []"
proof (induction vs arbitrary: a)
  case (Cons v vs)
  obtain v1 q where vq: "voting_step (cs_players (ap_state a)) (cs_playerId (ap_state a)) (ap_voting a) v = (v1, q)"
    by fastforce
  have "snd (app_run (a\<lparr>ap_voting := v1\<rparr>) (map VotingUI vs)) = []" using Cons.prems by (intro Cons.IH) simp
  moreover have "snd (app_run a (map VotingUI vs)) = []" using Cons.prems by (rule Cons.IH)
  ultimately show ?case using Cons.prems vq
    by (auto simp: Let_def app_handleVote_def split_def split: option.splits)
qed simp

text \<open>On the voting page a player sends at most one vote (both \<open>Voting\<close> and \<open>App\<close> keep
  a \<open>hasVoted\<close> flag), and never one for itself.\<close>

lemma app_one_vote:
  "length (snd (app_run a (map VotingUI vs))) \<le> 1"
proof (induction vs arbitrary: a)
  case (Cons v vs)
  show ?case
  proof (cases "renderPage (ap_state a) (ap_ui a) = VotingPage")
    case True
    obtain v1 q where vq: "voting_step (cs_players (ap_state a)) (cs_playerId (ap_state a)) (ap_voting a) v = (v1, q)"
      by fastforce
    show ?thesis
    proof (cases q)
      case None
      then show ?thesis using True vq Cons.IH [of "a\<lparr>ap_voting := v1\<rparr>"] by (simp add: split_def)
    next
      case (Some t)
      show ?thesis
      proof (cases "a_hasVoted (ap_ui a)")
        case True
        then show ?thesis using \<open>renderPage _ _ = VotingPage\<close> vq Some Cons.IH [of "a\<lparr>ap_voting := v1\<rparr>"]
          by (simp add: split_def app_handleVote_def)
      next
        case False
        let ?a1 = "a\<lparr>ap_voting := v1, ap_ui := (ap_ui a)\<lparr>a_hasVoted := True\<rparr>\<rparr>"
        have "snd (app_run ?a1 (map VotingUI vs)) = []" by (rule app_voted_silent) simp
        then show ?thesis using \<open>renderPage _ _ = VotingPage\<close> vq Some False
          by (simp add: split_def app_handleVote_def)
      qed
    qed
  next
    case False
    then show ?thesis using Cons.IH [of a] by (simp add: split_def)
  qed
qed simp

lemma voting_view_not_self:
  "(p, x) \<in> set (snd (voting_view ps me voted v)) \<Longrightarrow> Some (p_id p) \<noteq> me"
  by (auto simp: voting_view_def votablePlayers_def)

lemma playerList_one_current:
  "distinct (map p_id ps) \<Longrightarrow> length (filter (\<lambda>(p, cur, _). cur) (playerList_rows ps current b)) \<le> 1"
proof (induction ps)
  case (Cons q ps)
  have "Some (p_id q) = current \<Longrightarrow> filter (\<lambda>(p, cur, _). cur) (playerList_rows ps current b) = []"
    using Cons.prems by (auto simp: playerList_rows_def filter_empty_conv image_iff)
  with Cons show ?case by (auto simp: playerList_rows_def)
qed (simp add: playerList_rows_def)

subsection \<open>Lobby and home\<close>

lemma CATEGORIES_builtin: "set CATEGORIES = set (getCategories new_word_bank)"
  by (auto simp: CATEGORIES_def getCategories_def categories_new_word_bank)

lemma lobby_step_category:
  "lb_category l \<in> set CATEGORIES \<Longrightarrow> lb_category (fst (lobby_step s l e)) \<in> set CATEGORIES"
  by (cases e) auto

text \<open>The lobby starts a game only for a host whose roster is complete and ready, with a
  category the word supplier knows, so its \<open>START_GAME\<close> never fails on the category.\<close>

lemma lobby_start_settings:
  "lobby_step s l e = (l', Some (StartGameAction st)) \<Longrightarrow> lb_category l \<in> set CATEGORIES \<Longrightarrow>
   category st \<in> set (getCategories new_word_bank) \<and> customWord st = None \<and> rounds st = 2 \<and>
   cs_isHost s \<and> lobby_allReady s"
  by (cases e) (auto simp: lobby_settings_def lobby_canStart_def CATEGORIES_builtin split: if_splits)

lemma js_toUpperCase_length [simp]: "length (js_toUpperCase s) = length s"
  by (simp add: js_toUpperCase_def)

lemma js_toUpperCase_no_lower:
  "c \<in> set (js_toUpperCase s) \<Longrightarrow> \<not> (CHR ''a'' \<le> c \<and> c \<le> CHR ''z'')"
  by (auto simp: js_toUpperCase_def less_eq_char_def)

lemma js_toUpperCase_idem: "js_toUpperCase (js_toUpperCase s) = js_toUpperCase s"
  by (auto simp: js_toUpperCase_def less_eq_char_def)

text \<open>A room code sent from the home page has four characters and no lower-case letter,
  and \<open>joinGame\<close>'s second \<open>toUpperCase\<close> leaves it as it is.\<close>

lemma home_join_code:
  "home_step h e = (h', Some (JoinGame n code)) \<Longrightarrow>
   length code = 4 \<and> (\<forall>c \<in> set code. \<not> (CHR ''a'' \<le> c \<and> c \<le> CHR ''z'')) \<and> js_toUpperCase code = code"
  by (cases e) (auto simp: handleJoinGame_def handleCreateGame_def home_isJoinValid_def js_toUpperCase_idem
      dest: js_toUpperCase_no_lower split: if_splits)

subsection \<open>The board after a new round\<close>

text \<open>
  \<open>GAME_STARTING\<close> does not reset \<open>activePlayerId\<close>.  A player who drew the last turn
  of a round therefore sees \<open>Your Turn!\<close> and an enabled canvas when its reveal ends
  before the server's \<open>TURN_START\<close> arrives: \<open>App\<close> shows the board in
  \<open>ROLE_REVEAL\<close> once the reveal is done, and the server refuses strokes in that phase.
\<close>

lemma stale_turn_shown:
  assumes "str_truthy (cs_roomCode (ap_state a))"
    and "cs_activePlayerId (ap_state a) = cs_playerId (ap_state a)"
    and "a1 = fst (app_step (fst (app_step a (ServerMsg (GAME_STARTING rl w ord ps st)))) RevealDone)"
  shows "cs_phase (ap_state a1) = ROLE_REVEAL \<and> renderPage (ap_state a1) (ap_ui a1) = GameBoardPage \<and>
         gb_isMyTurn (ap_state a1)"
  using assms
  by (auto simp: Let_def renderPage_def app_phase_effects_def app_remount_def app_roleRevealComplete_def
      gb_isMyTurn_def)

end
