(* ===== verification/Transport.thy ===== *)
theory Transport
  imports SharedTypes
begin

text \<open>
  The two browser-side state machines under the client's screens.  The WebSocket
  wrapper of \<open>src/client/src/hooks/useWebSocket.ts\<close> keeps the socket of the page, the
  URL to reconnect to, a retry counter, the reconnect timer and a queue of messages sent
  while the socket is still connecting; \<open>ws_step\<close> is one call of the hook or one event
  of the socket, and returns what is written to the wire.  The pointer handlers of
  \<open>src/client/src/hooks/useCanvas.ts\<close> turn a press, moves and a release into one stroke;
  \<open>canvas_step\<close> is one pointer event and returns the stroke it completes, if any.
  Painting on the 2D context is not modelled: it changes no state of the program.
\<close>

section \<open>The WebSocket wrapper\<close>

text \<open>\<open>WebSocket.readyState\<close> of the socket \<open>wsRef.current\<close> points to; \<open>None\<close> is \<open>null\<close>.
  \<open>CLOSING\<close> is folded into \<open>CLOSED\<close>: the hook tests only for \<open>OPEN\<close> and
  \<open>CONNECTING\<close>.\<close>

datatype ready_state = CONNECTING | OPEN | CLOSED

record ws_client =
  ws_connected :: bool
  ws_sock :: "ready_state option"
  ws_url :: "string option"
  ws_retries :: nat
  ws_timer :: bool
  ws_pending :: "client_message list"

definition MAX_RETRIES :: nat where "MAX_RETRIES = 5"

definition ws_init :: ws_client where
  "ws_init = \<lparr>ws_connected = False, ws_sock = None, ws_url = None, ws_retries = 0,
              ws_timer = False, ws_pending = []\<rparr>"

text \<open>\<open>cleanup\<close>: clear the reconnect timer, detach the handlers of the current socket
  and close it.  With its handlers detached, the old socket's later events reach no code,
  so the model drops the socket.\<close>

definition ws_cleanup :: "ws_client \<Rightarrow> ws_client" where
  "ws_cleanup s = s\<lparr>ws_timer := False, ws_sock := None\<rparr>"

definition ws_connect :: "string \<Rightarrow> ws_client \<Rightarrow> ws_client" where
  "ws_connect u s = (ws_cleanup s)\<lparr>ws_url := Some u, ws_retries := 0, ws_sock := Some CONNECTING\<rparr>"

text \<open>\<open>ws.onopen\<close>: the browser has set \<open>readyState\<close> to \<open>OPEN\<close>; the queue is flushed in
  order with \<open>shift()\<close>.\<close>

definition ws_onopen :: "ws_client \<Rightarrow> ws_client \<times> client_message list" where
  "ws_onopen s = (s\<lparr>ws_sock := Some OPEN, ws_connected := True, ws_retries := 0, ws_pending := []\<rparr>,
                  ws_pending s)"

definition ws_onclose :: "ws_client \<Rightarrow> ws_client" where
  "ws_onclose s =
     (let s1 = s\<lparr>ws_sock := Some CLOSED, ws_connected := False\<rparr> in
      if ws_retries s < MAX_RETRIES \<and> str_truthy (ws_url s)
      then s1\<lparr>ws_retries := ws_retries s + 1, ws_timer := True\<rparr> else s1)"

definition ws_onerror :: "ws_client \<Rightarrow> ws_client" where
  "ws_onerror s = s\<lparr>ws_connected := False\<rparr>"

text \<open>The callback of the reconnect timer: \<open>if (urlRef.current) connect(urlRef.current)\<close>.\<close>

definition ws_reconnect :: "ws_client \<Rightarrow> ws_client" where
  "ws_reconnect s =
     (let s1 = s\<lparr>ws_timer := False\<rparr> in
      case ws_url s of Some u \<Rightarrow> if u \<noteq> [] then ws_connect u s1 else s1 | None \<Rightarrow> s1)"

definition ws_disconnect :: "ws_client \<Rightarrow> ws_client" where
  "ws_disconnect s = (ws_cleanup (s\<lparr>ws_url := None\<rparr>))\<lparr>ws_connected := False\<rparr>"

text \<open>\<open>send\<close>: written at once on an open socket, queued on a connecting one, and
  otherwise dropped with a console warning.\<close>

definition ws_send :: "client_message \<Rightarrow> ws_client \<Rightarrow> ws_client \<times> client_message list" where
  "ws_send m s =
     (if ws_sock s = Some OPEN then (s, [m])
      else if ws_sock s = Some CONNECTING then (s\<lparr>ws_pending := ws_pending s @ [m]\<rparr>, [])
      else (s, []))"

text \<open>The events: the hook's three calls, and what the browser reports on the current
  socket (open, close, error) or the reconnect timer firing.  An event that cannot occur
  in the state (the open of a socket that is not connecting, a timer that is not armed)
  changes nothing.\<close>

datatype ws_event =
    WsConnect string
  | WsDisconnect
  | WsSend client_message
  | SockOpen
  | SockClose
  | SockError
  | ReconnectFires

fun ws_step :: "ws_client \<Rightarrow> ws_event \<Rightarrow> ws_client \<times> client_message list" where
  "ws_step s (WsConnect u) = (ws_connect u s, [])"
| "ws_step s WsDisconnect = (ws_disconnect s, [])"
| "ws_step s (WsSend m) = ws_send m s"
| "ws_step s SockOpen = (if ws_sock s = Some CONNECTING then ws_onopen s else (s, []))"
| "ws_step s SockClose =
     (if ws_sock s = Some CONNECTING \<or> ws_sock s = Some OPEN then (ws_onclose s, []) else (s, []))"
| "ws_step s SockError =
     (if ws_sock s = Some CONNECTING \<or> ws_sock s = Some OPEN then (ws_onerror s, []) else (s, []))"
| "ws_step s ReconnectFires = (if ws_timer s then (ws_reconnect s, []) else (s, []))"

fun ws_run :: "ws_client \<Rightarrow> ws_event list \<Rightarrow> ws_client \<times> client_message list" where
  "ws_run s [] = (s, [])"
| "ws_run s (e # es) =
     (let (s1, w1) = ws_step s e; (s2, w2) = ws_run s1 es in (s2, w1 @ w2))"

inductive ws_reachable :: "ws_client \<Rightarrow> bool" where
  ws_start: "ws_reachable ws_init"
| ws_next: "ws_reachable s \<Longrightarrow> ws_reachable (fst (ws_step s e))"

text \<open>The messages a send accepts (written or queued) rather than drops.\<close>

fun ws_accepted :: "ws_client \<Rightarrow> ws_event list \<Rightarrow> client_message list" where
  "ws_accepted s [] = []"
| "ws_accepted s (e # es) =
     (case e of
        WsSend m \<Rightarrow> (if ws_sock s = Some OPEN \<or> ws_sock s = Some CONNECTING then [m] else [])
      | _ \<Rightarrow> []) @ ws_accepted (fst (ws_step s e)) es"

definition ws_inv :: "ws_client \<Rightarrow> bool" where
  "ws_inv s \<longleftrightarrow>
     ws_retries s \<le> 1 \<and>
     (ws_sock s = Some CONNECTING \<or> ws_sock s = Some OPEN \<longrightarrow> ws_retries s = 0) \<and>
     (ws_sock s = Some OPEN \<longrightarrow> ws_pending s = []) \<and>
     (ws_timer s \<longrightarrow> ws_sock s = Some CLOSED)"

section \<open>The pointer-to-stroke state machine of the canvas\<close>

text \<open>The canvas element: its bitmap size (\<open>canvas.width\<close>, \<open>canvas.height\<close>) and its
  box on the page (\<open>getBoundingClientRect()\<close>).  \<open>canvasRef.current\<close> may be \<open>null\<close>.
  On a box of width or height 0 JavaScript divides to \<open>NaN\<close> or an infinity, which a
  \<open>real\<close> cannot hold; there the model's quotient is HOL's \<open>x / 0 = 0\<close>.\<close>

record canvas_el =
  cv_width :: real
  cv_height :: real
  cv_left :: real
  cv_top :: real
  cv_boxWidth :: real
  cv_boxHeight :: real

definition normalizePoint :: "canvas_el option \<Rightarrow> real \<Rightarrow> real \<Rightarrow> point" where
  "normalizePoint cv x y =
     (case cv of None \<Rightarrow> \<lparr>pt_x = 0, pt_y = 0\<rparr>
      | Some c \<Rightarrow> \<lparr>pt_x = (x - cv_left c) / cv_boxWidth c, pt_y = (y - cv_top c) / cv_boxHeight c\<rparr>)"

definition denormalizePoint :: "canvas_el option \<Rightarrow> point \<Rightarrow> real \<times> real" where
  "denormalizePoint cv p =
     (case cv of None \<Rightarrow> (0, 0) | Some c \<Rightarrow> (pt_x p * cv_width c, pt_y p * cv_height c))"

text \<open>The props the handlers close over (they are rebuilt on every render, so each event
  sees the current ones), the refs \<open>isDrawingRef\<close> and \<open>currentStrokeRef\<close>, and the
  pointer events.  \<open>PointerUp\<close> also stands for \<open>pointercancel\<close>, which has the same
  handler; the event carries \<open>Date.now()\<close> for the stroke's timestamp.\<close>

record canvas_opts =
  co_color :: string
  co_brushSize :: real
  co_enabled :: bool

record canvas_state =
  pd_isDrawing :: bool
  pd_currentStroke :: "point list"

definition canvas_init :: canvas_state where
  "canvas_init = \<lparr>pd_isDrawing = False, pd_currentStroke = []\<rparr>"

datatype pointer_event = PointerDown real real | PointerMove real real | PointerUp real

fun canvas_step :: "canvas_el option \<Rightarrow> canvas_opts \<Rightarrow> canvas_state \<Rightarrow> pointer_event \<Rightarrow> canvas_state \<times> stroke option" where
  "canvas_step cv o' s (PointerDown x y) =
     (if \<not> co_enabled o' then (s, None)
      else (\<lparr>pd_isDrawing = True, pd_currentStroke = [normalizePoint cv x y]\<rparr>, None))"
| "canvas_step cv o' s (PointerMove x y) =
     (if \<not> co_enabled o' \<or> \<not> pd_isDrawing s then (s, None)
      else (s\<lparr>pd_currentStroke := pd_currentStroke s @ [normalizePoint cv x y]\<rparr>, None))"
| "canvas_step cv o' s (PointerUp now) =
     (if \<not> co_enabled o' \<or> \<not> pd_isDrawing s then (s, None)
      else (\<lparr>pd_isDrawing = False, pd_currentStroke = []\<rparr>,
            if pd_currentStroke s \<noteq> []
            then Some \<lparr>st_playerId = [], st_color = co_color o', st_points = pd_currentStroke s,
                       st_brushSize = co_brushSize o', st_timestamp = now\<rparr>
            else None))"

text \<open>A run of pointer events, each with the props of the render it reaches, and the
  strokes handed to \<open>onStrokeComplete\<close>.\<close>

fun canvas_run :: "canvas_el option \<Rightarrow> canvas_state \<Rightarrow> (canvas_opts \<times> pointer_event) list \<Rightarrow> canvas_state \<times> stroke list" where
  "canvas_run cv s [] = (s, [])"
| "canvas_run cv s ((o', e) # es) =
     (let (s1, r) = canvas_step cv o' s e; (s2, out) = canvas_run cv s1 es
      in (s2, (case r of None \<Rightarrow> [] | Some st \<Rightarrow> [st]) @ out))"

text \<open>A page that connects to a server that refuses it seven times in a row.\<close>

definition ws_example :: ws_client where
  "ws_example = fst (ws_run ws_init (WsConnect ''ws://host'' # concat (replicate 7 [SockClose, ReconnectFires])))"

section \<open>Lemmas\<close>

subsection \<open>Properties of the socket wrapper\<close>

lemmas ws_defs = ws_connect_def ws_cleanup_def ws_onopen_def ws_onclose_def ws_onerror_def
  ws_reconnect_def ws_disconnect_def ws_send_def

lemma ws_inv_init: "ws_inv ws_init"
  by (simp add: ws_inv_def ws_init_def)

lemma ws_step_inv: "ws_inv s \<Longrightarrow> ws_inv (fst (ws_step s e))"
  by (cases e) (auto simp: ws_inv_def ws_defs Let_def MAX_RETRIES_def split: option.split)

lemma ws_reachable_inv: "ws_reachable s \<Longrightarrow> ws_inv s"
  by (induction rule: ws_reachable.induct) (auto intro: ws_inv_init ws_step_inv)

lemma ws_run_reachable: "ws_reachable s \<Longrightarrow> ws_reachable (fst (ws_run s evs))"
proof (induction evs arbitrary: s)
  case (Cons e evs)
  then show ?case
    using ws_reachable.ws_next [OF Cons.prems, of e] Cons.IH
    by (simp add: split_def Let_def)
qed simp

lemma ws_step_fifo:
  "ws_inv s \<Longrightarrow> snd (ws_step s e) @ ws_pending (fst (ws_step s e)) =
     ws_pending s @ (case e of WsSend m \<Rightarrow> (if ws_sock s = Some OPEN \<or> ws_sock s = Some CONNECTING then [m] else []) | _ \<Rightarrow> [])"
  by (cases e) (auto simp: ws_inv_def ws_defs Let_def split: option.split)

lemma ws_run_fifo:
  "ws_inv s \<Longrightarrow> snd (ws_run s evs) @ ws_pending (fst (ws_run s evs)) = ws_pending s @ ws_accepted s evs"
proof (induction evs arbitrary: s)
  case (Cons e evs)
  have "ws_inv (fst (ws_step s e))" using Cons.prems by (rule ws_step_inv)
  then have ih: "snd (ws_run (fst (ws_step s e)) evs) @ ws_pending (fst (ws_run (fst (ws_step s e)) evs)) =
       ws_pending (fst (ws_step s e)) @ ws_accepted (fst (ws_step s e)) evs" by (rule Cons.IH)
  have "snd (ws_run s (e # evs)) @ ws_pending (fst (ws_run s (e # evs))) =
        snd (ws_step s e) @ (snd (ws_run (fst (ws_step s e)) evs) @ ws_pending (fst (ws_run (fst (ws_step s e)) evs)))"
    by (simp add: split_def Let_def)
  also have "\<dots> = (snd (ws_step s e) @ ws_pending (fst (ws_step s e))) @ ws_accepted (fst (ws_step s e)) evs"
    by (simp add: ih)
  finally show ?case by (simp add: ws_step_fifo [OF Cons.prems])
qed simp

text \<open>
  C39: the retry limit of the socket is never reached.  In every state the hook can reach,
  when the live socket closes and a URL is set, a reconnect is scheduled and the counter
  stands at 1: \<open>connect\<close>, which the reconnect calls, resets \<open>retriesRef\<close> to 0, so
  \<open>retriesRef.current < MAX_RETRIES\<close> always holds and the page retries forever.
\<close>

theorem reconnect_never_gives_up:
  assumes "ws_reachable s" and "ws_sock s = Some CONNECTING \<or> ws_sock s = Some OPEN"
    and "str_truthy (ws_url s)"
  shows "ws_timer (fst (ws_step s SockClose)) \<and> ws_retries (fst (ws_step s SockClose)) = 1"
  using ws_reachable_inv [OF assms(1)] assms(2,3)
  by (auto simp: ws_inv_def ws_onclose_def MAX_RETRIES_def Let_def)

text \<open>Connecting, failing and reconnecting returns the hook to the state it started
  from, so the loop of failed attempts has no end.\<close>

lemma ws_retry_loop:
  "u \<noteq> [] \<Longrightarrow>
   ws_run (ws_init\<lparr>ws_url := Some u, ws_sock := Some CONNECTING\<rparr>) (concat (replicate n [SockClose, ReconnectFires]) @ es) =
   ws_run (ws_init\<lparr>ws_url := Some u, ws_sock := Some CONNECTING\<rparr>) es"
  by (induction n) (simp_all add: ws_init_def ws_defs MAX_RETRIES_def str_truthy_def Let_def)

theorem reconnect_never_gives_up_witness:
  "ws_reachable ws_example \<and> ws_sock ws_example = Some CONNECTING \<and> str_truthy (ws_url ws_example) \<and>
   ws_timer (fst (ws_step ws_example SockClose)) \<and> ws_retries (fst (ws_step ws_example SockClose)) = 1"
proof -
  have e: "ws_example = ws_init\<lparr>ws_url := Some ''ws://host'', ws_sock := Some CONNECTING\<rparr>"
    using ws_retry_loop [of "''ws://host''" 7 "[]"]
    by (simp add: ws_example_def ws_connect_def ws_cleanup_def ws_init_def)
  have r: "ws_reachable ws_example"
    unfolding ws_example_def by (rule ws_run_reachable [OF ws_reachable.ws_start])
  have "ws_sock ws_example = Some CONNECTING \<and> str_truthy (ws_url ws_example)"
    by (simp add: e ws_init_def str_truthy_def)
  then show ?thesis using r reconnect_never_gives_up [OF r] by simp
qed

text \<open>
  C6: the socket wrapper is a FIFO channel for the messages it accepts.  After any run of
  calls and socket events from the start, the messages written to the wire followed by
  those still queued are exactly the messages \<open>send\<close> accepted (those sent while the
  socket was open or connecting), in the order they were sent.
\<close>

theorem ws_fifo:
  "snd (ws_run ws_init evs) @ ws_pending (fst (ws_run ws_init evs)) = ws_accepted ws_init evs"
  using ws_run_fifo [OF ws_inv_init, of evs] by (simp add: ws_init_def)


subsection \<open>Properties of the canvas\<close>

lemma canvas_moves:
  "co_enabled o' \<Longrightarrow>
   canvas_run cv \<lparr>pd_isDrawing = True, pd_currentStroke = ps\<rparr> (map (\<lambda>(x, y). (o', PointerMove x y)) ms @ es) =
   canvas_run cv \<lparr>pd_isDrawing = True, pd_currentStroke = ps @ map (\<lambda>(x, y). normalizePoint cv x y) ms\<rparr> es"
  by (induction ms arbitrary: ps) (auto simp: Let_def)

text \<open>A press, any number of moves and a release on an enabled canvas hand exactly one
  stroke to \<open>onStrokeComplete\<close>: the normalised points of the gesture in order, with the
  colour and brush of the props and an empty player id, which the server overwrites.\<close>

theorem canvas_gesture_stroke:
  assumes "co_enabled o'"
  shows "canvas_run cv s ((o', PointerDown x y) # map (\<lambda>(x, y). (o', PointerMove x y)) ms @ [(o', PointerUp t)]) =
    (canvas_init, [\<lparr>st_playerId = [], st_color = co_color o',
                   st_points = map (\<lambda>(x, y). normalizePoint cv x y) ((x, y) # ms),
                   st_brushSize = co_brushSize o', st_timestamp = t\<rparr>])"
  using assms canvas_moves [OF assms, of cv "[normalizePoint cv x y]" ms "[(o', PointerUp t)]"]
  by (simp add: Let_def canvas_init_def)

lemma canvas_step_disabled: "\<not> co_enabled o' \<Longrightarrow> canvas_step cv o' s e = (s, None)"
  by (cases e) simp_all

lemma canvas_disabled:
  "list_all (\<lambda>(o', e). \<not> co_enabled o') es \<Longrightarrow> canvas_run cv s es = (s, [])"
  by (induction es) (auto simp: Let_def canvas_step_disabled)

lemma canvas_step_stroke:
  "canvas_step cv o' s e = (s', Some st) \<Longrightarrow> st_points st \<noteq> [] \<and> st_playerId st = []"
  by (cases e) (auto split: if_splits)

lemma canvas_run_strokes:
  "st \<in> set (snd (canvas_run cv s es)) \<Longrightarrow> st_points st \<noteq> [] \<and> st_playerId st = []"
proof (induction es arbitrary: s)
  case (Cons oe es)
  obtain o' e where oe: "oe = (o', e)" by fastforce
  obtain s1 r where st1: "canvas_step cv o' s e = (s1, r)" by fastforce
  show ?case using Cons.prems Cons.IH [of s1] canvas_step_stroke [of cv o' s e s1] oe st1
    by (auto simp: Let_def split: prod.splits option.splits)
qed simp

text \<open>When the box on the page has the bitmap's size, mapping a pointer position to
  the unit square and back gives the position relative to the canvas.\<close>

lemma normalize_roundtrip:
  assumes "cv_boxWidth c = cv_width c" and "cv_boxHeight c = cv_height c"
    and "cv_width c \<noteq> 0" and "cv_height c \<noteq> 0"
  shows "denormalizePoint (Some c) (normalizePoint (Some c) x y) = (x - cv_left c, y - cv_top c)"
  using assms by (simp add: normalizePoint_def denormalizePoint_def)

end
