(* ===== verification/Session.thy ===== *)
theory Session
  imports Screens Transport
begin

text \<open>
  How the client's parts meet the server.  \<open>useGame\<close>
  (\<open>src/client/src/hooks/useGame.ts\<close>) turns each action of the screens into calls of
  the socket wrapper: \<open>createGame\<close> and \<open>joinGame\<close> connect to \<open>WS_URL\<close> and then send,
  the other actions only send.  The messages the wrapper writes are what the server's
  \<open>Receive\<close> events carry.  A socket that drops and reconnects is, for the server, a
  closed connection followed by a new one.
\<close>

section \<open>The actions of the hook over the socket\<close>

text \<open>\<open>WS_URL\<close> comes from \<open>src/client/src/lib/constants\<close>, which the repository does
  not contain; it is an argument here.\<close>

definition game_ws_events :: "string \<Rightarrow> client_action \<Rightarrow> ws_event list" where
  "game_ws_events url act =
     (case act of
        CreateGame name \<Rightarrow> [WsConnect url, WsSend (client_send act)]
      | JoinGame name code \<Rightarrow> [WsConnect url, WsSend (client_send act)]
      | _ \<Rightarrow> [WsSend (client_send act)])"

definition useGame_act ::
  "string \<Rightarrow> client_action \<Rightarrow> client_state \<times> ws_client \<Rightarrow> (client_state \<times> ws_client) \<times> client_message list" where
  "useGame_act url act sw =
     (let (w1, out) = ws_run (snd sw) (game_ws_events url act) in ((client_local (fst sw) act, w1), out))"

section \<open>Lemmas\<close>

lemma update_map_of_same: "map_of al k = Some v \<Longrightarrow> AList.update k v al = al"
  by (induction al) auto

text \<open>The message of \<open>createGame\<close> or \<open>joinGame\<close> is queued on the new socket and written
  when it opens, after whatever was still queued from before.\<close>

lemma connect_then_send_delivered:
  "act = CreateGame n \<or> act = JoinGame n c \<Longrightarrow>
   snd (useGame_act url act sw) = [] \<and>
   snd (ws_step (snd (fst (useGame_act url act sw))) SockOpen) = ws_pending (snd sw) @ [client_send act]"
  by (auto simp: useGame_act_def game_ws_events_def ws_connect_def ws_cleanup_def ws_send_def ws_onopen_def
      split_def Let_def)

text \<open>A connection without a player id (a new one, a reconnected one) that sends anything
  but \<open>CREATE_GAME\<close> or \<open>JOIN_GAME\<close> changes nothing on the server and is told
  nothing.\<close>

lemma anonymous_handleMessage:
  "(\<forall>n. msg \<noteq> CREATE_GAME n) \<Longrightarrow> (\<forall>c n. msg \<noteq> JOIN_GAME c n) \<Longrightarrow>
   handleMessage msg None en ws st = (no_reply, st, [])"
  by (cases msg) (simp_all add: handleMessage_def dispatch_def handle_ready_def handle_start_def
      handle_stroke_def handle_vote_def handle_guess_def handle_timeout_def handle_next_round_def
      handle_play_again_def in_room_def str_truthy_def)

lemma anonymous_message_ignored:
  assumes "map_of (conns s) c = Some cn" and "c_playerId cn = None"
    and "\<forall>n. msg \<noteq> CREATE_GAME n" and "\<forall>c n. msg \<noteq> JOIN_GAME c n"
  shows "step s (Receive c msg en) = Inr (s, [])"
  using assms anonymous_handleMessage [OF assms(3,4), of en c s]
  by (simp add: step_def on_message_def route_def no_reply_def str_truthy_def update_map_of_same)

text \<open>
  A reconnect does not restore the session.  In the example lobby Bob's socket drops and
  the wrapper reconnects: the server removes Bob from the room on the close, and the new
  connection's \<open>PLAYER_READY\<close> changes nothing and is answered by nothing, while Bob's
  client still shows the room with Bob's old id.
\<close>

theorem reconnect_loses_session:
  "case run_events init_process
         (example_lobby_events @ [Disconnect 1, Connect, Receive 3 PLAYER_READY (example_entropy ''x'')]) of
     Inl _ \<Rightarrow> False
   | Inr (s, d) \<Rightarrow>
       (\<exists>r. get_room s ''AAAA'' = Some (0, r) \<and> map fst (players r) = [''a'', ''c'']) \<and>
       filter (\<lambda>(w, _). w = 3) d = [] \<and>
       cs_roomCode (client_view (client_local initialGameState (JoinGame ''Bob'' ''AAAA'')) 1 d) = Some ''AAAA'' \<and>
       cs_playerId (client_view (client_local initialGameState (JoinGame ''Bob'' ''AAAA'')) 1 d) = Some ''b''"
  by (simp add: server_eval removePlayer_def client_view_def client_local_def initialGameState_def
      js_toUpperCase_def char_of_def bit_0)

end
