(* ===== verification/Spectator.thy ===== *)
theory Spectator
  imports Client
begin

text \<open>
  The spectator screen of \<open>src/client/src/pages/SharedScreen.tsx\<close>: its own reducer
  of the server's messages and what it shows.  The page imports \<open>../lib/constants\<close>,
  which the repository does not contain, and no other file renders it, so it is not
  part of the built client.  It is modelled to compare its reducer with the player's
  (\<open>client_handle\<close>): on the messages it handles the two agree on phase, roster,
  strokes, active player and round, as long as no total score is 0.
\<close>

section \<open>State and reducer\<close>

text \<open>\<open>msg.result.totalScores[id] || player.score\<close> falls back to the old score when
  the total is 0; every message also sets \<open>connected\<close>.\<close>

record spectator =
  sp_phase :: game_phase
  sp_players :: "player list"
  sp_strokes :: "stroke list"
  sp_activePlayerId :: "pid option"
  sp_currentRound :: int
  sp_connected :: bool

definition spectator_init :: spectator where
  "spectator_init = \<lparr>sp_phase = LOBBY, sp_players = [], sp_strokes = [], sp_activePlayerId = None,
                      sp_currentRound = 0, sp_connected = False\<rparr>"

fun spectator_handle :: "spectator \<Rightarrow> server_message \<Rightarrow> spectator" where
  "spectator_handle s (GAME_STARTING rl w order ps st) =
     s\<lparr>sp_connected := True, sp_phase := ROLE_REVEAL, sp_players := ps, sp_strokes := [], sp_currentRound := 1\<rparr>"
| "spectator_handle s (TURN_START act rnd tlim) =
     s\<lparr>sp_connected := True, sp_phase := DRAWING, sp_activePlayerId := act, sp_currentRound := rnd\<rparr>"
| "spectator_handle s (STROKE_BROADCAST st) = s\<lparr>sp_connected := True, sp_strokes := sp_strokes s @ [st]\<rparr>"
| "spectator_handle s (VOTING_START ps) = s\<lparr>sp_connected := True, sp_phase := VOTING, sp_players := ps\<rparr>"
| "spectator_handle s (IMPOSTER_GUESS_PHASE p) = s\<lparr>sp_connected := True, sp_phase := IMPOSTER_GUESS\<rparr>"
| "spectator_handle s (ROUND_RESULT res) =
     s\<lparr>sp_connected := True, sp_phase := SCOREBOARD,
       sp_players := map (\<lambda>pl. pl\<lparr>p_score := (case map_of (rr_totalScores res) (p_id pl) of
                                     Some v \<Rightarrow> if v \<noteq> 0 then v else p_score pl | None \<Rightarrow> p_score pl)\<rparr>) (sp_players s)\<rparr>"
| "spectator_handle s (RETURN_TO_LOBBY ps) =
     s\<lparr>sp_connected := True, sp_phase := LOBBY, sp_players := ps, sp_strokes := [], sp_activePlayerId := None,
       sp_currentRound := 0\<rparr>"
| "spectator_handle s (PLAYER_JOINED pl ps) = s\<lparr>sp_connected := True, sp_players := ps\<rparr>"
| "spectator_handle s (PLAYER_LEFT p ps) = s\<lparr>sp_connected := True, sp_players := ps\<rparr>"
| "spectator_handle s m = s\<lparr>sp_connected := True\<rparr>"

text \<open>The connection flag follows the socket's (\<open>useEffect\<close> on \<open>connected\<close>).\<close>

definition spectator_connected :: "bool \<Rightarrow> spectator \<Rightarrow> spectator" where
  "spectator_connected c s = s\<lparr>sp_connected := c\<rparr>"

section \<open>What the screen shows\<close>

definition spectator_phaseDisplay :: "game_phase \<Rightarrow> string" where
  "spectator_phaseDisplay ph =
     (case ph of LOBBY \<Rightarrow> ''Waiting to Start'' | ROLE_REVEAL \<Rightarrow> ''Role Reveal''
      | DRAWING \<Rightarrow> ''Drawing Phase'' | VOTING \<Rightarrow> ''Voting Phase''
      | IMPOSTER_GUESS \<Rightarrow> ''Imposter Guessing'' | SCOREBOARD \<Rightarrow> ''Round Results'')"

record spectator_view =
  sv_roomCode :: string
  sv_phase :: string
  sv_connected :: bool
  sv_turnOf :: "player option"
  sv_canvas :: bool
  sv_lobbyCount :: "nat option"
  sv_noRoomCode :: bool
  sv_footer :: "(player \<times> bool \<times> int option) list"

definition spectator_render :: "string option \<Rightarrow> spectator \<Rightarrow> spectator_view" where
  "spectator_render code s =
     (let activePlayer = find (\<lambda>p. Some (p_id p) = sp_activePlayerId s) (sp_players s) in
      \<lparr>sv_roomCode = (if str_truthy code then the code else ''----''),
       sv_phase = spectator_phaseDisplay (sp_phase s),
       sv_connected = sp_connected s,
       sv_turnOf = (if sp_phase s = DRAWING then activePlayer else None),
       sv_canvas = (sp_phase s = DRAWING \<or> sp_strokes s \<noteq> []),
       sv_lobbyCount = (if sp_phase s = LOBBY \<and> sp_players s \<noteq> [] then Some (length (sp_players s)) else None),
       sv_noRoomCode = (\<not> str_truthy code),
       sv_footer = (if sp_players s \<noteq> [] \<and> sp_phase s \<noteq> LOBBY
                    then map (\<lambda>p. (p, sp_activePlayerId s = Some (p_id p),
                                    if sp_phase s = SCOREBOARD then Some (p_score p) else None)) (sp_players s)
                    else [])\<rparr>)"

section \<open>Agreement with the player's reducer\<close>

text \<open>The part of the player's state the spectator keeps, and the messages on which the
  two reducers are meant to agree: all but those that only a player receives
  (\<open>GAME_CREATED\<close>, \<open>PLAYER_JOINED\<close>, \<open>PLAYER_READY_UPDATE\<close>, \<open>ERROR\<close>), and a round
  result only when no total is 0.\<close>

definition spectator_abs :: "bool \<Rightarrow> client_state \<Rightarrow> spectator" where
  "spectator_abs b c =
     \<lparr>sp_phase = cs_phase c, sp_players = cs_players c, sp_strokes = cs_strokes c,
      sp_activePlayerId = cs_activePlayerId c, sp_currentRound = cs_currentRound c, sp_connected = b\<rparr>"

fun spectator_tracks :: "server_message \<Rightarrow> bool" where
  "spectator_tracks (GAME_CREATED code pl) = False"
| "spectator_tracks (PLAYER_JOINED pl ps) = False"
| "spectator_tracks (PLAYER_READY_UPDATE p b ps) = False"
| "spectator_tracks (ERROR e) = False"
| "spectator_tracks (ROUND_RESULT res) = list_all (\<lambda>(_, v). v \<noteq> 0) (rr_totalScores res)"
| "spectator_tracks m = True"

section \<open>Lemmas\<close>

lemma map_of_nonzero:
  "list_all (\<lambda>(_, v). v \<noteq> 0) al \<Longrightarrow> map_of al k = Some v \<Longrightarrow> v \<noteq> 0"
  by (induction al) (auto split: if_splits)

text \<open>The spectator's reducer is the player's, seen through \<open>spectator_abs\<close>, on every
  message it is meant to follow.\<close>

theorem spectator_refines_client:
  "spectator_tracks m \<Longrightarrow> spectator_handle (spectator_abs b c) m = spectator_abs True (fst (client_handle c m))"
  by (cases m) (auto simp: spectator_abs_def merge_scores_def Let_def dest: map_of_nonzero
      split: option.splits intro!: map_cong)

text \<open>C36: over any sequence of messages it is meant to follow, the spectator's reducer
  is the player's reducer seen through \<open>spectator_abs\<close>, with the connection flag set
  once a message has arrived.\<close>

theorem spectator_refines_client_run:
  "list_all spectator_tracks ms \<Longrightarrow>
   foldl spectator_handle (spectator_abs b c) ms =
     (if ms = [] then spectator_abs b c else spectator_abs True (foldl (\<lambda>s m. fst (client_handle s m)) c ms))"
proof (induction ms arbitrary: b c)
  case (Cons m ms)
  then show ?case by (simp add: spectator_refines_client)
qed simp

theorem spectator_refines_client_run_witness:
  "list_all spectator_tracks [TURN_START (Some ''b'') 1 0, STROKE_BROADCAST (example_stroke ''b'')] \<and>
   foldl spectator_handle (spectator_abs False initialGameState) [TURN_START (Some ''b'') 1 0, STROKE_BROADCAST (example_stroke ''b'')] =
     spectator_abs True (foldl (\<lambda>s m. fst (client_handle s m)) initialGameState [TURN_START (Some ''b'') 1 0, STROKE_BROADCAST (example_stroke ''b'')])"
  using spectator_refines_client_run [of "[TURN_START (Some ''b'') 1 0, STROKE_BROADCAST (example_stroke ''b'')]" False initialGameState]
  by simp

text \<open>Where the two differ: a player who joins sends the player's client to the lobby,
  while the spectator keeps its phase.\<close>

lemma spectator_ignores_join_phase:
  "sp_phase (spectator_handle (spectator_abs b c) (PLAYER_JOINED pl ps)) = cs_phase c \<and>
   cs_phase (fst (client_handle c (PLAYER_JOINED pl ps))) = LOBBY"
  by (simp add: spectator_abs_def)

end
