(* ===== verification/Painting.thy ===== *)
theory Painting
  imports Transport
begin

text \<open>
  What the canvas shows.  The drawing code of \<open>src/client/src/hooks/useCanvas.ts\<close>
  (\<open>drawStroke\<close>, \<open>clearCanvas\<close>, \<open>drawAllStrokes\<close>, and the live ink of the pointer
  handlers) and the layout effect of \<open>src/client/src/components/Canvas.tsx\<close> issue
  commands to the 2D context; each is modelled as the list of commands it issues, a
  trace.  \<open>ink\<close> replays a trace on a model of the context (current style, current
  path) and lists what becomes visible: filled rectangles and stroked paths.  The
  pixels themselves are not modelled.
\<close>

section \<open>Commands of the 2D context\<close>

datatype paint =
    StrokeStyle string | LineWidth real | LineCapRound | LineJoinRound
  | BeginPath | MoveTo real real | LineTo real real | StrokePath
  | FillStyle string | FillRect real real real real

text \<open>\<open>canvasRef.current.getContext('2d')\<close> exists exactly when the canvas does.\<close>

definition denorm_xy :: "canvas_el \<Rightarrow> point \<Rightarrow> real \<times> real" where
  "denorm_xy c p = denormalizePoint (Some c) p"

definition drawStroke :: "canvas_el option \<Rightarrow> stroke \<Rightarrow> paint list" where
  "drawStroke cv st =
     (case cv of None \<Rightarrow> []
      | Some c \<Rightarrow>
          (case st_points st of [] \<Rightarrow> []
           | p0 # ps \<Rightarrow>
               [StrokeStyle (st_color st), LineWidth (st_brushSize st), LineCapRound, LineJoinRound,
                BeginPath, case_prod MoveTo (denorm_xy c p0)] @
               map (\<lambda>p. case_prod LineTo (denorm_xy c p)) ps @ [StrokePath]))"

definition clearCanvas :: "canvas_el option \<Rightarrow> paint list" where
  "clearCanvas cv =
     (case cv of None \<Rightarrow> [] | Some c \<Rightarrow> [FillStyle ''#1a1a1a'', FillRect 0 0 (cv_width c) (cv_height c)])"

definition drawAllStrokes :: "canvas_el option \<Rightarrow> stroke list \<Rightarrow> paint list" where
  "drawAllStrokes cv sts = clearCanvas cv @ concat (map (drawStroke cv) sts)"

text \<open>\<open>Canvas\<close>'s layout effect: the bitmap becomes a square of the smaller side of the
  container, then every stroke is redrawn (on mount, on a change of \<open>strokes\<close>, on a
  window resize).\<close>

definition canvas_layout :: "real \<Rightarrow> real \<Rightarrow> canvas_el \<Rightarrow> canvas_el" where
  "canvas_layout cw ch c = c\<lparr>cv_width := min cw ch, cv_height := min cw ch\<rparr>"

definition canvas_repaint :: "real \<Rightarrow> real \<Rightarrow> canvas_el option \<Rightarrow> stroke list \<Rightarrow> canvas_el option \<times> paint list" where
  "canvas_repaint cw ch cv sts =
     (let cv1 = map_option (canvas_layout cw ch) cv in (cv1, drawAllStrokes cv1 sts))"

text \<open>The live ink of the pointer handlers: a press sets the style and moves to the
  point, a move draws a line to it and strokes the path; a release draws nothing.  The
  guards are those of \<open>canvas_step\<close>.\<close>

fun pointer_paint :: "canvas_el option \<Rightarrow> canvas_opts \<Rightarrow> canvas_state \<Rightarrow> pointer_event \<Rightarrow> paint list" where
  "pointer_paint cv o' s (PointerDown x y) =
     (if \<not> co_enabled o' then []
      else case cv of None \<Rightarrow> []
           | Some c \<Rightarrow> [StrokeStyle (co_color o'), LineWidth (co_brushSize o'), LineCapRound, LineJoinRound,
                        BeginPath, case_prod MoveTo (denorm_xy c (normalizePoint cv x y))])"
| "pointer_paint cv o' s (PointerMove x y) =
     (if \<not> co_enabled o' \<or> \<not> pd_isDrawing s then []
      else case cv of None \<Rightarrow> []
           | Some c \<Rightarrow> [case_prod LineTo (denorm_xy c (normalizePoint cv x y)), StrokePath])"
| "pointer_paint cv o' s (PointerUp now) = []"

fun live_paint :: "canvas_el option \<Rightarrow> canvas_state \<Rightarrow> (canvas_opts \<times> pointer_event) list \<Rightarrow> paint list" where
  "live_paint cv s [] = []"
| "live_paint cv s ((o', e) # es) = pointer_paint cv o' s e @ live_paint cv (fst (canvas_step cv o' s e)) es"

section \<open>Replaying a trace\<close>

text \<open>The context keeps a stroke style, a line width and a path of sub-paths;
  \<open>lineTo\<close> without a sub-path starts one, as in the HTML canvas.\<close>

datatype visible = Filled string "real \<times> real \<times> real \<times> real" | Inked string real "(real \<times> real) list list"

record ctx =
  cx_strokeStyle :: string
  cx_lineWidth :: real
  cx_fillStyle :: string
  cx_path :: "(real \<times> real) list list"

fun ctx_step :: "ctx \<Rightarrow> paint \<Rightarrow> ctx \<times> visible list" where
  "ctx_step k (StrokeStyle c) = (k\<lparr>cx_strokeStyle := c\<rparr>, [])"
| "ctx_step k (LineWidth w) = (k\<lparr>cx_lineWidth := w\<rparr>, [])"
| "ctx_step k LineCapRound = (k, [])"
| "ctx_step k LineJoinRound = (k, [])"
| "ctx_step k BeginPath = (k\<lparr>cx_path := []\<rparr>, [])"
| "ctx_step k (MoveTo x y) = (k\<lparr>cx_path := cx_path k @ [[(x, y)]]\<rparr>, [])"
| "ctx_step k (LineTo x y) =
     (k\<lparr>cx_path := (if cx_path k = [] then [[(x, y)]] else butlast (cx_path k) @ [last (cx_path k) @ [(x, y)]])\<rparr>, [])"
| "ctx_step k StrokePath = (k, [Inked (cx_strokeStyle k) (cx_lineWidth k) (cx_path k)])"
| "ctx_step k (FillStyle c) = (k\<lparr>cx_fillStyle := c\<rparr>, [])"
| "ctx_step k (FillRect x y w h) = (k, [Filled (cx_fillStyle k) (x, y, w, h)])"

fun ink :: "ctx \<Rightarrow> paint list \<Rightarrow> ctx \<times> visible list" where
  "ink k [] = (k, [])"
| "ink k (c # cs) = (let (k1, v1) = ctx_step k c; (k2, v2) = ink k1 cs in (k2, v1 @ v2))"

section \<open>Lemmas\<close>

lemma ink_append:
  "ink k (xs @ ys) = (let (k1, v1) = ink k xs; (k2, v2) = ink k1 ys in (k2, v1 @ v2))"
  by (induction xs arbitrary: k) (auto simp: split_def Let_def)

lemma ink_lines:
  "cx_path k = pre @ [sp] \<Longrightarrow>
   ink k (map (\<lambda>p. case_prod LineTo p) ps) = (k\<lparr>cx_path := pre @ [sp @ ps]\<rparr>, [])"
proof (induction ps arbitrary: k sp)
  case (Cons p ps)
  have "cx_path (fst (ctx_step k (case_prod LineTo p))) = pre @ [sp @ [p]]"
    using Cons.prems by (cases p) simp
  from Cons.IH [OF this] Cons.prems show ?case by (cases p) (simp add: Let_def)
qed simp

lemma drawStroke_ink:
  "snd (ink k (drawStroke (Some c) st)) =
     (if st_points st = [] then [] else [Inked (st_color st) (st_brushSize st) [map (denorm_xy c) (st_points st)]])"
proof (cases "st_points st")
  case (Cons p0 ps)
  let ?k = "k\<lparr>cx_strokeStyle := st_color st, cx_lineWidth := st_brushSize st, cx_path := [[denorm_xy c p0]]\<rparr>"
  have "ink ?k (map (\<lambda>p. case_prod LineTo (denorm_xy c p)) ps) = (?k\<lparr>cx_path := [] @ [[denorm_xy c p0] @ map (denorm_xy c) ps]\<rparr>, [])"
    using ink_lines [of ?k "[]" "[denorm_xy c p0]" "map (denorm_xy c) ps"] by (simp add: comp_def)
  then show ?thesis using Cons
    by (cases "denorm_xy c p0") (simp add: drawStroke_def ink_append Let_def split_def)
qed (simp add: drawStroke_def)

lemma drawStrokes_ink:
  "snd (ink k (concat (map (drawStroke (Some c)) sts))) =
     concat (map (\<lambda>st. if st_points st = [] then [] else [Inked (st_color st) (st_brushSize st) [map (denorm_xy c) (st_points st)]]) sts)"
proof (induction sts arbitrary: k)
  case (Cons st sts)
  show ?case using drawStroke_ink [of k c st] Cons.IH [of "fst (ink k (drawStroke (Some c) st))"]
    by (simp add: ink_append Let_def split_def)
qed simp

text \<open>Repainting shows the background and then exactly the strokes that have points,
  in order, each as one path through its points scaled to the bitmap, in its own colour
  and width: the picture is determined by the stroke list.\<close>

theorem repaint_shows_strokes:
  "snd (ink k (drawAllStrokes (Some c) sts)) =
     Filled ''#1a1a1a'' (0, 0, cv_width c, cv_height c) #
     map (\<lambda>st. Inked (st_color st) (st_brushSize st) [map (denorm_xy c) (st_points st)])
       (filter (\<lambda>st. st_points st \<noteq> []) sts)"
proof -
  have "concat (map (\<lambda>st. if st_points st = [] then [] else [Inked (st_color st) (st_brushSize st) [map (denorm_xy c) (st_points st)]]) sts) =
        map (\<lambda>st. Inked (st_color st) (st_brushSize st) [map (denorm_xy c) (st_points st)]) (filter (\<lambda>st. st_points st \<noteq> []) sts)"
    by (induction sts) auto
  then show ?thesis
    using drawStrokes_ink [of "fst (ink k (clearCanvas (Some c)))" c sts]
    by (simp add: drawAllStrokes_def clearCanvas_def ink_append Let_def split_def)
qed

lemma live_moves:
  "co_enabled o' \<Longrightarrow>
   live_paint (Some c) \<lparr>pd_isDrawing = True, pd_currentStroke = ps\<rparr> (map (\<lambda>(x, y). (o', PointerMove x y)) ms @ es) =
   concat (map (\<lambda>(x, y). [case_prod LineTo (denorm_xy c (normalizePoint (Some c) x y)), StrokePath]) ms) @
   live_paint (Some c) \<lparr>pd_isDrawing = True, pd_currentStroke = ps @ map (\<lambda>(x, y). normalizePoint (Some c) x y) ms\<rparr> es"
  by (induction ms arbitrary: ps) auto

lemma ink_live_lines:
  "cx_path k = [sp] \<Longrightarrow> qs \<noteq> [] \<Longrightarrow>
   snd (ink k (concat (map (\<lambda>q. [case_prod LineTo q, StrokePath]) qs))) \<noteq> [] \<and>
   last (snd (ink k (concat (map (\<lambda>q. [case_prod LineTo q, StrokePath]) qs)))) =
     Inked (cx_strokeStyle k) (cx_lineWidth k) [sp @ qs]"
proof (induction qs arbitrary: k sp)
  case (Cons q qs)
  let ?k1 = "k\<lparr>cx_path := [sp @ [q]]\<rparr>"
  have step: "ink k [case_prod LineTo q, StrokePath] = (?k1, [Inked (cx_strokeStyle k) (cx_lineWidth k) [sp @ [q]]])"
    using Cons.prems by (cases q) simp
  show ?case
  proof (cases "qs = []")
    case True
    then show ?thesis using step by simp
  next
    case False
    have "cx_path ?k1 = [sp @ [q]]" by simp
    from Cons.IH [OF this False] step show ?thesis by (simp add: ink_append Let_def split_def)
  qed
qed simp

text \<open>C13: what the drawer sees while drawing is what a repaint shows for the stroke the
  gesture sends: the last path the live ink strokes is the path \<open>drawStroke\<close> paints for
  the emitted stroke, as long as the gesture has at least one move.\<close>

theorem live_ink_matches_repaint:
  assumes "co_enabled o'" and "ms \<noteq> []"
  shows "\<exists>st. snd (canvas_run (Some c) s ((o', PointerDown x y) # map (\<lambda>(x, y). (o', PointerMove x y)) ms @ [(o', PointerUp t)])) = [st] \<and>
     snd (ink k' (drawStroke (Some c) st)) =
       [last (snd (ink k (live_paint (Some c) s ((o', PointerDown x y) # map (\<lambda>(x, y). (o', PointerMove x y)) ms @ [(o', PointerUp t)]))))]"
proof -
  let ?q = "\<lambda>(x, y). denorm_xy c (normalizePoint (Some c) x y)"
  let ?k1 = "k\<lparr>cx_strokeStyle := co_color o', cx_lineWidth := co_brushSize o', cx_path := [[?q (x, y)]]\<rparr>"
  have lp: "live_paint (Some c) s ((o', PointerDown x y) # map (\<lambda>(x, y). (o', PointerMove x y)) ms @ [(o', PointerUp t)]) =
     [StrokeStyle (co_color o'), LineWidth (co_brushSize o'), LineCapRound, LineJoinRound, BeginPath,
      case_prod MoveTo (?q (x, y))] @ concat (map (\<lambda>q. [case_prod LineTo q, StrokePath]) (map ?q ms))"
    using live_moves [OF assms(1), of c "[normalizePoint (Some c) x y]" ms "[(o', PointerUp t)]"] assms(1)
    by (simp add: split_def comp_def)
  have pre: "ink k [StrokeStyle (co_color o'), LineWidth (co_brushSize o'), LineCapRound, LineJoinRound, BeginPath,
      case_prod MoveTo (?q (x, y))] = (?k1, [])"
    by (cases "?q (x, y)") simp
  have "cx_path ?k1 = [[?q (x, y)]]" by simp
  from ink_live_lines [OF this, of "map ?q ms"] assms(2)
  have iv: "last (snd (ink ?k1 (concat (map (\<lambda>q. [case_prod LineTo q, StrokePath]) (map ?q ms))))) =
     Inked (co_color o') (co_brushSize o') [?q (x, y) # map ?q ms]" by simp
  have "snd (ink k (live_paint (Some c) s ((o', PointerDown x y) # map (\<lambda>(x, y). (o', PointerMove x y)) ms @ [(o', PointerUp t)]))) =
        snd (ink ?k1 (concat (map (\<lambda>q. [case_prod LineTo q, StrokePath]) (map ?q ms))))"
    unfolding lp ink_append [of k] pre by (simp add: split_def)
  with iv have last_live: "last (snd (ink k (live_paint (Some c) s ((o', PointerDown x y) # map (\<lambda>(x, y). (o', PointerMove x y)) ms @ [(o', PointerUp t)])))) =
     Inked (co_color o') (co_brushSize o') [?q (x, y) # map ?q ms]" by simp
  show ?thesis
    using canvas_gesture_stroke [OF assms(1), of "Some c" s x y ms t] last_live
    by (simp add: drawStroke_ink comp_def split_def)
qed

lemma live_ink_matches_repaint_witness:
  "co_enabled \<lparr>co_color = ''#E74C3C'', co_brushSize = 3, co_enabled = True\<rparr> \<and> [(20::real, 30::real)] \<noteq> [] \<and>
   (\<exists>st. snd (canvas_run (Some \<lparr>cv_width = 600, cv_height = 600, cv_left = 0, cv_top = 0, cv_boxWidth = 300, cv_boxHeight = 300\<rparr>)
             canvas_init
             ((\<lparr>co_color = ''#E74C3C'', co_brushSize = 3, co_enabled = True\<rparr>, PointerDown 10 10) #
              map (\<lambda>(x, y). (\<lparr>co_color = ''#E74C3C'', co_brushSize = 3, co_enabled = True\<rparr>, PointerMove x y)) [(20, 30)] @
              [(\<lparr>co_color = ''#E74C3C'', co_brushSize = 3, co_enabled = True\<rparr>, PointerUp 1000)])) = [st] \<and>
     snd (ink \<lparr>cx_strokeStyle = ''#000'', cx_lineWidth = 1, cx_fillStyle = ''#1a1a1a'', cx_path = []\<rparr>
            (drawStroke (Some \<lparr>cv_width = 600, cv_height = 600, cv_left = 0, cv_top = 0, cv_boxWidth = 300, cv_boxHeight = 300\<rparr>) st)) =
       [last (snd (ink \<lparr>cx_strokeStyle = ''#000'', cx_lineWidth = 1, cx_fillStyle = ''#1a1a1a'', cx_path = []\<rparr>
            (live_paint (Some \<lparr>cv_width = 600, cv_height = 600, cv_left = 0, cv_top = 0, cv_boxWidth = 300, cv_boxHeight = 300\<rparr>)
             canvas_init
             ((\<lparr>co_color = ''#E74C3C'', co_brushSize = 3, co_enabled = True\<rparr>, PointerDown 10 10) #
              map (\<lambda>(x, y). (\<lparr>co_color = ''#E74C3C'', co_brushSize = 3, co_enabled = True\<rparr>, PointerMove x y)) [(20, 30)] @
              [(\<lparr>co_color = ''#E74C3C'', co_brushSize = 3, co_enabled = True\<rparr>, PointerUp 1000)]))))])"
  by (intro conjI, simp, simp, rule live_ink_matches_repaint) simp_all

text \<open>A tap (press and release without a move) inks nothing live, yet it is sent as a
  one-point stroke, which every repaint draws as a dot.\<close>

theorem tap_not_inked_live:
  assumes "co_enabled o'"
  shows "snd (ink k (live_paint (Some c) s [(o', PointerDown x y), (o', PointerUp t)])) = [] \<and>
         snd (canvas_run (Some c) s [(o', PointerDown x y), (o', PointerUp t)]) =
           [\<lparr>st_playerId = [], st_color = co_color o', st_points = [normalizePoint (Some c) x y],
             st_brushSize = co_brushSize o', st_timestamp = t\<rparr>]"
  using assms by (cases "denorm_xy c (normalizePoint (Some c) x y)") (simp add: Let_def)

end
