(* ===== verification/Views.thy ===== *)
theory Views
  imports Screens
begin

text \<open>
  What the pages print: the clock of the voting and guessing pages, the countdown ring of
  \<open>components/Timer.tsx\<close>, the reveal of \<open>pages/RoleReveal.tsx\<close> and its timer, the
  header and turn line of \<open>pages/GameBoard.tsx\<close>, the summary of
  \<open>pages/Scoreboard.tsx\<close> and the header of \<open>pages/Lobby.tsx\<close>.  Numbers are printed
  with JavaScript's \<open>String\<close> conversion of integers and template literals, in which
  \<open>undefined\<close> prints as \<open>undefined\<close>; a JSX child that is \<open>undefined\<close> prints
  nothing.
\<close>

section \<open>Printing numbers\<close>

fun js_digits :: "nat \<Rightarrow> string" where
  "js_digits n = (if n < 10 then [char_of (48 + n)] else js_digits (n div 10) @ [char_of (48 + n mod 10)])"

definition js_int_str :: "int \<Rightarrow> string" where
  "js_int_str i = (if i < 0 then CHR ''-'' # js_digits (nat (- i)) else js_digits (nat i))"

definition js_padStart2 :: "string \<Rightarrow> string" where
  "js_padStart2 s = replicate (2 - length s) (CHR ''0'') @ s"

text \<open>\<open>{Math.floor(t / 60)}:{String(t % 60).padStart(2, '0')}\<close> of \<open>Voting\<close> and
  \<open>ImposterGuess\<close>; \<open>%\<close> keeps the sign of the dividend.\<close>

definition js_clock :: "int \<Rightarrow> string" where
  "js_clock t = js_int_str (t div 60) @ '':'' @ js_padStart2 (js_int_str (js_rem t 60))"

text \<open>Reading a clock back: the decimal value of the digits before and after the
  colon.\<close>

definition read_digits :: "string \<Rightarrow> nat" where
  "read_digits s = foldl (\<lambda>n c. 10 * n + (of_char c - 48)) 0 s"

definition read_clock :: "string \<Rightarrow> int" where
  "read_clock s =
     60 * int (read_digits (takeWhile (\<lambda>c. c \<noteq> CHR '':'') s)) +
     int (read_digits (drop 1 (dropWhile (\<lambda>c. c \<noteq> CHR '':'') s)))"

section \<open>The countdown ring\<close>

text \<open>\<open>percentage = (remaining / duration) * 100\<close>; \<open>None\<close> stands for a value that is not
  finite (\<open>NaN\<close> or an infinity), which is what a zero duration gives.  The ring's dash
  offset is \<open>2 * Math.PI * 35 * (1 - percentage / 100)\<close> and the bar's width is the
  percentage.\<close>

definition timer_percentage :: "int \<Rightarrow> timer_state \<Rightarrow> real option" where
  "timer_percentage duration t =
     (if duration = 0 then None else Some (real_of_int (tm_remaining t) / real_of_int duration * 100))"

record timer_view =
  tv_label :: "string option"
  tv_seconds :: int
  tv_color :: timer_color
  tv_dashArray :: real
  tv_dashOffset :: "real option"
  tv_barWidth :: "real option"

definition timer_render :: "int \<Rightarrow> string option \<Rightarrow> timer_state \<Rightarrow> timer_view" where
  "timer_render duration label t =
     \<lparr>tv_label = (if str_truthy label then label else None),
      tv_seconds = timer_seconds t, tv_color = timer_color duration t,
      tv_dashArray = 2 * pi * 35,
      tv_dashOffset = map_option (\<lambda>pct. 2 * pi * 35 * (1 - pct / 100)) (timer_percentage duration t),
      tv_barWidth = timer_percentage duration t\<rparr>"

section \<open>Role reveal\<close>

record reveal_view =
  rv_bgColor :: string
  rv_primaryColor :: string
  rv_roleText :: string
  rv_word :: "string option"
  rv_wordColor :: string
  rv_wordBackground :: string
  rv_wideSpacing :: bool
  rv_hint :: string
  rv_countdown :: int

definition reveal_render :: "role option \<Rightarrow> string option \<Rightarrow> reveal_view" where
  "reveal_render r w =
     (let isArtist = reveal_isArtist r in
      \<lparr>rv_bgColor = (if isArtist then ''#1a3a1a'' else ''#3a1a1a''),
       rv_primaryColor = (if isArtist then ''#2ECC71'' else ''#E74C3C''),
       rv_roleText = reveal_roleText r,
       rv_word = reveal_displayWord r w,
       rv_wordColor = (if isArtist then ''#fff'' else ''#666''),
       rv_wordBackground = (if isArtist then ''#2a4a2a'' else ''#4a2a2a''),
       rv_wideSpacing = (reveal_displayWord r w = Some ''???''),
       rv_hint = (if isArtist then ''Draw this word without being too obvious!''
                  else ''Blend in and figure out the secret word!''),
       rv_countdown = \<lceil>real ROLE_REVEAL_DURATION / 1000\<rceil>\<rparr>)"

text \<open>
  The reveal's timer: \<open>useEffect(() => setTimeout(onComplete, ROLE_REVEAL_DURATION),
  [onComplete])\<close>.  \<open>App\<close> passes \<open>handleRoleRevealComplete\<close>, a new function on every
  render of \<open>App\<close>, so each render clears the pending timeout and sets a new one.  The
  state is the time the pending timeout fires.
\<close>

datatype reveal_event = AppRender int | Clock int

fun reveal_timer :: "int \<Rightarrow> reveal_event \<Rightarrow> int \<times> bool" where
  "reveal_timer deadline (AppRender now) = (now + int ROLE_REVEAL_DURATION, False)"
| "reveal_timer deadline (Clock now) = (deadline, deadline \<le> now)"

fun reveal_run :: "int \<Rightarrow> reveal_event list \<Rightarrow> bool" where
  "reveal_run deadline [] = False"
| "reveal_run deadline (e # es) = (snd (reveal_timer deadline e) \<or> reveal_run (fst (reveal_timer deadline e)) es)"

section \<open>Game board\<close>

text \<open>The header and the line under the canvas; \<open>activePlayer?.name\<close> is
  \<open>undefined\<close> when no player of the roster is active.\<close>

definition gb_activePlayer :: "client_state \<Rightarrow> player option" where
  "gb_activePlayer s = find (\<lambda>p. Some (p_id p) = cs_activePlayerId s) (cs_players s)"

definition gb_roundText :: "client_state \<Rightarrow> string" where
  "gb_roundText s =
     ''Round '' @ js_int_str (cs_currentRound s) @ ''/'' @ js_int_str (int (length (cs_players s)))"

definition gb_turnText :: "client_state \<Rightarrow> string" where
  "gb_turnText s =
     (if gb_isMyTurn s then ''Your Turn!''
      else (case gb_activePlayer s of None \<Rightarrow> ''undefined'' | Some p \<Rightarrow> p_name p) @ CHR 0x27 # ''s Turn'')"

definition gb_waitingText :: "client_state \<Rightarrow> string option" where
  "gb_waitingText s =
     (if gb_isMyTurn s then None
      else Some (''Waiting for '' @ (case gb_activePlayer s of None \<Rightarrow> [] | Some p \<Rightarrow> p_name p) @ ''...''))"

text \<open>The turn order list: one chip per id of the turn order whose player is in the
  roster, outlined in the player's colour and bold while active, faded, struck through
  and ticked once the player has a stroke on the canvas.\<close>

record turn_chip =
  ch_name :: string
  ch_color :: string
  ch_border :: string
  ch_bold :: bool
  ch_struck :: bool
  ch_check :: bool
  ch_faded :: bool

definition gb_turnChips :: "client_state \<Rightarrow> turn_chip list" where
  "gb_turnChips s =
     List.map_filter (\<lambda>(pl, hasDrawn, isActive). map_option (\<lambda>p.
        \<lparr>ch_name = p_name p, ch_color = p_color p, ch_border = (if isActive then p_color p else ''#333''),
         ch_bold = isActive, ch_struck = hasDrawn, ch_check = hasDrawn, ch_faded = hasDrawn\<rparr>) pl)
       (gb_turnOrderDisplay s)"

section \<open>Scoreboard summary\<close>

record sb_summary =
  sm_banner :: "(string \<times> string \<times> int) option"
  sm_title :: bool
  sm_imposter :: "player option"
  sm_caught :: bool
  sm_guess :: "bool option"
  sm_secretWord :: "string option"
  sm_waiting :: "string option"

definition sb_summarise :: "round_result \<Rightarrow> player list \<Rightarrow> int \<Rightarrow> bool \<Rightarrow> sb_summary" where
  "sb_summarise res ps ws isHost =
     \<lparr>sm_banner = map_option (\<lambda>w. (p_name w, p_color w, ws)) (sb_winner res ps ws),
      sm_title = (\<not> sb_gameOver res ps ws),
      sm_imposter = find (\<lambda>p. p_id p = rr_imposterId res) ps,
      sm_caught = rr_imposterCaught res,
      sm_guess = (if rr_imposterCaught res then rr_imposterGuessCorrect res else None),
      sm_secretWord = rr_secretWord res,
      sm_waiting = (if isHost then None
                    else Some (if sb_gameOver res ps ws then ''Waiting for host to return to lobby...''
                               else ''Waiting for host to start next round...''))\<rparr>"

section \<open>Lobby header\<close>

definition lobby_header :: "client_state \<Rightarrow> string option \<times> string \<times> bool" where
  "lobby_header s =
     (cs_roomCode s, js_int_str (int (length (cs_players s))) @ ''/8 players'', cs_isHost s)"

section \<open>Imposter guess\<close>

text \<open>The page of \<open>pages/ImposterGuess.tsx\<close>: the clock, then either the input with
  its button, disabled while the trimmed guess is empty, or the submitted panel.\<close>

record guess_view =
  gv_clock :: string
  gv_input :: "string option"
  gv_submitEnabled :: "bool option"
  gv_submitted :: bool

definition guess_render :: "guess_ui \<Rightarrow> guess_view" where
  "guess_render u =
     \<lparr>gv_clock = js_clock (ig_timeRemaining u),
      gv_input = (if ig_hasSubmitted u then None else Some (ig_guess u)),
      gv_submitEnabled = (if ig_hasSubmitted u then None else Some (js_trim (ig_guess u) \<noteq> [])),
      gv_submitted = ig_hasSubmitted u\<rparr>"

section \<open>Lemmas\<close>

declare js_digits.simps [simp del]

lemma of_char_digit [simp]: "(n::nat) < 10 \<Longrightarrow> (of_char (char_of (48 + n) :: char) :: nat) = 48 + n"
  by (simp add: of_char_of)

lemma js_digits_no_colon: "CHR '':'' \<notin> set (js_digits n)"
proof (induction n rule: js_digits.induct)
  case (1 n)
  have "CHR '':'' \<noteq> char_of (48 + k)" if "k < 10" for k :: nat
  proof
    assume "CHR '':'' = char_of (48 + k)"
    then have "(of_char (char_of (48 + k) :: char) :: nat) = of_char (CHR '':'')" by (simp only:)
    with that show False by simp
  qed
  with 1 show ?case by (subst js_digits.simps) auto
qed

lemma read_digits_append: "read_digits (xs @ ys) = foldl (\<lambda>n c. 10 * n + (of_char c - 48)) (read_digits xs) ys"
  by (simp add: read_digits_def)

lemma read_digits_js_digits [simp]: "read_digits (js_digits n) = n"
proof (induction n rule: js_digits.induct)
  case (1 n)
  show ?case
  proof (cases "n < 10")
    case True
    then show ?thesis by (subst js_digits.simps) (simp add: read_digits_def)
  next
    case False
    then have "read_digits (js_digits n) = 10 * (n div 10) + n mod 10"
      using 1 by (subst js_digits.simps) (simp add: read_digits_append)
    then show ?thesis by simp
  qed
qed

lemma read_digits_zeros [simp]: "read_digits (replicate k (CHR ''0'') @ s) = read_digits s"
proof -
  have "foldl (\<lambda>n c. 10 * n + (of_char c - 48)) (0::nat) (replicate k (CHR ''0'')) = 0"
    by (induction k) simp_all
  then show ?thesis by (simp add: read_digits_def)
qed

lemma split_colon:
  "CHR '':'' \<notin> set xs \<Longrightarrow> takeWhile (\<lambda>c. c \<noteq> CHR '':'') (xs @ CHR '':'' # r) = xs \<and>
     dropWhile (\<lambda>c. c \<noteq> CHR '':'') (xs @ CHR '':'' # r) = CHR '':'' # r"
  by (induction xs) auto

lemma js_digits_two:
  assumes "n < 100" shows "length (js_digits n) \<le> 2"
proof (cases "n < 10")
  case False
  then have "n div 10 < 10" using \<open>n < 100\<close> by simp
  then show ?thesis using False by (simp add: js_digits.simps [of n] js_digits.simps [of "n div 10"])
qed (simp add: js_digits.simps)

lemma js_padStart2_length: "length s \<le> 2 \<Longrightarrow> length (js_padStart2 s) = 2"
  by (simp add: js_padStart2_def)

lemma js_clock_split:
  assumes t: "0 \<le> t"
  shows "js_clock t = js_digits (nat (t div 60)) @ CHR '':'' # js_padStart2 (js_digits (nat (t mod 60)))"
proof -
  have m: "js_rem t 60 = t mod 60" using t by (simp add: js_rem_nonneg)
  have q1: "js_int_str (t div 60) = js_digits (nat (t div 60))" using t by (simp add: js_int_str_def)
  have q2: "js_int_str (js_rem t 60) = js_digits (nat (t mod 60))" by (simp add: m js_int_str_def)
  show ?thesis by (simp add: js_clock_def q1 q2)
qed

text \<open>
  C12: the clock printed for a non-negative number of seconds reads back as that number,
  and its seconds field after the colon has exactly two digits (the minutes are not
  padded).
\<close>

theorem clock_roundtrip:
  assumes t: "0 \<le> t"
  shows "read_clock (js_clock t) = t \<and> length (drop 1 (dropWhile (\<lambda>c. c \<noteq> CHR '':'') (js_clock t))) = 2"
proof
  note sp = split_colon [OF js_digits_no_colon [of "nat (t div 60)"]]
  have "read_clock (js_clock t) = 60 * int (nat (t div 60)) + int (nat (t mod 60))"
    unfolding js_clock_split [OF t] read_clock_def using sp
    by (simp add: js_padStart2_def del: of_nat_nat)
  also have "\<dots> = t"
  proof -
    have "0 \<le> t div 60" using t by (simp add: pos_imp_zdiv_nonneg_iff)
    then show ?thesis by simp
  qed
  finally show "read_clock (js_clock t) = t" .
  have "nat (t mod 60) < 100" using t by simp
  then show "length (drop 1 (dropWhile (\<lambda>c. c \<noteq> CHR '':'') (js_clock t))) = 2"
    unfolding js_clock_split [OF t] using sp js_padStart2_length js_digits_two by simp
qed

lemma clock_roundtrip_witness:
  "0 \<le> (754::int) \<and> read_clock (js_clock 754) = 754 \<and>
   length (drop 1 (dropWhile (\<lambda>c. c \<noteq> CHR '':'') (js_clock 754))) = 2"
  using clock_roundtrip [of 754] by simp

lemma clock_example: "js_clock 65 = ''1:05''"
  by code_simp

text \<open>With a positive duration and a remaining time within it, the ring's percentage lies
  in [0, 100] and its dash offset between 0 and the dash length.\<close>

lemma timer_render_bounds:
  assumes "0 < d" and "0 \<le> tm_remaining t" and "tm_remaining t \<le> d"
  shows "\<exists>pct off. tv_barWidth (timer_render d l t) = Some pct \<and> tv_dashOffset (timer_render d l t) = Some off \<and>
           0 \<le> pct \<and> pct \<le> 100 \<and> 0 \<le> off \<and> off \<le> tv_dashArray (timer_render d l t)"
proof -
  let ?p = "real_of_int (tm_remaining t) / real_of_int d * 100"
  have le1: "real_of_int (tm_remaining t) / real_of_int d \<le> 1" using assms by simp
  have ge0: "0 \<le> real_of_int (tm_remaining t) / real_of_int d" using assms by simp
  have p: "0 \<le> ?p" "?p \<le> 100" using assms by (simp_all add: pos_divide_le_eq)
  have o1: "0 \<le> 2 * pi * 35 * (1 - ?p / 100)" using le1 by (simp add: pi_ge_zero)
  have o2: "2 * pi * 35 * (1 - ?p / 100) \<le> 2 * pi * 35"
    using p ge0 by (intro mult_left_le) (simp_all add: pi_ge_zero)
  show ?thesis using assms p o1 o2
    by (auto simp: timer_render_def timer_percentage_def intro: divide_nonneg_pos)
qed

text \<open>The reveal shows a five second countdown; the imposter's card shows no word.\<close>

lemma reveal_countdown: "rv_countdown (reveal_render r w) = 5"
  by (simp add: reveal_render_def ROLE_REVEAL_DURATION_def Let_def)

lemma reveal_imposter_sees_no_word:
  "r \<noteq> Some Artist \<Longrightarrow> rv_word (reveal_render r w) = Some ''???'' \<and> rv_roleText (reveal_render r w) = ''IMPOSTER''"
  by (simp add: reveal_render_def reveal_displayWord_def reveal_roleText_def reveal_isArtist_def)

text \<open>Left alone the reveal's timeout fires at its deadline; a render of \<open>App\<close> every
  four seconds postpones it forever.\<close>

lemma reveal_fires_alone: "reveal_run dl [Clock n] \<longleftrightarrow> dl \<le> n"
  by simp

lemma reveal_postponed_example:
  "\<not> reveal_run (0 + int ROLE_REVEAL_DURATION)
      [Clock 3999, AppRender 4000, Clock 7999, AppRender 8000, Clock 11999, AppRender 12000, Clock 15999]"
  by (simp add: ROLE_REVEAL_DURATION_def)

lemma find_False [simp]: "find (\<lambda>p. False) xs = None"
  by (induction xs) simp_all

text \<open>Before the first \<open>TURN_START\<close> no player is active, and the board reads
  \<open>undefined's Turn\<close>; this is what \<open>App\<close> shows when the reveal ends first.\<close>

lemma undefined_turn_text:
  "cs_activePlayerId s = None \<Longrightarrow> cs_playerId s \<noteq> None \<Longrightarrow>
   gb_turnText s = ''undefined'' @ CHR 0x27 # ''s Turn'' \<and> gb_waitingText s = Some ''Waiting for ...''"
  by (auto simp: gb_turnText_def gb_waitingText_def gb_isMyTurn_def gb_activePlayer_def)

lemma first_round_board_undefined:
  assumes "str_truthy (cs_roomCode (ap_state a))" and "cs_activePlayerId (ap_state a) = None"
    and "cs_playerId (ap_state a) \<noteq> None"
    and "a1 = fst (app_step (fst (app_step a (ServerMsg (GAME_STARTING rl w ord ps st)))) RevealDone)"
  shows "cs_phase (ap_state a1) = ROLE_REVEAL \<and> renderPage (ap_state a1) (ap_ui a1) = GameBoardPage \<and>
         gb_turnText (ap_state a1) = ''undefined'' @ CHR 0x27 # ''s Turn''"
proof -
  have "cs_phase (ap_state a1) = ROLE_REVEAL \<and> renderPage (ap_state a1) (ap_ui a1) = GameBoardPage \<and>
        cs_activePlayerId (ap_state a1) = None \<and> cs_playerId (ap_state a1) = cs_playerId (ap_state a)"
    using assms by (auto simp: Let_def renderPage_def app_phase_effects_def app_remount_def app_roleRevealComplete_def)
  then show ?thesis using assms(3) undefined_turn_text [of "ap_state a1"] by simp
qed

text \<open>The guess button is enabled exactly when a click on it, or Enter in the input,
  sends a guess; after a click the page shows the submitted panel unless the button was
  disabled.\<close>

lemma guess_button_iff_sends:
  "gv_submitEnabled (guess_render u) = Some True \<longleftrightarrow> snd (guess_step u ClickSubmitGuess) \<noteq> None"
  "gv_submitEnabled (guess_render u) = Some True \<longleftrightarrow> snd (guess_step u PressEnter) \<noteq> None"
  by (auto simp: guess_render_def guess_submit_def)

lemma guess_submitted_panel:
  "gv_submitted (guess_render (fst (guess_step u ClickSubmitGuess))) \<longleftrightarrow>
   gv_submitEnabled (guess_render u) \<noteq> Some False"
  by (auto simp: guess_render_def guess_submit_def)

lemma map_filter_bold_le:
  "length (filter ch_bold (List.map_filter (\<lambda>(pl, hasDrawn, isActive). map_option (\<lambda>p.
        \<lparr>ch_name = p_name p, ch_color = p_color p, ch_border = (if isActive then p_color p else ''#333''),
         ch_bold = isActive, ch_struck = hasDrawn, ch_check = hasDrawn, ch_faded = hasDrawn\<rparr>) pl)
     (map (\<lambda>q. (f q, g q, a = Some q)) xs)))
   \<le> length (filter (\<lambda>q. a = Some q) xs)"
  by (induction xs) (auto simp: List.map_filter_simps split: option.split)

lemma distinct_filter_eq_le1:
  "distinct xs \<Longrightarrow> length (filter (\<lambda>q. a = Some q) xs) \<le> 1"
proof (induction xs)
  case (Cons x xs)
  then show ?case by (cases "a = Some x") (auto simp: filter_empty_conv)
qed simp

text \<open>With a turn order without repetitions, at most one chip of the turn order is
  marked active.\<close>

theorem one_active_chip:
  "distinct (cs_turnOrder s) \<Longrightarrow> length (filter ch_bold (gb_turnChips s)) \<le> 1"
  using map_filter_bold_le [of "\<lambda>q. find (\<lambda>p. p_id p = q) (cs_players s)"
          "\<lambda>q. list_ex (\<lambda>st. st_playerId st = q) (cs_strokes s)" "cs_activePlayerId s" "cs_turnOrder s"]
    distinct_filter_eq_le1 [of "cs_turnOrder s" "cs_activePlayerId s"]
  unfolding gb_turnChips_def gb_turnOrderDisplay_def by linarith

end
