(* ===== verification/Spec2Isabelle.thy ===== *)
theory Spec2Isabelle
  imports Session Spectator Painting Views
begin

text \<open>
  \<^bold>\<open>A verification model of the loki-game server.\<close>

  The program is a drawing and deduction party game: a Node.js server
  (\<open>src/server/src\<close>) keeps rooms of three to eight players; one or two of them, the
  imposters, do not know the secret word.  The players draw in turns, then vote for the
  imposter, and a caught imposter may still guess the word.  The React client
  (\<open>src/client/src\<close>) keeps a copy of the game state built from the server's
  messages, shows one page per phase, and sends the player's actions.

  \<^bold>\<open>Parts and theories.\<close>  Each theory models one part of the server, in the order
  in which the parts call each other.
  \<^item> \<open>Prelude\<close> holds the shared vocabulary.  JavaScript \<open>Map\<close>, \<open>Set\<close> and objects are
    association lists in insertion order (\<open>Map.set\<close> is \<open>AList.update\<close>).  Every thrown
    error is a constructor of \<open>error\<close>, with the message the client receives.  It also
    defines JavaScript's \<open>%\<close>, truthiness, \<open>toLowerCase\<close> and the sequencing of calls.
  \<^item> \<open>ScoringEngine\<close> models \<open>ScoringEngine.ts\<close>: \<open>calculate\<close> as a pure function.
  \<^item> \<open>TurnManager\<close> models \<open>TurnManager.ts\<close>: the Fisher-Yates shuffle over an injected
    \<open>Math.random\<close>, and \<open>advanceTurn\<close> and \<open>isComplete\<close> on a record.
  \<^item> \<open>VotingManager\<close> models \<open>VotingManager.ts\<close>.  \<open>castVote\<close> returns the new collector
    or an error, and \<open>getResult\<close> has its three loops.
  \<^item> \<open>Player\<close>, \<open>WordBank\<close> and \<open>SharedTypes\<close> model \<open>Player.ts\<close>, \<open>WordBank.ts\<close>
    (its 13 word lists are copied from the source) and \<open>src/shared/types.ts\<close>
    (phases, roles, strokes, settings, and the two message types).
  \<^item> \<open>GameRoom\<close> models \<open>GameRoom.ts\<close>.  A room is a record, and every method is a
    function from the room to \<open>(error + result) \<times> room\<close>, so a write made before a
    throw stays.  \<open>room_op\<close> / \<open>room_call\<close> is the interface the router uses, and
    \<open>room_reachable\<close> holds the rooms that any sequence of calls produces.
  \<^item> \<open>Router\<close> models \<open>messages.ts\<close>, one definition per case of \<open>handleMessage\<close>.
    The server state is the room map, \<open>playerRooms\<close> and the pending timers.  Rooms
    live in an explicit heap, because the room map and the role-reveal timers share the
    room objects.  A handler returns its reply, the new state, and the messages it sent,
    each with its addressee.
  \<^item> \<open>Server\<close> models \<open>index.ts\<close>: connections, the map from players to sockets, and
    one \<open>step\<close> per event (a new connection, a message, a malformed message, a close,
    the oldest timer firing).  A step either returns the new state and what was written
    to each socket, or \<open>Inl e\<close>: an exception in a timer callback, which ends the
    process.  \<open>reachable\<close> is the set of states reachable from the start state.
  \<^item> \<open>Client\<close> models the client's state (\<open>lib/gameState.ts\<close>) and the reducer of
    \<open>hooks/useGame.ts\<close>, which folds the server's messages into that state.  The
    hook's actions are modelled as the messages they send.  \<open>client_view\<close> applies the
    reducer to what the server delivered to one connection: it is what that player's
    screen shows.
  \<^item> \<open>Transport\<close> models the two browser-side state machines under the screens.
    \<open>ws_step\<close> is \<open>hooks/useWebSocket.ts\<close>: connect, send and disconnect, and the
    open, close and error events of the socket and the reconnect timer, over a record of
    the socket state, URL, retry counter, timer and queue of pending messages.
    \<open>canvas_step\<close> is the pointer handlers of \<open>hooks/useCanvas.ts\<close>, which turn a
    press, moves and a release into a stroke.
  \<^item> \<open>Screens\<close> models \<open>App.tsx\<close>, the pages and \<open>components/Timer.tsx\<close>.
    \<open>renderPage\<close> is the routing of \<open>App\<close> from the client state and its two flags.
    \<open>app_step\<close> composes the reducer, the effects on the phase, the reveal's end and
    the voting page.  Each page is a record of its \<open>useState\<close> with a step function
    for its inputs, buttons and countdowns: \<open>home_step\<close>, \<open>lobby_step\<close>,
    \<open>voting_step\<close> and \<open>guess_step\<close>.  The last keeps the values an effect's
    closure captured.  Derived views are plain functions: the board's \<open>gb_*\<close>, the
    scoreboard's \<open>sb_*\<close>, and the timer's \<open>timer_tick\<close> on \<open>Date.now\<close> values.
  \<^item> \<open>Session\<close> joins the client to the socket and the server.  \<open>useGame_act\<close> is an
    action of \<open>useGame\<close> as calls of the socket wrapper: \<open>createGame\<close> and
    \<open>joinGame\<close> connect and then send, the others only send.  A dropped socket that
    reconnects is, for the server, a close followed by a new connection.
  \<^item> \<open>Painting\<close> models what \<open>hooks/useCanvas.ts\<close> and \<open>components/Canvas.tsx\<close>
    draw.  A drawing routine returns its trace of 2D-context commands (\<open>paint\<close>):
    \<open>drawStroke\<close>, \<open>clearCanvas\<close>, \<open>drawAllStrokes\<close>, the square resize and
    repaint of \<open>Canvas\<close> (\<open>canvas_repaint\<close>), and the live ink of the pointer
    handlers (\<open>pointer_paint\<close>, folded over a gesture by \<open>live_paint\<close>).  \<open>ink\<close>
    replays a trace on a model of the context (style, width, fill, current path) and
    returns what becomes visible: filled rectangles and stroked paths.
  \<^item> \<open>Views\<close> models the text the pages print.  \<open>js_clock\<close> is the \<open>m:ss\<close> clock of
    \<open>Voting\<close> and \<open>ImposterGuess\<close>, over JavaScript's \<open>String\<close> and
    \<open>padStart\<close>.  \<open>timer_render\<close> is the ring and bar of \<open>Timer\<close>; a percentage that
    is not finite (zero duration) is \<open>None\<close>.  \<open>reveal_render\<close> and
    \<open>reveal_timer\<close> model \<open>RoleReveal\<close> and its timeout.  The timeout is re-armed on
    every render of \<open>App\<close>, because its callback is a new function each time.  The
    group also has the board's header, turn lines and turn order chips
    (\<open>gb_turnText\<close>, \<open>gb_turnChips\<close>), the page of \<open>ImposterGuess\<close>
    (\<open>guess_render\<close>), the scoreboard's summary (\<open>sb_summarise\<close>) and the lobby's
    header.
  \<^item> \<open>Spectator\<close> models \<open>pages/SharedScreen.tsx\<close>, which nothing renders: its
    reducer \<open>spectator_handle\<close> and its view \<open>spectator_render\<close>.  On the messages
    the spectator handles, its reducer refines the player's, seen through
    \<open>spectator_abs\<close>.

  \<^bold>\<open>Randomness and bounds.\<close>  Every \<open>Math.random()\<close> value is an argument.  Shuffles
  use a function \<open>nat \<Rightarrow> real\<close> (one draw per loop step), and a message uses the
  record \<open>entropy\<close>.  The imposter draw \<open>[...ids].sort(() => Math.random() - 0.5)\<close> is
  an argument list: the engine's sort decides it, and the theorems only assume that it
  is a permutation of the roster.  Theorems about shuffles assume every draw lies in
  [0, 1), which is what \<open>Math.random\<close> promises.  No loop of the server can run
  forever (each runs over a list or up to a counter), so the model needs no fuel.  The
  turn sequencer is complete after exactly N*R advances (C3), and the drawing phase
  reaches the vote after exactly N*R strokes (C16).  Scores and counters are
  unbounded \<open>int\<close>s: a JavaScript number does not wrap at these magnitudes.

  \<^bold>\<open>What the theorems show.\<close>
  \<^item> Voting refines a declarative plurality rule (C1, C2, C5).  Votes are accepted
    exactly when valid (C9) and keep the collector's invariant (C10).  N valid votes
    complete the vote (C11).
  \<^item> Turns are a permutation of the roster (C7), repeated once per round (C8).
  \<^item> Scores follow the three regimes of the rules (C4).
  \<^item> Words are drawn from the built-in lists (C14).
  \<^item> Room-level claims: the roles of a started game (C15), strokes leading to the vote
    (C16), the room invariant in every reachable room (C17), errors that leave a partial
    write (C18), score accrual (C19), turn enforcement (C20), and the room code, colours
    and serialised state, whose active player is the turn order entry at its turn index
    (C33 to C35).
  \<^item> Server-level claims: the room invariant in every reachable server state (C21) and
    stroke ownership (C23).  No imposter is ever
    sent the word (C37).
  \<^item> Client claims: the spectator's reducer refines the player's over every sequence of
    messages it follows (C36).  A page's countdown timer calls \<open>onComplete\<close> exactly
    once when a tick comes after its end (C22).
    The socket wrapper is a FIFO channel for the messages it accepts (C6).  It never
    stops reconnecting: the retry limit is never reached (C39).  When the imposter's
    countdown ends, the guess sent is empty (C40).
  \<^item> What the client shows: the printed clock reads back as the number of seconds, with
    two digits after the colon (C12).  For a gesture with a move, the path the drawer
    sees while drawing is the path a repaint draws for the stroke that is sent (C13).
  \<^item> Lemmas of the client theories with no claim id:
    \<^item> the scoreboard's winner has the top total, and its game-over test agrees with
      the server's \<open>someone_won\<close>;
    \<^item> a player sends at most one vote per voting page, and never one for itself;
    \<^item> the lobby starts games only with known categories;
    \<^item> a joined room code has four upper-case characters;
    \<^item> a pointer gesture gives exactly one stroke, and pointer coordinates round-trip
      through normalisation;
    \<^item> after a new round, the last drawer's board shows a stale \<open>Your Turn!\<close>;
    \<^item> a reconnected client loses its session: the server ignores it in silence;
    \<^item> a repaint shows the background and then exactly the strokes that have points,
      in order; a tap is sent as a stroke but inks nothing live;
    \<^item> the timer's ring stays within its bounds; the reveal counts down five seconds
      and shows the imposter no word; a render every four seconds keeps the reveal's
      timeout from ever firing;
    \<^item> when the reveal ends before the first \<open>TURN_START\<close>, the board reads
      \<open>undefined's Turn\<close>;
    \<^item> the guess button is enabled exactly when a click or Enter sends a guess; with a
      turn order without repetitions at most one chip is marked active.
  \<^item> Behaviours in which the code departs from its specification: the crash of
    an uncancelled timer (C24), errors silently dropped for new connections (C25),
    repeated scoring (C26), \<open>NEXT_ROUND\<close> without phase or roster checks (C27, C28),
    \<open>PLAY_AGAIN\<close> (C29), a room that has lost its host (C30), room-code collisions (C31)
    and ghost players left by a second \<open>CREATE_GAME\<close> on the same connection (C32).  A
    client refused in silence waits forever (C38).  C32 and C38 hold in every server
    state, not only on one run.

  \<^bold>\<open>Not modelled.\<close>
  \<^item> The presentation of the client: CSS styling and layout, the pixels of the
    canvas (painting is modelled down to the paths the context strokes, not their
    rasterisation), and \<open>ColorBadge\<close>, a coloured dot that decides nothing.  Also the JSON encoding of the socket, its \<open>onmessage\<close> dispatch, and
    browser notifications.
  \<^item> The timing of the client's timers.  A countdown tick, the end of the reveal and a
    reconnect are events that may come between any two messages.  \<open>Timer\<close> reads
    \<open>Date.now\<close> values as arguments, with no assumption that they increase.
    React's batching is not modelled: each message is its own render, and effects run
    after it.
  \<^item> Characters are bytes: \<open>toUpperCase\<close> and \<open>trim\<close> are modelled on ASCII and
    the no-break space.
  \<^item> A pointer position on a canvas of size 0 would be a JavaScript \<open>NaN\<close>.  In
    the model it is HOL's \<open>x / 0 = 0\<close>.
  \<^item> Express, the HTTP health route, logging, and JSON encoding and decoding.  A message
    arrives already decoded, or as a parse error.
  \<^item> The timing of the timers: a timer may fire between any two events, which covers
    every real schedule.  A socket is open exactly while its connection is registered.
  \<^item> \<open>crypto.randomUUID\<close> is an argument (\<open>en_uuid\<close>).  The theorems that need fresh
    ids assume them.
\<close>

end
